(* ===== verification/Prelude.thy ===== *)
theory Prelude
  imports Complex_Main "HOL-Library.Word" "HOL-Library.Sublist" "HOL-Library.Log_Nat"
    "HOL-Library.Multiset"
begin

unbundle bit_operations_syntax

text \<open>
  Shared vocabulary of the Poseidon development: machine types, C arrays and
  strings as lists, the comparator and table interfaces several components
  provide, and the generic list and word lemmas their proofs use.

  Conventions used by every theory:
  \<^item> \<open>uint8_t\<close>, \<open>uint16_t\<close>, \<open>uint32_t\<close> and \<open>uint64_t\<close> values whose width matters are
    words; \<open>size_t\<close> lengths, indices and counters are \<open>nat\<close>;
  \<^item> a C object reached through a non-null pointer is the record of its
    fields; a pointer argument or field that the code lets be NULL is an
    \<open>option\<close>;
  \<^item> an operation that locks its object for its whole body is one atomic
    function from the old object to the new one;
  \<^item> status codes are the \<open>int\<close> the source returns (0, -1, -2).
\<close>

named_theorems bits_simps "reading single bits of bytes and bit arrays"
named_theorems wf_intros "well-formedness of the objects the operations build"
named_theorems op_defs "definitions of operations that proofs unfold"

type_synonym byte = "8 word"
type_synonym u16 = "16 word"
type_synonym u32 = "32 word"
type_synonym u64 = "64 word"
type_synonym bytes = "byte list"

lemma unat_eq_unat_iff: "unat a = unat b \<longleftrightarrow> a = b"
  by (simp add: word_unat_eq_iff)

lemma unat_u32_less: "unat (b::u32) < 2 ^ 32"
  using unsigned_less [of b] by simp

lemma unat_add_one_u32: "(a::u32) < b \<Longrightarrow> unat (a + 1) = unat a + 1"
  using unat_u32_less [of b] by (simp add: word_less_nat_alt unat_word_ariths)

lemma unat_of_nat_u64: "n < 2 ^ 64 \<Longrightarrow> unat (of_nat n :: u64) = n"
  by (simp add: unat_of_nat)

section \<open>Single precision arithmetic\<close>

text \<open>
  \<open>float\<close> values are finite, so they are rationals. \<open>float32\<close> rounds a
  non-negative rational to the nearest value with a 24 bit significand, ties to
  even, which is what the conversion of an integer to \<open>float\<close> and a \<open>float\<close>
  division do on values between the smallest and the largest normal number. The
  code uses it on fill ratios (quotients of two counts) only.
\<close>

definition round_half_even :: "int \<Rightarrow> int \<Rightarrow> int" where
  "round_half_even n d =
     (let q = n div d; r = n mod d
      in if 2 * r > d \<or> (2 * r = d \<and> odd q) then q + 1 else q)"

definition float32 :: "rat \<Rightarrow> rat" where
  "float32 x =
     (if x \<le> 0 then 0
      else
        let (n, d) = quotient_of x;
            k = bitlen n - bitlen d;
            e = (if 2 ^ nat k * d \<le> n * 2 ^ nat (- k) then k else k - 1) - 23
        in if 0 \<le> e then of_int (round_half_even n (d * 2 ^ nat e) * 2 ^ nat e)
           else Fract (round_half_even (n * 2 ^ nat (- e)) d) (2 ^ nat (- e)))"

section \<open>Lists as C arrays\<close>

text \<open>
  The linear scans of the source stop at the first element that satisfies a
  test. \<open>List.find\<close> is the scan that returns it; \<open>remove_first\<close> is the scan that
  closes the gap it leaves (\<open>vec_splice(v, i, 1)\<close> or a shifting loop, then
  \<open>break\<close>); \<open>update_first\<close> is the scan that overwrites it; \<open>find_index\<close> is the
  scan that keeps its position; \<open>swap_remove\<close> is the removal that moves the last
  element into the freed slot.
\<close>

fun remove_first :: "('a \<Rightarrow> bool) \<Rightarrow> 'a list \<Rightarrow> 'a list" where
  "remove_first P [] = []"
| "remove_first P (x # xs) = (if P x then xs else x # remove_first P xs)"

fun update_first :: "('a \<Rightarrow> bool) \<Rightarrow> ('a \<Rightarrow> 'a) \<Rightarrow> 'a list \<Rightarrow> 'a list" where
  "update_first P f [] = []"
| "update_first P f (x # xs) = (if P x then f x # xs else x # update_first P f xs)"

fun find_index :: "('a \<Rightarrow> bool) \<Rightarrow> 'a list \<Rightarrow> nat option" where
  "find_index P [] = None"
| "find_index P (x # xs) = (if P x then Some 0 else map_option Suc (find_index P xs))"

definition swap_remove :: "nat \<Rightarrow> 'a list \<Rightarrow> 'a list" where
  "swap_remove i xs = butlast (xs[i := last xs])"

lemma remove_first_id [simp]: "\<not> list_ex P xs \<Longrightarrow> remove_first P xs = xs"
  by (induction xs) auto

lemma length_remove_first:
  "length (remove_first P xs) = (if list_ex P xs then length xs - 1 else length xs)"
  by (induction xs) (auto simp: Suc_diff_Suc intro: Suc_pred length_pos_if_in_set dest!: list_ex_iff [THEN iffD1])

lemma set_remove_first_subset: "set (remove_first P xs) \<subseteq> set xs"
  by (induction xs) auto

lemma in_remove_first_iff: "\<not> P x \<Longrightarrow> x \<in> set (remove_first P xs) \<longleftrightarrow> x \<in> set xs"
  by (induction xs) auto

lemma distinct_map_remove_first:
  "distinct (map f xs) \<Longrightarrow> distinct (map f (remove_first P xs))"
  by (induction xs) (auto dest: set_remove_first_subset [THEN subsetD])

lemma remove_first_filter:
  "distinct (map f xs) \<Longrightarrow> remove_first (\<lambda>x. f x = k) xs = filter (\<lambda>x. f x \<noteq> k) xs"
  by (induction xs) (auto intro!: filter_True [symmetric], metis image_eqI)

lemma length_update_first [simp]: "length (update_first P f xs) = length xs"
  by (induction xs) auto

lemma map_update_first:
  "(\<And>x. P x \<Longrightarrow> g (f x) = g x) \<Longrightarrow> map g (update_first P f xs) = map g xs"
  by (induction xs) auto

lemma find_eq_NoneD: "find P xs = None \<Longrightarrow> x \<in> set xs \<Longrightarrow> \<not> P x"
  by (simp add: find_None_iff)

lemma find_eq_SomeD: "find P xs = Some x \<Longrightarrow> x \<in> set xs \<and> P x"
  by (induction xs) (auto split: if_splits)

lemma find_append:
  "find P (xs @ ys) = (case find P xs of None \<Rightarrow> find P ys | Some x \<Rightarrow> Some x)"
  by (induction xs) auto

lemma find_index_None_iff: "find_index P xs = None \<longleftrightarrow> \<not> list_ex P xs"
  by (induction xs) auto

lemma find_index_SomeD: "find_index P xs = Some i \<Longrightarrow> i < length xs \<and> P (xs ! i)"
  by (induction xs arbitrary: i) (auto split: if_splits)

lemma find_index_find: "find P xs = map_option ((!) xs) (find_index P xs)"
  by (induction xs) (auto simp: option.map_comp comp_def)

lemma length_swap_remove: "xs \<noteq> [] \<Longrightarrow> length (swap_remove i xs) = length xs - 1"
  by (simp add: swap_remove_def)

lemma mset_butlast: "xs \<noteq> [] \<Longrightarrow> mset (butlast xs) = mset xs - {#last xs#}"
  by (induction xs rule: rev_induct) auto

lemma mset_swap_remove:
  assumes "i < length xs"
  shows "mset (swap_remove i xs) = mset xs - {#xs ! i#}"
proof -
  have ne: "xs \<noteq> []" using assms by auto
  have "last (xs[i := last xs]) = last xs"
    using assms ne by (auto simp: last_list_update)
  then have "mset (swap_remove i xs) = mset (xs[i := last xs]) - {#last xs#}"
    using ne by (simp add: swap_remove_def mset_butlast)
  also have "\<dots> = mset xs - {#xs ! i#}"
    using assms by (simp add: mset_update)
  finally show ?thesis .
qed

section \<open>Comparators\<close>

text \<open>
  The contract of the three-way comparison functions of the source
  (\<open>bitset_compare\<close>, \<open>quasar_message_id_compare\<close>, \<open>transaction_id_compare\<close>,
  \<open>poseidon_node_id_compare\<close>): the sign of the result is a total order whose
  equality is equality.
\<close>

locale total_comparator =
  fixes cmp :: "'a \<Rightarrow> 'a \<Rightarrow> int"
  assumes swap: "cmp b a = - cmp a b"
    and zero_iff: "cmp a b = 0 \<longleftrightarrow> a = b"
    and le_trans: "cmp a b \<le> 0 \<Longrightarrow> cmp b c \<le> 0 \<Longrightarrow> cmp a c \<le> 0"
begin

lemma refl_zero: "cmp a a = 0"
  by (simp add: zero_iff)

lemma less_trans: "cmp a b < 0 \<Longrightarrow> cmp b c < 0 \<Longrightarrow> cmp a c < 0"
  by (metis le_trans less_le linorder_not_less neg_less_0_iff_less order_less_imp_le swap zero_iff)

lemma trichotomy: "cmp a b < 0 \<or> a = b \<or> cmp b a < 0"
  using zero_iff [of a b] swap [of b a] by linarith

lemma antisym_eq: "cmp a b \<le> 0 \<Longrightarrow> cmp b a \<le> 0 \<Longrightarrow> a = b"
  using zero_iff [of a b] swap [of b a] by linarith

end

text \<open>Every comparator that reports the order of an injective key satisfies the contract.\<close>

definition cmp_key :: "('a \<Rightarrow> 'k::linorder) \<Rightarrow> 'a \<Rightarrow> 'a \<Rightarrow> int" where
  "cmp_key key a b = (if key a < key b then - 1 else if key b < key a then 1 else 0)"

lemma total_comparator_cmp_key:
  assumes "inj key" and "\<And>a b. cmp a b = cmp_key key a b"
  shows "total_comparator cmp"
  using assms by unfold_locales (auto simp: cmp_key_def dest: injD split: if_splits)

section \<open>Bit arrays\<close>

text \<open>
  What the filters rely on of a bit array: a fresh one is clear, and a write
  changes the addressed bit and no other.
\<close>

locale bit_array =
  fixes get :: "'s \<Rightarrow> nat \<Rightarrow> bool"
    and put :: "'s \<Rightarrow> nat \<Rightarrow> bool \<Rightarrow> 's"
    and fresh :: "nat \<Rightarrow> 's"
  assumes get_fresh: "\<not> get (fresh n) i"
    and get_put: "get (put s i v) j = (if i = j then v else get s j)"
begin

lemma get_fold_put:
  "get (fold (\<lambda>i s. put s i True) is s) j \<longleftrightarrow> j \<in> set is \<or> get s j"
  by (induction "is" arbitrary: s) (auto simp: get_put)

lemma get_fold_put_if:
  "get (fold (\<lambda>i s. if P i then put s i True else s) is s) j
     \<longleftrightarrow> (j \<in> set is \<and> P j) \<or> get s j"
  by (induction "is" arbitrary: s) (auto simp: get_put)

lemma get_rebuild:
  "get (fold (\<lambda>i s. if P i then put s i True else s) [0..<n] (fresh m)) j \<longleftrightarrow> j < n \<and> P j"
  by (simp add: get_fold_put_if get_fresh)

lemma get_put_mono: "get s j \<Longrightarrow> get (put s i True) j"
  by (simp add: get_put)

end

section \<open>Keyed tables\<close>

text \<open>
  The contract of the tables the program keeps in vectors and arrays and scans by
  key: at most one entry per key, and the usual laws of lookup after insertion and
  removal. \<open>store\<close> replaces an entry with the same key.
\<close>

locale keyed_table =
  fixes invar :: "'t \<Rightarrow> bool"
    and lookup :: "'t \<Rightarrow> 'k \<Rightarrow> 'e option"
    and store :: "'k \<Rightarrow> 'e \<Rightarrow> 't \<Rightarrow> 't"
    and delete :: "'k \<Rightarrow> 't \<Rightarrow> 't"
  assumes invar_store: "invar t \<Longrightarrow> invar (store k e t)"
    and invar_delete: "invar t \<Longrightarrow> invar (delete k t)"
    and lookup_store: "invar t \<Longrightarrow> lookup (store k e t) k' = (if k' = k then Some e else lookup t k')"
    and lookup_delete: "invar t \<Longrightarrow> lookup (delete k t) k' = (if k' = k then None else lookup t k')"
begin

lemma lookup_store_fold:
  "invar t \<Longrightarrow> k \<notin> fst ` set kes \<Longrightarrow> lookup (fold (\<lambda>(k, e). store k e) kes t) k = lookup t k"
  by (induction kes arbitrary: t) (auto simp: lookup_store invar_store)

lemma invar_store_fold: "invar t \<Longrightarrow> invar (fold (\<lambda>(k, e). store k e) kes t)"
  by (induction kes arbitrary: t) (auto simp: invar_store)

lemma last_store_wins:
  "invar t \<Longrightarrow> k \<notin> fst ` set kes \<Longrightarrow>
     lookup (fold (\<lambda>(k, e). store k e) kes (store k e t)) k = Some e"
  by (simp add: lookup_store_fold invar_store lookup_store)

lemma delete_store: "invar t \<Longrightarrow> lookup (delete k (store k e t)) k' = lookup (delete k t) k'"
  by (simp add: lookup_delete lookup_store invar_store)

end

text \<open>The implementation most of them use: a list with distinct keys, scanned from the front.\<close>

lemma find_remove_first_other:
  "k' \<noteq> k \<Longrightarrow> find (\<lambda>x. key x = k') (remove_first (\<lambda>x. key x = k) xs) = find (\<lambda>x. key x = k') xs"
  by (induction xs) auto

lemma find_remove_first_same:
  "distinct (map key xs) \<Longrightarrow> find (\<lambda>x. key x = k) (remove_first (\<lambda>x. key x = k) xs) = None"
  by (simp add: remove_first_filter find_None_iff)

lemma distinct_remove_first_append:
  "distinct (map key xs) \<Longrightarrow> key e = k \<Longrightarrow> distinct (map key (remove_first (\<lambda>x. key x = k) xs @ [e]))"
  by (auto simp: remove_first_filter distinct_map_filter)

lemma update_first_id: "\<not> list_ex P xs \<Longrightarrow> update_first P f xs = xs"
  by (induction xs) auto

lemma find_update_first_other:
  "(\<And>x. key (f x) = key x) \<Longrightarrow> k' \<noteq> k \<Longrightarrow>
     find (\<lambda>x. key x = k') (update_first (\<lambda>x. key x = k) f xs) = find (\<lambda>x. key x = k') xs"
  by (induction xs) auto

lemma find_update_first_same:
  "(\<And>x. key (f x) = key x) \<Longrightarrow>
     find (\<lambda>x. key x = k) (update_first (\<lambda>x. key x = k) f xs) = map_option f (find (\<lambda>x. key x = k) xs)"
  by (induction xs) auto

lemma set_swap_remove:
  assumes "distinct xs" "i < length xs"
  shows "set (swap_remove i xs) = set xs - {xs ! i}" "distinct (swap_remove i xs)"
proof -
  have m: "mset (swap_remove i xs) = mset xs - {#xs ! i#}" by (rule mset_swap_remove [OF assms(2)])
  also have "\<dots> = mset_set (set xs - {xs ! i})"
    using assms by (simp add: mset_set_set mset_set_Diff)
  finally have e: "mset (swap_remove i xs) = mset_set (set xs - {xs ! i})" .
  then have "set_mset (mset (swap_remove i xs)) = set xs - {xs ! i}" by simp
  then show s: "set (swap_remove i xs) = set xs - {xs ! i}" by simp
  show "distinct (swap_remove i xs)"
    using e s by (metis finite_set distinct_count_atmost_1 count_mset_set mset_set.infinite count_empty
        finite_Diff)
qed

lemma map_swap_remove: "xs \<noteq> [] \<Longrightarrow> map f (swap_remove i xs) = swap_remove i (map f xs)"
  by (simp add: swap_remove_def map_butlast map_update last_map)

text \<open>
  Tables with a fixed number of slots: storing under a known key combines the entries,
  storing under a new key succeeds while a slot is free and is refused with -1, without
  a change, when the table is full. \<open>valid\<close> are the keys a slot can hold.
\<close>

locale bounded_table =
  fixes invar :: "'t \<Rightarrow> bool"
    and lookup :: "'t \<Rightarrow> 'k \<Rightarrow> 'e option"
    and used :: "'t \<Rightarrow> nat"
    and slots :: nat
    and valid :: "'k \<Rightarrow> bool"
    and comb :: "'e option \<Rightarrow> 'e \<Rightarrow> 'e"
    and store :: "'k \<Rightarrow> 'e \<Rightarrow> 't \<Rightarrow> int \<times> 't"
  assumes invar_store: "invar t \<Longrightarrow> valid k \<Longrightarrow> invar (snd (store k e t))"
    and store_ok: "invar t \<Longrightarrow> valid k \<Longrightarrow> lookup t k \<noteq> None \<or> used t < slots \<Longrightarrow>
      fst (store k e t) = 0 \<and>
      lookup (snd (store k e t)) = (lookup t)(k \<mapsto> comb (lookup t k) e)"
    and store_full: "invar t \<Longrightarrow> valid k \<Longrightarrow> lookup t k = None \<Longrightarrow> used t \<ge> slots \<Longrightarrow> store k e t = (- 1, t)"
    and used_le: "invar t \<Longrightarrow> used t \<le> slots"
begin

lemma store_status: "invar t \<Longrightarrow> valid k \<Longrightarrow>
    fst (store k e t) = (if lookup t k \<noteq> None \<or> used t < slots then 0 else - 1)"
  using store_ok store_full by (metis fst_conv not_le)

lemma lookup_store: "invar t \<Longrightarrow> valid k \<Longrightarrow> fst (store k e t) = 0 \<Longrightarrow>
    lookup (snd (store k e t)) k' = (if k' = k then Some (comb (lookup t k) e) else lookup t k')"
  using store_ok store_status by (metis fun_upd_apply zero_neq_neg_one)

lemma lookup_store_other: "invar t \<Longrightarrow> valid k \<Longrightarrow> k' \<noteq> k \<Longrightarrow> lookup (snd (store k e t)) k' = lookup t k'"
  using store_ok store_full by (metis fun_upd_apply not_le snd_conv)

lemma invar_stores:
  "invar t \<Longrightarrow> list_all (\<lambda>ke. valid (fst ke)) kes \<Longrightarrow> invar (fold (\<lambda>ke t. snd (store (fst ke) (snd ke) t)) kes t)"
  by (induction kes arbitrary: t) (auto simp: invar_store)

end

end
