(* ===== verification/KeyPair.thy ===== *)
theory KeyPair
  imports Prelude
begin

text \<open>
  Key pairs (\<open>src/Crypto/key_pair.c\<close>). OpenSSL is a parameter: a record of the
  results of the calls the code makes, on handles of keys. The signature scheme's
  law, that a signature made with a key verifies under its public key, is the
  predicate \<open>openssl_ok\<close>. Files, PEM and certificates are not modelled.
\<close>

record openssl =
  EVP_PKEY_keygen :: "bytes \<Rightarrow> nat option"
  PEM_read_PrivateKey :: "bytes \<Rightarrow> nat option"
  EVP_PKEY_base_id :: "nat \<Rightarrow> bytes"
  i2d_PUBKEY :: "nat \<Rightarrow> bytes option"
  d2i_PUBKEY :: "bytes \<Rightarrow> nat option"
  EVP_DigestSign :: "nat \<Rightarrow> bytes \<Rightarrow> bytes option"
  EVP_DigestVerify :: "bool \<Rightarrow> nat \<Rightarrow> bytes \<Rightarrow> bytes \<Rightarrow> bool"

definition name_ED25519 :: bytes where "name_ED25519 = [0x45, 0x44, 0x32, 0x35, 0x35, 0x31, 0x39]"
definition name_RSA :: bytes where "name_RSA = [0x52, 0x53, 0x41]"
definition name_EC :: bytes where "name_EC = [0x45, 0x43]"

text \<open>\<open>kp_id\<close> is the identity of the object, which ownership checks compare.\<close>

record poseidon_key_pair =
  kp_id :: nat
  kp_pkey :: nat
  kp_key_type :: bytes

definition poseidon_key_pair_create :: "openssl \<Rightarrow> nat \<Rightarrow> bytes option \<Rightarrow> poseidon_key_pair option" where
  "poseidon_key_pair_create ssl obj key_type =
     (let kt = (case key_type of None \<Rightarrow> name_ED25519 | Some k \<Rightarrow> k)
      in if kt = name_ED25519 \<or> kt = name_RSA \<or> kt = name_EC then
           map_option (\<lambda>pkey. \<lparr>kp_id = obj, kp_pkey = pkey, kp_key_type = kt\<rparr>) (EVP_PKEY_keygen ssl kt)
         else None)"

definition poseidon_key_pair_get_public_key :: "openssl \<Rightarrow> poseidon_key_pair \<Rightarrow> bytes option" where
  "poseidon_key_pair_get_public_key ssl kp =
     (case i2d_PUBKEY ssl (kp_pkey kp) of
        None \<Rightarrow> None
      | Some der \<Rightarrow> if length der = 0 then None else Some der)"

definition poseidon_key_pair_get_key_type :: "poseidon_key_pair \<Rightarrow> bytes" where
  "poseidon_key_pair_get_key_type kp = kp_key_type kp"

definition poseidon_key_pair_load_from_pem :: "openssl \<Rightarrow> nat \<Rightarrow> bytes \<Rightarrow> poseidon_key_pair option" where
  "poseidon_key_pair_load_from_pem ssl obj pem =
     (case PEM_read_PrivateKey ssl pem of
        None \<Rightarrow> None
      | Some pkey \<Rightarrow>
          let type_name = EVP_PKEY_base_id ssl pkey
          in if type_name = name_ED25519 \<or> type_name = name_RSA \<or> type_name = name_EC
             then Some \<lparr>kp_id = obj, kp_pkey = pkey, kp_key_type = type_name\<rparr> else None)"

definition poseidon_key_pair_sign :: "openssl \<Rightarrow> poseidon_key_pair \<Rightarrow> bytes \<Rightarrow> bytes option" where
  "poseidon_key_pair_sign ssl kp data =
     (if EVP_PKEY_base_id ssl (kp_pkey kp) \<noteq> name_ED25519 then None
      else EVP_DigestSign ssl (kp_pkey kp) data)"

definition poseidon_verify_signature :: "bytes \<Rightarrow> bytes \<Rightarrow> bytes \<Rightarrow> int" where
  "poseidon_verify_signature topic_id_str data signature = - 1"

definition poseidon_verify_signature_with_key ::
  "openssl \<Rightarrow> bytes \<Rightarrow> bytes \<Rightarrow> bytes \<Rightarrow> bytes \<Rightarrow> int" where
  "poseidon_verify_signature_with_key ssl key_type public_key data signature =
     (case d2i_PUBKEY ssl public_key of
        None \<Rightarrow> - 1
      | Some pkey \<Rightarrow>
          if key_type = name_ED25519 then (if EVP_DigestVerify ssl False pkey data signature then 0 else - 1)
          else if key_type = name_RSA then (if EVP_DigestVerify ssl True pkey data signature then 0 else - 1)
          else if key_type = name_EC then (if EVP_DigestVerify ssl True pkey data signature then 0 else - 1)
          else - 1)"

text \<open>
  The documented behaviour of OpenSSL for Ed25519: an encoded public key can be
  decoded, and the decoded key accepts the signatures of the private key.
\<close>

definition openssl_ok :: "openssl \<Rightarrow> bool" where
  "openssl_ok ssl \<longleftrightarrow>
     (\<forall>k der. EVP_PKEY_base_id ssl k = name_ED25519 \<longrightarrow> i2d_PUBKEY ssl k = Some der \<longrightarrow>
        (\<exists>p. d2i_PUBKEY ssl der = Some p \<and>
             (\<forall>data sig. EVP_DigestSign ssl k data = Some sig \<longrightarrow> EVP_DigestVerify ssl False p data sig)))"

lemma sign_verify:
  assumes "openssl_ok ssl" "poseidon_key_pair_get_public_key ssl kp = Some der"
    and "poseidon_key_pair_sign ssl kp data = Some sig"
  shows "poseidon_verify_signature_with_key ssl name_ED25519 der data sig = 0"
  using assms by (fastforce simp: openssl_ok_def poseidon_key_pair_get_public_key_def poseidon_key_pair_sign_def
      poseidon_verify_signature_with_key_def split: option.splits if_splits)

end
