(* ===== verification/Bitset.thy ===== *)
theory Bitset
  imports Prelude "HOL-Library.List_Lexorder"
begin

text \<open>
  The growable bit set of \<open>src/Bloom/bitset.c\<close>. \<open>data\<close> and \<open>size\<close> of the C
  struct are one list of bytes, whose length is \<open>size\<close>; the reference count and
  the lock are not part of the value. Indices beyond the stored bytes read as
  clear and are made room for by a write.
\<close>

record bitset =
  bs_data :: bytes

definition bitset_size :: "bitset \<Rightarrow> nat" where
  "bitset_size s = length (bs_data s)"

definition bitset_bit_count :: "bitset \<Rightarrow> nat" where
  "bitset_bit_count s = bitset_size s * 8"

definition bitset_create :: "nat \<Rightarrow> bitset" where
  "bitset_create byte_size = \<lparr>bs_data = replicate byte_size 0\<rparr>"

definition bitset_ensure_capacity :: "bitset \<Rightarrow> nat \<Rightarrow> bitset" where
  "bitset_ensure_capacity s byte_index =
     (if byte_index < bitset_size s then s
      else s\<lparr>bs_data := bs_data s @ replicate (byte_index + 1 - bitset_size s) 0\<rparr>)"

definition bitset_get :: "bitset \<Rightarrow> nat \<Rightarrow> bool" where
  "bitset_get s bit_index =
     (let byte_index = bit_index div 8; bit_offset = bit_index mod 8
      in if byte_index \<ge> bitset_size s then False
         else (bs_data s ! byte_index) AND push_bit bit_offset 1 \<noteq> 0)"

definition bitset_set :: "bitset \<Rightarrow> nat \<Rightarrow> bool \<Rightarrow> bool \<times> bitset" where
  "bitset_set s0 bit_index v =
     (let byte_index = bit_index div 8; bit_offset = bit_index mod 8;
          s = bitset_ensure_capacity s0 byte_index;
          b = bs_data s ! byte_index;
          old = (b AND push_bit bit_offset 1 \<noteq> 0);
          b' = (if v then b OR push_bit bit_offset 1 else b AND NOT (push_bit bit_offset 1))
      in (old, s\<lparr>bs_data := (bs_data s)[byte_index := b']\<rparr>))"

definition bitset_update :: "bitset \<Rightarrow> nat \<Rightarrow> bool \<Rightarrow> bool \<times> bitset" where
  "bitset_update s bit_index v = bitset_set s bit_index v"

text \<open>The loop of \<open>bitset_compare\<close>; the pair is \<open>a_tail\<close>, \<open>b_tail\<close>.\<close>

fun bitset_compare_loop :: "bytes \<Rightarrow> bytes \<Rightarrow> nat \<times> nat \<Rightarrow> nat \<times> nat" where
  "bitset_compare_loop (x # xs) (y # ys) tails =
     (if x \<noteq> y then (unat x, unat y) else bitset_compare_loop xs ys tails)"
| "bitset_compare_loop _ _ tails = tails"

definition bitset_compare :: "bitset \<Rightarrow> bitset \<Rightarrow> int" where
  "bitset_compare a b =
     (let (a_tail, b_tail) = bitset_compare_loop (bs_data a) (bs_data b) (bitset_size a, bitset_size b)
      in if a_tail > b_tail then 1 else if b_tail > a_tail then - 1 else 0)"

definition bitset_eq :: "bitset \<Rightarrow> bitset \<Rightarrow> bool" where
  "bitset_eq a b = (bitset_compare a b = 0)"

definition bitset_bitwise_op :: "bitset \<Rightarrow> bitset \<Rightarrow> (byte \<Rightarrow> byte \<Rightarrow> byte) \<Rightarrow> bitset" where
  "bitset_bitwise_op a b opf =
     (let m = min (bitset_size a) (bitset_size b);
          longer = (if bitset_size a \<ge> bitset_size b then a else b)
      in \<lparr>bs_data = map2 opf (take m (bs_data a)) (take m (bs_data b))
                    @ map (\<lambda>x. opf x 0) (drop m (bs_data longer))\<rparr>)"

definition bitset_xor :: "bitset \<Rightarrow> bitset \<Rightarrow> bitset" where
  "bitset_xor a b = bitset_bitwise_op a b (XOR)"

definition bitset_and :: "bitset \<Rightarrow> bitset \<Rightarrow> bitset" where
  "bitset_and a b = bitset_bitwise_op a b (AND)"

definition bitset_or :: "bitset \<Rightarrow> bitset \<Rightarrow> bitset" where
  "bitset_or a b = bitset_bitwise_op a b (OR)"

definition bitset_not :: "bitset \<Rightarrow> bitset" where
  "bitset_not a = \<lparr>bs_data = map NOT (bs_data a)\<rparr>"

text \<open>The shrinking loop of \<open>bitset_compact\<close> on the reversed bytes: it stops at one byte.\<close>

fun bitset_compact_loop :: "bytes \<Rightarrow> bytes" where
  "bitset_compact_loop (x # y # xs) = (if x = 0 then bitset_compact_loop (y # xs) else x # y # xs)"
| "bitset_compact_loop xs = xs"

definition bitset_compact :: "bitset \<Rightarrow> bitset" where
  "bitset_compact s = s\<lparr>bs_data := rev (bitset_compact_loop (rev (bs_data s)))\<rparr>"

section \<open>Reading and writing bits\<close>

lemma and_power_neq_0 [bits_simps]: "(w::byte) AND 2 ^ n = 0 \<longleftrightarrow> \<not> bit w n"
  by (simp add: bit_iff_and_push_bit_not_eq_0)

lemma bitset_get_iff:
  "bitset_get s i \<longleftrightarrow> i div 8 < bitset_size s \<and> bit (bs_data s ! (i div 8)) (i mod 8)"
  by (simp add: bitset_get_def Let_def and_power_neq_0)

lemma bitset_size_create [simp]: "bitset_size (bitset_create n) = n"
  by (simp add: bitset_create_def bitset_size_def)

lemma bitset_get_create [simp]: "\<not> bitset_get (bitset_create n) i"
  by (simp add: bitset_get_iff) (simp add: bitset_create_def bitset_size_def)

lemma size_ensure_capacity:
  "bitset_size (bitset_ensure_capacity s k) = max (bitset_size s) (k + 1)"
  by (simp add: bitset_ensure_capacity_def bitset_size_def)

lemma get_ensure_capacity: "bitset_get (bitset_ensure_capacity s k) i = bitset_get s i"
  by (auto simp: bitset_get_iff bitset_ensure_capacity_def bitset_size_def nth_append)

lemma div_mod_8_eq_iff: "(i::nat) div 8 = j div 8 \<and> i mod 8 = j mod 8 \<longleftrightarrow> i = j"
  by (metis div_mult_mod_eq)

lemma bit_set_byte:
  assumes "k < 8" "n < 8"
  shows "bit (if v then (b::byte) OR push_bit k 1 else b AND NOT (push_bit k 1)) n
           = (if n = k then v else bit b n)"
  using assms by (auto simp: bit_simps)

lemma bitset_size_set: "bitset_size (snd (bitset_set s i v)) = max (bitset_size s) (i div 8 + 1)"
  by (simp add: bitset_set_def Let_def bitset_size_def)
     (metis bitset_size_def size_ensure_capacity Suc_eq_plus1)

lemma bitset_get_set:
  "bitset_get (snd (bitset_set s i v)) j = (if i = j then v else bitset_get s j)"
proof -
  let ?s = "bitset_ensure_capacity s (i div 8)"
  have len: "i div 8 < bitset_size ?s"
    by (simp add: size_ensure_capacity)
  have "bitset_get (snd (bitset_set s i v)) j
          = (if i = j then v else bitset_get ?s j)"
    using len div_mod_8_eq_iff [of i j]
    by (auto simp: bitset_get_iff bitset_set_def Let_def bitset_size_def nth_list_update
        bit_set_byte simp del: One_nat_def split: if_splits)
  then show ?thesis
    by (simp add: get_ensure_capacity)
qed

lemma bitset_set_old: "fst (bitset_set s i v) = bitset_get s i"
proof -
  have "fst (bitset_set s i v) = bitset_get (bitset_ensure_capacity s (i div 8)) i"
    by (simp add: bitset_set_def Let_def bitset_get_iff and_power_neq_0 size_ensure_capacity
        less_max_iff_disj)
  then show ?thesis
    by (simp add: get_ensure_capacity)
qed

interpretation bits: bit_array bitset_get "\<lambda>s i v. snd (bitset_set s i v)" bitset_create
  by unfold_locales (simp_all add: bitset_get_set)

section \<open>Bitwise operations\<close>

lemma size_bitwise_op:
  "bitset_size (bitset_bitwise_op a b f) = max (bitset_size a) (bitset_size b)"
  by (simp add: bitset_bitwise_op_def bitset_size_def Let_def)

lemma nth_drop_tail: "\<not> i < m \<Longrightarrow> i < length xs \<Longrightarrow> drop m xs ! (i - m) = xs ! i"
  by simp

lemma get_bitwise_op:
  assumes "\<And>x y n. n < 8 \<Longrightarrow> bit (f x y :: byte) n = g (bit x n) (bit y n)"
    and "g False False = False" and "\<And>p q. g p q = g q p"
  shows "bitset_get (bitset_bitwise_op a b f) i = g (bitset_get a i) (bitset_get b i)"
proof -
  let ?j = "i div 8"
  have m: "i mod 8 < 8" by simp
  consider "?j < bitset_size a" "?j < bitset_size b" | "?j < bitset_size a" "\<not> ?j < bitset_size b"
    | "\<not> ?j < bitset_size a" "?j < bitset_size b" | "\<not> ?j < bitset_size a" "\<not> ?j < bitset_size b"
    by blast
  then show ?thesis
  proof cases
    case 2
    then show ?thesis
      by (simp add: bitset_get_iff bitset_bitwise_op_def bitset_size_def Let_def nth_append
          assms(1) [OF m] min_def) (subst nth_drop_tail; simp)
  next
    case 3
    then show ?thesis
      using assms(3) [of False]
      by (simp add: bitset_get_iff bitset_bitwise_op_def bitset_size_def Let_def nth_append
          assms(1) [OF m] min_def) (subst nth_drop_tail; simp)
  qed (simp_all add: bitset_get_iff bitset_bitwise_op_def bitset_size_def Let_def nth_append
      assms(1) [OF m] assms(2) min_def)
qed

lemma size_bitset_or: "bitset_size (bitset_or a b) = max (bitset_size a) (bitset_size b)"
  by (simp add: bitset_or_def size_bitwise_op)

lemma get_bitset_or [bits_simps]: "bitset_get (bitset_or a b) i = (bitset_get a i \<or> bitset_get b i)"
  unfolding bitset_or_def by (rule get_bitwise_op) (auto simp: bit_simps)

lemma get_bitset_and [bits_simps]: "bitset_get (bitset_and a b) i = (bitset_get a i \<and> bitset_get b i)"
  unfolding bitset_and_def by (rule get_bitwise_op) (auto simp: bit_simps)

lemma get_bitset_xor [bits_simps]: "bitset_get (bitset_xor a b) i = (bitset_get a i \<noteq> bitset_get b i)"
  unfolding bitset_xor_def by (rule get_bitwise_op) (auto simp: bit_simps)

lemma get_bitset_not [bits_simps]:
  "bitset_get (bitset_not a) i = (i < bitset_bit_count a \<and> \<not> bitset_get a i)"
  by (auto simp: bitset_get_iff bitset_not_def bitset_size_def bitset_bit_count_def bit_simps)

section \<open>Compaction\<close>

lemma compact_loop_decomp:
  "\<exists>k. xs = replicate k 0 @ bitset_compact_loop xs"
proof (induction xs rule: bitset_compact_loop.induct)
  case (1 x y xs)
  then show ?case
    by (cases "x = 0") (force intro: exI [of _ "Suc _"] exI [of _ 0])+
qed auto

lemma compact_loop_last:
  "length xs > 1 \<Longrightarrow> length (bitset_compact_loop xs) > 1 \<Longrightarrow> hd (bitset_compact_loop xs) \<noteq> 0"
  by (induction xs rule: bitset_compact_loop.induct) (auto split: if_splits, (case_tac xs; simp)+)

lemma bitset_compact_data:
  "\<exists>k. bs_data s = bs_data (bitset_compact s) @ replicate k 0"
  using compact_loop_decomp [of "rev (bs_data s)"]
  by (simp add: bitset_compact_def) (metis rev_append rev_replicate rev_rev_ident)

lemma get_bitset_compact [bits_simps]: "bitset_get (bitset_compact s) i = bitset_get s i"
proof -
  obtain k where "bs_data s = bs_data (bitset_compact s) @ replicate k 0"
    using bitset_compact_data by blast
  then show ?thesis
    by (auto simp: bitset_get_iff bitset_size_def nth_append)
qed

section \<open>Comparison\<close>

lemma compare_loop_lex:
  "(let (m, n) = bitset_compare_loop xs ys (length xs + k, length ys + k)
    in if m > n then 1 else if n > m then - 1 else (0::int)) = cmp_key id xs ys"
proof (induction xs arbitrary: ys k)
  case (Cons x xs)
  note IH = Cons.IH
  show ?case
  proof (cases ys)
    case (Cons y ys')
    then show ?thesis
      using IH [of ys' "Suc k"]
      by (auto simp: cmp_key_def word_less_nat_alt word_unat_eq_iff)
  qed (simp add: cmp_key_def)
qed (case_tac ys; simp add: cmp_key_def)

lemma bitset_compare_lex: "bitset_compare a b = cmp_key bs_data a b"
  using compare_loop_lex [of "bs_data a" "bs_data b" 0]
  by (simp add: bitset_compare_def bitset_size_def cmp_key_def)

interpretation bits_cmp: total_comparator bitset_compare
  by (rule total_comparator_cmp_key [of bs_data]) (auto simp: inj_def bitset_compare_lex)

lemma bitset_eq_iff: "bitset_eq a b \<longleftrightarrow> a = b"
  by (simp add: bitset_eq_def bits_cmp.zero_iff)

end
