(* ===== verification/BloomFilter.thy ===== *)
theory BloomFilter
  imports Bitset
begin

text \<open>
  The plain Bloom filter of \<open>src/Bloom/bloom_filter.c\<close>, and the interface the
  overlay relies on of any membership filter. \<open>XXH3_64bits_withSeed\<close> is the
  parameter \<open>xxh\<close> (data, then seed): every statement holds for every hash
  function. \<open>size = 0\<close> makes the C code divide by zero, so the statements about
  lookups ask for \<open>size > 0\<close>.
\<close>

type_synonym hash_fn = "bytes \<Rightarrow> u64 \<Rightarrow> u64"

section \<open>The contract of a membership filter\<close>

text \<open>
  \<open>holds\<close> is what an insertion establishes and later insertions keep, as long as
  the filter has \<open>room\<close>; it implies a positive lookup. A filter of fixed size
  always has room; the elastic filter has room while its size divides a bound.
\<close>

locale membership_filter =
  fixes ins :: "'d \<Rightarrow> 'f \<Rightarrow> 'f"
    and mem :: "'f \<Rightarrow> 'd \<Rightarrow> bool"
    and holds :: "'f \<Rightarrow> 'd \<Rightarrow> bool"
    and invar :: "'f \<Rightarrow> bool"
    and room :: "'f \<Rightarrow> bool"
  assumes invar_ins: "invar f \<Longrightarrow> invar (ins d f)"
    and room_ins: "invar f \<Longrightarrow> room (ins d f) \<Longrightarrow> room f"
    and holds_ins: "invar f \<Longrightarrow> room (ins d f) \<Longrightarrow> holds (ins d f) d"
    and holds_mono: "invar f \<Longrightarrow> room (ins d f) \<Longrightarrow> holds f e \<Longrightarrow> holds (ins d f) e"
    and holds_mem: "invar f \<Longrightarrow> room f \<Longrightarrow> holds f d \<Longrightarrow> mem f d"
begin

lemma invar_fold: "invar f \<Longrightarrow> invar (fold ins ds f)"
  by (induction ds arbitrary: f) (auto simp: invar_ins)

lemma room_fold: "invar f \<Longrightarrow> room (fold ins ds f) \<Longrightarrow> room f"
  by (induction ds arbitrary: f) (auto intro: room_ins invar_ins)

lemma holds_fold_mono:
  "invar f \<Longrightarrow> room (fold ins ds f) \<Longrightarrow> holds f e \<Longrightarrow> holds (fold ins ds f) e"
  by (induction ds arbitrary: f) (auto intro: holds_mono room_fold invar_ins)

lemma holds_fold:
  "invar f \<Longrightarrow> room (fold ins ds f) \<Longrightarrow> d \<in> set ds \<Longrightarrow> holds (fold ins ds f) d"
  by (induction ds arbitrary: f) (auto intro: holds_fold_mono holds_ins room_fold invar_ins)

lemma no_false_negative:
  "invar f \<Longrightarrow> room (fold ins ds f) \<Longrightarrow> d \<in> set ds \<Longrightarrow> mem (fold ins ds f) d"
  by (rule holds_mem) (auto intro: holds_fold invar_fold)

end

section \<open>The filter\<close>

record bloom_filter =
  bf_bits :: bitset
  bf_size :: nat
  bf_hash_count :: u32
  bf_seed_a :: u64
  bf_seed_b :: u64
  bf_count :: nat

text \<open>\<open>byte_size = size / 8; if (size % 8 > 0) byte_size++\<close>, in both filters.\<close>

definition byte_size_of :: "nat \<Rightarrow> nat" where
  "byte_size_of n = (if n mod 8 > 0 then n div 8 + 1 else n div 8)"

definition bloom_filter_create :: "nat \<Rightarrow> u32 \<Rightarrow> bloom_filter" where
  "bloom_filter_create sz hash_count =
     \<lparr>bf_bits = bitset_create (byte_size_of sz), bf_size = sz, bf_hash_count = hash_count,
      bf_seed_a = 1, bf_seed_b = 2, bf_count = 0\<rparr>"

definition bloom_index :: "hash_fn \<Rightarrow> bloom_filter \<Rightarrow> bytes \<Rightarrow> nat \<Rightarrow> nat" where
  "bloom_index xxh f d i =
     (let a = xxh d (bf_seed_a f); b = xxh d (bf_seed_b f)
      in unat (a + of_nat i * b + of_nat i * of_nat i) mod bf_size f)"

text \<open>The body of the loop of \<open>bloom_filter_add\<close> on \<open>(is_new, bits)\<close>.\<close>

definition bloom_add_step :: "nat \<Rightarrow> bool \<times> bitset \<Rightarrow> bool \<times> bitset" where
  "bloom_add_step index st =
     (let (is_new, bits) = st
      in (is_new \<or> \<not> bitset_get bits index, snd (bitset_set bits index True)))"

definition bloom_filter_add :: "hash_fn \<Rightarrow> bloom_filter \<Rightarrow> bytes option \<Rightarrow> int \<times> bloom_filter" where
  "bloom_filter_add xxh f data =
     (case data of
        None \<Rightarrow> (- 1, f)
      | Some d \<Rightarrow>
          let (is_new, bits) =
                fold (\<lambda>i. bloom_add_step (bloom_index xxh f d i)) [0..<unat (bf_hash_count f)]
                  (False, bf_bits f)
          in (0, f\<lparr>bf_bits := bits, bf_count := (if is_new then bf_count f + 1 else bf_count f)\<rparr>))"

definition bloom_filter_contains :: "hash_fn \<Rightarrow> bloom_filter \<Rightarrow> bytes option \<Rightarrow> bool" where
  "bloom_filter_contains xxh f data =
     (case data of
        None \<Rightarrow> False
      | Some d \<Rightarrow>
          list_all (\<lambda>i. bitset_get (bf_bits f) (bloom_index xxh f d i)) [0..<unat (bf_hash_count f)])"

definition bloom_filter_reset :: "bloom_filter \<Rightarrow> bloom_filter" where
  "bloom_filter_reset f =
     f\<lparr>bf_bits := bitset_create (byte_size_of (bf_size f)), bf_count := 0\<rparr>"

section \<open>Well-formedness and behaviour\<close>

definition bloom_wf :: "bloom_filter \<Rightarrow> bool" where
  "bloom_wf f \<longleftrightarrow> bf_size f > 0 \<and> bitset_size (bf_bits f) = byte_size_of (bf_size f)"

lemma byte_size_of_bound: "i < n \<Longrightarrow> i div 8 < byte_size_of n"
  using div_le_mono [of i n 8] less_mult_imp_div_less [of i "n div 8" 8]
  by (auto simp: byte_size_of_def mod_eq_0_iff_dvd less_Suc_eq_le)

lemma bloom_index_less: "bf_size f > 0 \<Longrightarrow> bloom_index xxh f d i < bf_size f"
  by (simp add: bloom_index_def Let_def)

lemma bloom_wf_create [wf_intros]: "sz > 0 \<Longrightarrow> bloom_wf (bloom_filter_create sz k)"
  by (simp add: bloom_wf_def bloom_filter_create_def)

lemma bloom_wf_reset [wf_intros]: "bloom_wf f \<Longrightarrow> bloom_wf (bloom_filter_reset f)"
  by (simp add: bloom_wf_def bloom_filter_reset_def)

text \<open>The add loop sets the indexed bits, reports whether one of them was clear,
  and never makes the bit set grow.\<close>

lemma bloom_add_loop:
  "fold (\<lambda>i. bloom_add_step (ix i)) is (new, bits) =
     (new \<or> (\<exists>i\<in>set is. \<not> bitset_get bits (ix i)),
      fold (\<lambda>j s. snd (bitset_set s j True)) (map ix is) bits)"
proof (induction "is" arbitrary: new bits)
  case (Cons a "is")
  then show ?case
    by (simp add: bloom_add_step_def bitset_get_set) metis
qed simp

lemma bitset_size_fold_set:
  "(\<And>j. j \<in> set js \<Longrightarrow> j div 8 < bitset_size s)
     \<Longrightarrow> bitset_size (fold (\<lambda>j s. snd (bitset_set s j True)) js s) = bitset_size s"
proof (induction js arbitrary: s)
  case (Cons a js)
  then have "a div 8 < bitset_size s" by simp
  then have "bitset_size (snd (bitset_set s a True)) = bitset_size s"
    by (simp add: bitset_size_set)
  with Cons show ?case by simp
qed simp

lemma bloom_filter_add_Some:
  "bloom_filter_add xxh f (Some d) =
     (0, f\<lparr>bf_bits := fold (\<lambda>j s. snd (bitset_set s j True))
                        (map (bloom_index xxh f d) [0..<unat (bf_hash_count f)]) (bf_bits f),
           bf_count := (if bloom_filter_contains xxh f (Some d) then bf_count f else bf_count f + 1)\<rparr>)"
  by (auto simp: bloom_filter_add_def bloom_add_loop bloom_filter_contains_def list_all_iff)

lemma bloom_filter_add_fields [simp]:
  "bf_size (snd (bloom_filter_add xxh f data)) = bf_size f"
  "bf_hash_count (snd (bloom_filter_add xxh f data)) = bf_hash_count f"
  "bf_seed_a (snd (bloom_filter_add xxh f data)) = bf_seed_a f"
  "bf_seed_b (snd (bloom_filter_add xxh f data)) = bf_seed_b f"
  by (simp_all add: bloom_filter_add_def split: option.split prod.split)

lemma bloom_wf_add [wf_intros]:
  assumes "bloom_wf f"
  shows "bloom_wf (snd (bloom_filter_add xxh f data))"
proof (cases data)
  case (Some d)
  have "bitset_size (fold (\<lambda>j s. snd (bitset_set s j True))
      (map (bloom_index xxh f d) [0..<unat (bf_hash_count f)]) (bf_bits f)) = bitset_size (bf_bits f)"
    using assms by (intro bitset_size_fold_set)
      (auto simp: bloom_wf_def intro!: byte_size_of_bound bloom_index_less)
  with assms Some show ?thesis
    by (simp add: bloom_wf_def bloom_filter_add_Some)
qed (use assms in \<open>simp add: bloom_filter_add_def\<close>)

lemma bloom_index_add [simp]:
  "bloom_index xxh (snd (bloom_filter_add xxh f data)) = bloom_index xxh f"
  by (simp add: bloom_index_def fun_eq_iff)

lemma bloom_get_add:
  "bitset_get (bf_bits (snd (bloom_filter_add xxh f (Some d)))) j
     \<longleftrightarrow> (\<exists>i < unat (bf_hash_count f). j = bloom_index xxh f d i) \<or> bitset_get (bf_bits f) j"
  by (auto simp: bloom_filter_add_Some bits.get_fold_put)

lemma bloom_contains_add_same:
  "bloom_filter_contains xxh (snd (bloom_filter_add xxh f (Some d))) (Some d)"
  by (auto simp: bloom_filter_contains_def list_all_iff bloom_get_add)

lemma bloom_contains_add_mono:
  "bloom_filter_contains xxh f (Some e)
     \<Longrightarrow> bloom_filter_contains xxh (snd (bloom_filter_add xxh f (Some d))) (Some e)"
  by (auto simp: bloom_filter_contains_def list_all_iff bloom_get_add)

interpretation bloom: membership_filter
  "\<lambda>d f. snd (bloom_filter_add xxh f (Some d))"
  "\<lambda>f d. bloom_filter_contains xxh f (Some d)"
  "\<lambda>f d. bloom_filter_contains xxh f (Some d)"
  bloom_wf "\<lambda>_. True" for xxh
  by unfold_locales (auto intro: bloom_wf_add bloom_contains_add_same bloom_contains_add_mono)

lemma bloom_add_present:
  assumes "bloom_filter_contains xxh f (Some d)"
  shows "bf_count (snd (bloom_filter_add xxh f (Some d))) = bf_count f"
  using assms by (simp add: bloom_filter_add_Some)

lemma bloom_reset_empty:
  "bf_hash_count f \<noteq> 0 \<Longrightarrow> \<not> bloom_filter_contains xxh (bloom_filter_reset f) data"
  using unat_gt_0 [of "bf_hash_count f"]
  by (auto simp: bloom_filter_contains_def bloom_filter_reset_def list_all_iff split: option.split)

lemma bloom_create_empty:
  "k \<noteq> 0 \<Longrightarrow> \<not> bloom_filter_contains xxh (bloom_filter_create sz k) data"
  using unat_gt_0 [of k]
  by (auto simp: bloom_filter_contains_def bloom_filter_create_def list_all_iff split: option.split)

end
