(* ===== verification/ElasticBloom.thy ===== *)
theory ElasticBloom
  imports BloomFilter
begin

text \<open>
  The elastic Bloom filter of \<open>src/Bloom/elastic_bloom_filter.c\<close>: one bucket of
  fingerprints per bit, bit \<open>i\<close> set exactly while bucket \<open>i\<close> is not empty, and
  resizing that moves one bit between the index and the fingerprint. A bucket is
  the list of the fingerprints of its linked entries, head first. \<open>omega\<close> is the
  rational value of the \<open>float\<close>. (The CBOR encoding is in \<open>ElasticCodec\<close>.)

  The abstraction \<open>ebf_abs\<close> reads fingerprint \<open>e\<close> of bucket \<open>i\<close> as the number
  \<open>i + size * e\<close>. In these terms expansion and compression do nothing, insertion
  adds the hash values modulo \<open>size * 2 ^ fp_bits\<close>, removal takes those numbers
  out and merging is set union.
\<close>

record elastic_bloom_filter =
  ebf_bits :: bitset
  ebf_size :: nat
  ebf_bucket_count :: nat
  ebf_buckets :: "u32 list list"
  ebf_hash_count :: u32
  ebf_seed_a :: u64
  ebf_seed_b :: u64
  ebf_omega :: rat
  ebf_fp_bits :: u32
  ebf_count :: nat

section \<open>Buckets\<close>

definition bucket_insert :: "u32 list \<Rightarrow> u32 \<Rightarrow> u32 list" where
  "bucket_insert head fp = fp # head"

fun bucket_remove :: "u32 list \<Rightarrow> u32 \<Rightarrow> bool \<times> u32 list" where
  "bucket_remove [] fp = (False, [])"
| "bucket_remove (e # es) fp =
     (if e = fp then (True, es) else let (r, es') = bucket_remove es fp in (r, e # es'))"

fun bucket_contains :: "u32 list \<Rightarrow> u32 \<Rightarrow> bool" where
  "bucket_contains [] fp = False"
| "bucket_contains (e # es) fp = (if e = fp then True else bucket_contains es fp)"

definition bucket_is_empty :: "u32 list \<Rightarrow> bool" where
  "bucket_is_empty head = (head = [])"

section \<open>Operations\<close>

definition compute_hash_pair :: "hash_fn \<Rightarrow> elastic_bloom_filter \<Rightarrow> bytes \<Rightarrow> nat \<Rightarrow> u32 \<times> nat" where
  "compute_hash_pair xxh f d i =
     (let seed = ebf_seed_a f + of_nat i * ebf_seed_b f;
          h = unat (xxh d seed)
      in (of_nat ((h div ebf_size f) mod 2 ^ unat (ebf_fp_bits f)), h mod ebf_size f))"

definition rebuild_bitset :: "elastic_bloom_filter \<Rightarrow> elastic_bloom_filter" where
  "rebuild_bitset f =
     f\<lparr>ebf_bits :=
        fold (\<lambda>i s. if \<not> bucket_is_empty (ebf_buckets f ! i) then snd (bitset_set s i True) else s)
          [0..<ebf_size f] (bitset_create (byte_size_of (ebf_size f)))\<rparr>"

definition elastic_bloom_filter_create :: "nat \<Rightarrow> u32 \<Rightarrow> rat \<Rightarrow> u32 \<Rightarrow> elastic_bloom_filter" where
  "elastic_bloom_filter_create sz hash_count omega fp_bits =
     \<lparr>ebf_bits = bitset_create (byte_size_of sz), ebf_size = sz, ebf_bucket_count = sz,
      ebf_buckets = replicate sz [], ebf_hash_count = hash_count,
      ebf_seed_a = 1, ebf_seed_b = 2, ebf_omega = omega, ebf_fp_bits = fp_bits, ebf_count = 0\<rparr>"

definition elastic_bloom_filter_ratio :: "elastic_bloom_filter \<Rightarrow> rat" where
  "elastic_bloom_filter_ratio f =
     (if ebf_bucket_count f = 0 then 0
      else
        let occupied = length (filter (\<lambda>i. \<not> bucket_is_empty (ebf_buckets f ! i)) [0..<ebf_bucket_count f])
        in float32 (float32 (of_nat occupied) / float32 (of_nat (ebf_bucket_count f))))"

text \<open>The loop of \<open>elastic_bloom_filter_expand\<close> over one bucket, with \<open>stay_head\<close> and \<open>move_head\<close>.\<close>

fun expand_bucket :: "u32 list \<Rightarrow> u32 list \<Rightarrow> u32 list \<Rightarrow> u32 list \<times> u32 list" where
  "expand_bucket [] stay move = (stay, move)"
| "expand_bucket (e # es) stay move =
     (if e AND 1 = 0 then expand_bucket es (drop_bit 1 e # stay) move
      else expand_bucket es stay (drop_bit 1 e # move))"

definition elastic_bloom_filter_expand :: "elastic_bloom_filter \<Rightarrow> int \<times> elastic_bloom_filter" where
  "elastic_bloom_filter_expand f =
     (let old_bucket_count = ebf_bucket_count f;
          parts = map (\<lambda>i. expand_bucket (ebf_buckets f ! i) [] []) [0..<old_bucket_count]
      in (0, rebuild_bitset
               (f\<lparr>ebf_buckets := map fst parts @ map snd parts,
                  ebf_bucket_count := old_bucket_count * 2,
                  ebf_size := ebf_size f * 2\<rparr>)))"

text \<open>The two loops of \<open>elastic_bloom_filter_compress\<close> push the entries, with the given low bit, on \<open>merged\<close>.\<close>

fun compress_bucket :: "u32 \<Rightarrow> u32 list \<Rightarrow> u32 list \<Rightarrow> u32 list" where
  "compress_bucket b [] merged = merged"
| "compress_bucket b (e # es) merged = compress_bucket b es ((push_bit 1 e OR b) # merged)"

definition elastic_bloom_filter_compress :: "elastic_bloom_filter \<Rightarrow> int \<times> elastic_bloom_filter" where
  "elastic_bloom_filter_compress f =
     (if ebf_bucket_count f < 2 then (- 1, f)
      else
        let new_bucket_count = ebf_bucket_count f div 2
        in (0, rebuild_bitset
                 (f\<lparr>ebf_buckets :=
                      map (\<lambda>i. compress_bucket 0 (ebf_buckets f ! i)
                                 (compress_bucket 1 (ebf_buckets f ! (i + new_bucket_count)) []))
                        [0..<new_bucket_count],
                    ebf_bucket_count := new_bucket_count,
                    ebf_size := ebf_size f div 2\<rparr>)))"

text \<open>One round of the loop of \<open>elastic_bloom_filter_add\<close>.\<close>

definition elastic_add_step :: "u32 \<times> nat \<Rightarrow> elastic_bloom_filter \<Rightarrow> elastic_bloom_filter" where
  "elastic_add_step hp f =
     (let (fp, index) = hp; b = ebf_buckets f ! index
      in f\<lparr>ebf_bits := snd (bitset_set (ebf_bits f) index True),
           ebf_buckets := (if bucket_contains b fp then ebf_buckets f
                           else (ebf_buckets f)[index := bucket_insert b fp])\<rparr>)"

definition elastic_bloom_filter_add ::
  "hash_fn \<Rightarrow> elastic_bloom_filter \<Rightarrow> bytes option \<Rightarrow> int \<times> elastic_bloom_filter" where
  "elastic_bloom_filter_add xxh f data =
     (case data of
        None \<Rightarrow> (- 1, f)
      | Some d \<Rightarrow>
          let f1 = fold (\<lambda>i. elastic_add_step (compute_hash_pair xxh f d i))
                     [0..<unat (ebf_hash_count f)] f;
              f2 = f1\<lparr>ebf_count := ebf_count f1 + 1\<rparr>;
              ratio = elastic_bloom_filter_ratio f2
          in (0, if ratio > ebf_omega f2 then snd (elastic_bloom_filter_expand f2) else f2))"

definition elastic_bloom_filter_contains :: "hash_fn \<Rightarrow> elastic_bloom_filter \<Rightarrow> bytes option \<Rightarrow> bool" where
  "elastic_bloom_filter_contains xxh f data =
     (case data of
        None \<Rightarrow> False
      | Some d \<Rightarrow>
          list_all (\<lambda>i. bitset_get (ebf_bits f) (snd (compute_hash_pair xxh f d i)))
            [0..<unat (ebf_hash_count f)])"

text \<open>One round of the loop of \<open>elastic_bloom_filter_remove\<close>.\<close>

definition elastic_remove_step :: "u32 \<times> nat \<Rightarrow> elastic_bloom_filter \<Rightarrow> elastic_bloom_filter" where
  "elastic_remove_step hp f =
     (let (fp, index) = hp; b = snd (bucket_remove (ebf_buckets f ! index) fp)
      in f\<lparr>ebf_buckets := (ebf_buckets f)[index := b],
           ebf_bits := (if bucket_is_empty b then snd (bitset_set (ebf_bits f) index False)
                        else ebf_bits f)\<rparr>)"

definition elastic_bloom_filter_remove ::
  "hash_fn \<Rightarrow> elastic_bloom_filter \<Rightarrow> bytes option \<Rightarrow> int \<times> elastic_bloom_filter" where
  "elastic_bloom_filter_remove xxh f data =
     (case data of
        None \<Rightarrow> (- 1, f)
      | Some d \<Rightarrow>
          let f1 = fold (\<lambda>i. elastic_remove_step (compute_hash_pair xxh f d i))
                     [0..<unat (ebf_hash_count f)] f;
              f2 = (if ebf_count f1 > 0 then f1\<lparr>ebf_count := ebf_count f1 - 1\<rparr> else f1);
              ratio = elastic_bloom_filter_ratio f2
          in (0, if ratio < ebf_omega f2 / 4 then snd (elastic_bloom_filter_compress f2) else f2))"

text \<open>The inner loop of \<open>elastic_bloom_filter_merge\<close>: insert the entries that are not there.\<close>

fun merge_bucket :: "u32 list \<Rightarrow> u32 list \<Rightarrow> u32 list" where
  "merge_bucket [] dst = dst"
| "merge_bucket (e # es) dst =
     merge_bucket es (if \<not> bucket_contains dst e then bucket_insert dst e else dst)"

definition elastic_bloom_filter_merge ::
  "elastic_bloom_filter \<Rightarrow> elastic_bloom_filter \<Rightarrow> int \<times> elastic_bloom_filter" where
  "elastic_bloom_filter_merge dst src =
     (if ebf_size dst \<noteq> ebf_size src \<or> ebf_bucket_count dst \<noteq> ebf_bucket_count src then (- 2, dst)
      else
        (0, dst\<lparr>ebf_bits := bitset_or (ebf_bits dst) (ebf_bits src),
                ebf_buckets :=
                  map (\<lambda>i. merge_bucket (ebf_buckets src ! i) (ebf_buckets dst ! i))
                    [0..<ebf_bucket_count dst],
                ebf_count := ebf_count dst + ebf_count src\<rparr>))"

text \<open>The callbacks of \<open>elastic_bloom_filter_iterate\<close>, in order.\<close>

definition elastic_bloom_filter_iterate :: "elastic_bloom_filter \<Rightarrow> (nat \<times> u32) list" where
  "elastic_bloom_filter_iterate f =
     concat (map (\<lambda>i. map (\<lambda>e. (i, e)) (ebf_buckets f ! i)) [0..<ebf_bucket_count f])"

definition elastic_bloom_filter_bucket_insert ::
  "elastic_bloom_filter \<Rightarrow> nat \<Rightarrow> u32 \<Rightarrow> int \<times> elastic_bloom_filter" where
  "elastic_bloom_filter_bucket_insert f bucket_idx fingerprint =
     (if bucket_idx \<ge> ebf_bucket_count f then (- 1, f)
      else (0, elastic_add_step (fingerprint, bucket_idx) f))"

definition elastic_bloom_filter_get_bitset :: "elastic_bloom_filter \<Rightarrow> bytes \<times> nat" where
  "elastic_bloom_filter_get_bitset f = (bs_data (ebf_bits f), bitset_size (ebf_bits f))"

definition elastic_bloom_filter_set_bitset ::
  "elastic_bloom_filter \<Rightarrow> bytes option \<Rightarrow> int \<times> elastic_bloom_filter" where
  "elastic_bloom_filter_set_bitset f data =
     (case data of
        None \<Rightarrow> (- 1, f)
      | Some d \<Rightarrow>
          if length d \<noteq> bitset_size (ebf_bits f) then (- 1, f)
          else (0, f\<lparr>ebf_bits := (ebf_bits f)\<lparr>bs_data := d\<rparr>\<rparr>))"

section \<open>Fingerprint arithmetic\<close>

lemma even_unat: "even (unat (w::u32)) \<longleftrightarrow> w AND 1 = 0"
  by (simp add: and_one_eq word_unat_eq_iff unat_mod even_iff_mod_2_eq_zero)

lemma unat_drop_bit_1: "unat (drop_bit 1 (w::u32)) = unat w div 2"
  by (simp add: drop_bit_eq_div unat_div)

lemma unat_push_bit_0: "unat (w::u32) < 2 ^ 31 \<Longrightarrow> unat (push_bit 1 w OR 0) = 2 * unat w"
  by (simp add: push_bit_eq_mult unat_word_ariths)

lemma unat_push_bit_1: "unat (w::u32) < 2 ^ 31 \<Longrightarrow> unat (push_bit 1 w OR 1) = 2 * unat w + 1"
  by (simp add: push_bit_eq_mult or_one_eq unat_word_ariths)

lemma unat_of_nat_fp: "x < 2 ^ b \<Longrightarrow> b \<le> 32 \<Longrightarrow> unat (of_nat x :: u32) = x"
  using power_increasing [of b 32 "2::nat"] by (simp add: unat_of_nat)

section \<open>Bucket lemmas\<close>

lemma bucket_contains_iff [simp]: "bucket_contains b e \<longleftrightarrow> e \<in> set b"
  by (induction b) auto

lemma bucket_remove_remove1: "snd (bucket_remove b e) = remove1 e b"
  by (induction b) (auto split: prod.split)

lemma bucket_is_empty_iff [simp]: "bucket_is_empty b \<longleftrightarrow> b = []"
  by (simp add: bucket_is_empty_def)

lemma expand_bucket_eq:
  "expand_bucket es stay move =
     (rev (map (drop_bit 1) (filter (\<lambda>e. e AND 1 = 0) es)) @ stay,
      rev (map (drop_bit 1) (filter (\<lambda>e. e AND 1 \<noteq> 0) es)) @ move)"
  by (induction es arbitrary: stay move) auto

lemma compress_bucket_eq:
  "compress_bucket b es merged = rev (map (\<lambda>e. push_bit 1 e OR b) es) @ merged"
  by (induction es arbitrary: merged) auto

lemma set_merge_bucket: "set (merge_bucket es dst) = set es \<union> set dst"
  by (induction es arbitrary: dst) (auto simp: bucket_insert_def)

lemma merge_bucket_Nil [simp]: "merge_bucket es dst = [] \<longleftrightarrow> es = [] \<and> dst = []"
  using set_merge_bucket [of es dst] by (metis Un_empty set_empty)

lemma distinct_merge_bucket: "distinct dst \<Longrightarrow> distinct (merge_bucket es dst)"
  by (induction es arbitrary: dst) (auto simp: bucket_insert_def)

lemma expand_stay_iff:
  "n \<in> unat ` set (fst (expand_bucket es [] [])) \<longleftrightarrow> 2 * n \<in> unat ` set es"
proof
  assume "n \<in> unat ` set (fst (expand_bucket es [] []))"
  then obtain e where "e \<in> set es" "e AND 1 = 0" "n = unat e div 2"
    by (auto simp: expand_bucket_eq unat_drop_bit_1 simp del: One_nat_def)
  then show "2 * n \<in> unat ` set es"
    by (auto simp: even_unat [symmetric])
next
  assume "2 * n \<in> unat ` set es"
  then obtain e where "e \<in> set es" "unat e = 2 * n" by auto
  then show "n \<in> unat ` set (fst (expand_bucket es [] []))"
    by (auto simp: expand_bucket_eq image_image unat_drop_bit_1 even_unat [symmetric]
        simp del: One_nat_def intro!: image_eqI [of _ _ e])
qed

lemma expand_move_iff:
  "n \<in> unat ` set (snd (expand_bucket es [] [])) \<longleftrightarrow> 2 * n + 1 \<in> unat ` set es"
proof
  assume "n \<in> unat ` set (snd (expand_bucket es [] []))"
  then obtain e where "e \<in> set es" "e AND 1 \<noteq> 0" "n = unat e div 2"
    by (auto simp: expand_bucket_eq unat_drop_bit_1 simp del: One_nat_def)
  then show "2 * n + 1 \<in> unat ` set es"
    by (auto simp: even_unat [symmetric])
next
  assume "2 * n + 1 \<in> unat ` set es"
  then obtain e where "e \<in> set es" "unat e = 2 * n + 1" by auto
  then show "n \<in> unat ` set (snd (expand_bucket es [] []))"
    by (auto simp: expand_bucket_eq image_image unat_drop_bit_1 even_unat [symmetric]
        simp del: One_nat_def intro!: image_eqI [of _ _ e])
qed

lemma inj_drop_bit_parity:
  "(\<And>e. e \<in> S \<Longrightarrow> ((e::u32) AND 1 = 0) = p) \<Longrightarrow> inj_on (drop_bit 1) S"
proof (rule inj_onI)
  fix x y :: u32
  assume p: "\<And>e. e \<in> S \<Longrightarrow> (e AND 1 = 0) = p" and S: "x \<in> S" "y \<in> S"
    and eq: "drop_bit 1 x = drop_bit 1 y"
  have "unat x div 2 = unat y div 2"
    using arg_cong [OF eq, of unat] by (simp only: unat_drop_bit_1)
  moreover have "even (unat x) = even (unat y)"
    using p [OF S(1)] p [OF S(2)] by (simp add: even_unat)
  ultimately have "unat x = unat y"
    by (metis bit_eq_rec)
  then show "x = y" by (simp add: word_unat_eq_iff)
qed

lemma distinct_expand_bucket:
  "distinct es \<Longrightarrow> distinct (fst (expand_bucket es [] [])) \<and> distinct (snd (expand_bucket es [] []))"
  using inj_drop_bit_parity [of "{x \<in> set es. x AND 1 = 0}" True]
    inj_drop_bit_parity [of "{x \<in> set es. x AND 1 \<noteq> 0}" False]
  by (simp add: expand_bucket_eq distinct_map)

lemma compress_iff:
  assumes "\<forall>e\<in>set es. unat e < 2 ^ 31" "\<forall>e\<in>set es'. unat e < 2 ^ 31"
  shows "n \<in> unat ` set (compress_bucket 0 es (compress_bucket 1 es' []))
    \<longleftrightarrow> (if even n then n div 2 \<in> unat ` set es else n div 2 \<in> unat ` set es')"
proof -
  have "unat ` set (compress_bucket 0 es (compress_bucket 1 es' []))
          = (\<lambda>e. unat (push_bit 1 e OR 0)) ` set es \<union> (\<lambda>e. unat (push_bit 1 e OR 1)) ` set es'"
    by (simp add: compress_bucket_eq image_Un image_image)
  also have "\<dots> = (\<lambda>e. 2 * unat e) ` set es \<union> (\<lambda>e. 2 * unat e + 1) ` set es'"
    using assms by (intro arg_cong2 [of _ _ _ _ "(\<union>)"] image_cong refl)
      (simp_all only: unat_push_bit_0 unat_push_bit_1)
  finally show ?thesis
    by (auto elim!: evenE oddE; presburger)
qed

section \<open>Abstraction and invariant\<close>

definition ebf_abs :: "elastic_bloom_filter \<Rightarrow> nat set" where
  "ebf_abs f = {n. n div ebf_size f \<in> unat ` set (ebf_buckets f ! (n mod ebf_size f))}"

definition ebf_wf :: "elastic_bloom_filter \<Rightarrow> bool" where
  "ebf_wf f \<longleftrightarrow>
     ebf_size f > 0 \<and> ebf_bucket_count f = ebf_size f \<and> length (ebf_buckets f) = ebf_size f
     \<and> bitset_size (ebf_bits f) = byte_size_of (ebf_size f)
     \<and> (\<forall>i. bitset_get (ebf_bits f) i \<longleftrightarrow> i < ebf_size f \<and> ebf_buckets f ! i \<noteq> [])
     \<and> (\<forall>i < ebf_size f. distinct (ebf_buckets f ! i))
     \<and> ebf_fp_bits f \<le> 32"

text \<open>The number an insertion of \<open>d\<close> stores for hash \<open>i\<close>.\<close>

definition ebf_hash :: "hash_fn \<Rightarrow> elastic_bloom_filter \<Rightarrow> bytes \<Rightarrow> nat \<Rightarrow> nat" where
  "ebf_hash xxh f d i = unat (xxh d (ebf_seed_a f + of_nat i * ebf_seed_b f))"

definition ebf_key :: "hash_fn \<Rightarrow> elastic_bloom_filter \<Rightarrow> bytes \<Rightarrow> nat \<Rightarrow> nat" where
  "ebf_key xxh f d i = ebf_hash xxh f d i mod (ebf_size f * 2 ^ unat (ebf_fp_bits f))"

lemma ebf_wfD:
  assumes "ebf_wf f"
  shows "ebf_size f > 0" "ebf_bucket_count f = ebf_size f" "length (ebf_buckets f) = ebf_size f"
    "bitset_size (ebf_bits f) = byte_size_of (ebf_size f)"
    "bitset_get (ebf_bits f) i \<longleftrightarrow> i < ebf_size f \<and> ebf_buckets f ! i \<noteq> []"
    "i < ebf_size f \<Longrightarrow> distinct (ebf_buckets f ! i)" "unat (ebf_fp_bits f) \<le> 32"
  using assms by (auto simp: ebf_wf_def word_le_nat_alt)

lemma ebf_absI:
  "e \<in> set (ebf_buckets f ! i) \<Longrightarrow> i < ebf_size f \<Longrightarrow> i + ebf_size f * unat e \<in> ebf_abs f"
  by (simp add: ebf_abs_def)

lemma ebf_abs_bucket_nonempty:
  assumes "i < ebf_size f"
  shows "ebf_buckets f ! i \<noteq> [] \<longleftrightarrow> (\<exists>n\<in>ebf_abs f. n mod ebf_size f = i)"
proof
  assume "ebf_buckets f ! i \<noteq> []"
  then obtain e where "e \<in> set (ebf_buckets f ! i)" by (cases "ebf_buckets f ! i") auto
  then have "i + ebf_size f * unat e \<in> ebf_abs f" using assms by (rule ebf_absI)
  then show "\<exists>n\<in>ebf_abs f. n mod ebf_size f = i" using assms by force
qed (auto simp: ebf_abs_def)

lemma byte_size_bits_rebuild:
  assumes "n \<le> m"
  shows "bitset_size (fold (\<lambda>i s. if P i then snd (bitset_set s i True) else s) [0..<n]
           (bitset_create (byte_size_of m))) = byte_size_of m"
  using assms
proof (induction n)
  case (Suc n)
  then show ?case
    using byte_size_of_bound [of n m] by (simp add: bitset_size_set)
qed simp

lemma rebuild_bitset_fields [simp]:
  "ebf_size (rebuild_bitset f) = ebf_size f" "ebf_buckets (rebuild_bitset f) = ebf_buckets f"
  "ebf_bucket_count (rebuild_bitset f) = ebf_bucket_count f"
  "ebf_hash_count (rebuild_bitset f) = ebf_hash_count f"
  "ebf_seed_a (rebuild_bitset f) = ebf_seed_a f" "ebf_seed_b (rebuild_bitset f) = ebf_seed_b f"
  "ebf_fp_bits (rebuild_bitset f) = ebf_fp_bits f" "ebf_omega (rebuild_bitset f) = ebf_omega f"
  "ebf_count (rebuild_bitset f) = ebf_count f"
  "bitset_size (ebf_bits (rebuild_bitset f)) = byte_size_of (ebf_size f)"
  by (simp_all add: rebuild_bitset_def byte_size_bits_rebuild)

lemma rebuild_bitset_get [simp]:
  "bitset_get (ebf_bits (rebuild_bitset f)) i \<longleftrightarrow> i < ebf_size f \<and> ebf_buckets f ! i \<noteq> []"
  by (simp add: rebuild_bitset_def bits.get_rebuild)

lemma ebf_abs_rebuild [simp]: "ebf_abs (rebuild_bitset f) = ebf_abs f"
  by (simp add: ebf_abs_def)

lemma ebf_abs_count [simp]: "ebf_abs (f\<lparr>ebf_count := c\<rparr>) = ebf_abs f"
  by (simp add: ebf_abs_def)

lemma ebf_wf_count [simp]: "ebf_wf (f\<lparr>ebf_count := c\<rparr>) = ebf_wf f"
  by (simp add: ebf_wf_def)

lemma create_fields [simp]:
  "ebf_size (elastic_bloom_filter_create sz k w b) = sz"
  "ebf_bucket_count (elastic_bloom_filter_create sz k w b) = sz"
  "ebf_hash_count (elastic_bloom_filter_create sz k w b) = k"
  "ebf_fp_bits (elastic_bloom_filter_create sz k w b) = b"
  "ebf_omega (elastic_bloom_filter_create sz k w b) = w"
  by (simp_all add: elastic_bloom_filter_create_def)

lemma ebf_wf_create [wf_intros]:
  "sz > 0 \<Longrightarrow> b \<le> 32 \<Longrightarrow> ebf_wf (elastic_bloom_filter_create sz k w b)"
  by (simp add: ebf_wf_def elastic_bloom_filter_create_def)

lemma ebf_abs_create: "sz > 0 \<Longrightarrow> ebf_abs (elastic_bloom_filter_create sz k w b) = {}"
  by (simp add: ebf_abs_def elastic_bloom_filter_create_def)

lemma compute_hash_pair_key:
  assumes "ebf_wf f" "compute_hash_pair xxh f d i = (fp, index)"
  shows "index = ebf_hash xxh f d i mod ebf_size f" "index < ebf_size f"
    "ebf_key xxh f d i mod ebf_size f = index" "ebf_key xxh f d i div ebf_size f = unat fp"
proof -
  note wf = ebf_wfD [OF assms(1)]
  show "index = ebf_hash xxh f d i mod ebf_size f" "index < ebf_size f"
    using assms(2) wf(1) by (auto simp: compute_hash_pair_def Let_def ebf_hash_def)
  then show "ebf_key xxh f d i mod ebf_size f = index" "ebf_key xxh f d i div ebf_size f = unat fp"
    using assms(2) wf(1, 7)
    by (auto simp: compute_hash_pair_def Let_def ebf_hash_def ebf_key_def mod_mult2_eq
        unat_of_nat_fp [of _ "unat (ebf_fp_bits f)"])
qed

section \<open>Expansion\<close>

lemma mod_double: "(n::nat) mod (s * 2) = n mod s + (if even (n div s) then 0 else s)"
  by (simp add: mod_mult2_eq even_iff_mod_2_eq_zero parity_cases)

lemma mod_double_cancel: "(a::nat) mod (s * 2) = b mod (s * 2) \<Longrightarrow> a mod s = b mod s"
  using mod_mod_cancel [of s "s * 2" a] mod_mod_cancel [of s "s * 2" b] by simp

lemma expand_fields [simp]:
  "ebf_size (snd (elastic_bloom_filter_expand f)) = ebf_size f * 2"
  "ebf_bucket_count (snd (elastic_bloom_filter_expand f)) = ebf_bucket_count f * 2"
  "ebf_hash_count (snd (elastic_bloom_filter_expand f)) = ebf_hash_count f"
  "ebf_seed_a (snd (elastic_bloom_filter_expand f)) = ebf_seed_a f"
  "ebf_seed_b (snd (elastic_bloom_filter_expand f)) = ebf_seed_b f"
  "ebf_fp_bits (snd (elastic_bloom_filter_expand f)) = ebf_fp_bits f"
  "ebf_omega (snd (elastic_bloom_filter_expand f)) = ebf_omega f"
  "ebf_count (snd (elastic_bloom_filter_expand f)) = ebf_count f"
  by (simp_all add: elastic_bloom_filter_expand_def Let_def)

lemma expand_bucket_nth:
  assumes "ebf_bucket_count f = s" "i < s"
  shows "ebf_buckets (snd (elastic_bloom_filter_expand f)) ! i = fst (expand_bucket (ebf_buckets f ! i) [] [])"
    "ebf_buckets (snd (elastic_bloom_filter_expand f)) ! (i + s) = snd (expand_bucket (ebf_buckets f ! i) [] [])"
  using assms by (simp_all add: elastic_bloom_filter_expand_def Let_def nth_append)

lemma expand_abs:
  assumes "ebf_wf f"
  shows "ebf_abs (snd (elastic_bloom_filter_expand f)) = ebf_abs f"
proof -
  note wf = ebf_wfD [OF assms]
  have "n \<in> ebf_abs (snd (elastic_bloom_filter_expand f)) \<longleftrightarrow> n \<in> ebf_abs f" for n
  proof -
    have m: "n mod ebf_size f < ebf_size f" using wf(1) by simp
    show ?thesis
      using wf(2) m expand_bucket_nth [OF wf(2) m]
      by (auto simp: ebf_abs_def mod_double div_mult2_eq expand_stay_iff expand_move_iff
          simp del: Suc_eq_plus1 elim!: evenE oddE)
  qed
  then show ?thesis by blast
qed

lemma expand_wf [wf_intros]:
  assumes "ebf_wf f"
  shows "ebf_wf (snd (elastic_bloom_filter_expand f))"
proof -
  note wf = ebf_wfD [OF assms]
  have "distinct (ebf_buckets (snd (elastic_bloom_filter_expand f)) ! i)" if "i < ebf_size f * 2" for i
    using that expand_bucket_nth [OF wf(2), of i] expand_bucket_nth [OF wf(2), of "i - ebf_size f"]
      distinct_expand_bucket [OF wf(6), of i] distinct_expand_bucket [OF wf(6), of "i - ebf_size f"]
    by (cases "i < ebf_size f") auto
  then show ?thesis
    using wf by (simp add: ebf_wf_def word_le_nat_alt) (simp add: elastic_bloom_filter_expand_def Let_def)
qed

section \<open>Compression\<close>

lemma compress_fields:
  assumes "2 \<le> ebf_bucket_count f"
  shows "ebf_size (snd (elastic_bloom_filter_compress f)) = ebf_size f div 2"
    "ebf_bucket_count (snd (elastic_bloom_filter_compress f)) = ebf_bucket_count f div 2"
    "length (ebf_buckets (snd (elastic_bloom_filter_compress f))) = ebf_bucket_count f div 2"
    "bitset_size (ebf_bits (snd (elastic_bloom_filter_compress f))) = byte_size_of (ebf_size f div 2)"
    "ebf_fp_bits (snd (elastic_bloom_filter_compress f)) = ebf_fp_bits f"
  using assms by (simp_all add: elastic_bloom_filter_compress_def Let_def)

lemma compress_bucket_nth:
  assumes "2 \<le> ebf_bucket_count f" "i < ebf_bucket_count f div 2"
  shows "ebf_buckets (snd (elastic_bloom_filter_compress f)) ! i =
    compress_bucket 0 (ebf_buckets f ! i)
      (compress_bucket 1 (ebf_buckets f ! (i + ebf_bucket_count f div 2)) [])"
  using assms by (simp add: elastic_bloom_filter_compress_def Let_def)

text \<open>No fingerprint uses the top bit, so shifting loses nothing.\<close>

definition ebf_fp_room :: "elastic_bloom_filter \<Rightarrow> bool" where
  "ebf_fp_room f \<longleftrightarrow> (\<forall>i < ebf_size f. \<forall>e \<in> set (ebf_buckets f ! i). e < 0x80000000)"

lemma ebf_fp_room_iff:
  "ebf_fp_room f \<longleftrightarrow> (\<forall>i < ebf_size f. \<forall>e \<in> set (ebf_buckets f ! i). unat e < 2 ^ 31)"
  by (simp add: ebf_fp_room_def word_less_nat_alt)

lemma compress_abs:
  assumes "ebf_wf f" "ebf_fp_room f" "even (ebf_size f)"
  shows "ebf_abs (snd (elastic_bloom_filter_compress f)) = ebf_abs f"
proof -
  note wf = ebf_wfD [OF assms(1)]
  define t where "t = ebf_size f div 2"
  have s: "ebf_size f = t * 2" "t > 0" using assms(3) wf(1) by (auto simp: t_def)
  have two: "2 \<le> ebf_bucket_count f" using wf(2) s by simp
  have "n \<in> ebf_abs (snd (elastic_bloom_filter_compress f)) \<longleftrightarrow> n \<in> ebf_abs f" for n
  proof -
    have m: "n mod t < t" using s(2) by simp
    have lt: "n mod t < ebf_size f" "n mod t + t < ebf_size f" using m s(1) by auto
    have "\<forall>e\<in>set (ebf_buckets f ! (n mod t)). unat e < 2 ^ 31"
      "\<forall>e\<in>set (ebf_buckets f ! (n mod t + t)). unat e < 2 ^ 31"
      using assms(2) lt unfolding ebf_fp_room_iff by blast+
    note iff = compress_iff [OF this, of "n div t"]
    have "ebf_buckets (snd (elastic_bloom_filter_compress f)) ! (n mod t) =
        compress_bucket 0 (ebf_buckets f ! (n mod t)) (compress_bucket 1 (ebf_buckets f ! (n mod t + t)) [])"
      using compress_bucket_nth [OF two, of "n mod t"] m wf(2) s(1) by simp
    then show ?thesis
      using iff compress_fields(1) [OF two] s
      by (simp add: ebf_abs_def mod_double div_mult2_eq)
  qed
  then show ?thesis by blast
qed

section \<open>Insertion\<close>

lemma add_step_fields [simp]:
  "ebf_size (elastic_add_step hp f) = ebf_size f"
  "ebf_bucket_count (elastic_add_step hp f) = ebf_bucket_count f"
  "ebf_hash_count (elastic_add_step hp f) = ebf_hash_count f"
  "ebf_seed_a (elastic_add_step hp f) = ebf_seed_a f"
  "ebf_seed_b (elastic_add_step hp f) = ebf_seed_b f"
  "ebf_fp_bits (elastic_add_step hp f) = ebf_fp_bits f"
  "ebf_omega (elastic_add_step hp f) = ebf_omega f"
  "ebf_count (elastic_add_step hp f) = ebf_count f"
  by (simp_all add: elastic_add_step_def Let_def split: prod.split)

lemma add_step_wf [wf_intros]:
  assumes "ebf_wf f" "index < ebf_size f"
  shows "ebf_wf (elastic_add_step (fp, index) f)"
proof -
  note wf = ebf_wfD [OF assms(1)]
  have "bitset_size (snd (bitset_set (ebf_bits f) index True)) = bitset_size (ebf_bits f)"
    using byte_size_of_bound [OF assms(2)] wf(4) by (simp add: bitset_size_set)
  with assms wf show ?thesis
    by (auto simp: ebf_wf_def elastic_add_step_def Let_def bitset_get_set bucket_insert_def
        nth_list_update)
qed

lemma div_mod_pair_iff:
  "index < s \<Longrightarrow> n mod s = index \<and> n div s = q \<longleftrightarrow> n = index + s * (q::nat)"
  by (metis add.commute add.left_neutral bot_nat_0.extremum_strict div_less div_mult_mod_eq
      div_mult_self2 mod_less mod_mult_self2 mult.commute)

lemma add_step_abs:
  assumes "ebf_wf f" "index < ebf_size f"
  shows "ebf_abs (elastic_add_step (fp, index) f) = insert (index + ebf_size f * unat fp) (ebf_abs f)"
proof -
  note wf = ebf_wfD [OF assms(1)]
  have "n \<in> ebf_abs (elastic_add_step (fp, index) f)
      \<longleftrightarrow> n \<in> ebf_abs f \<or> (n mod ebf_size f = index \<and> n div ebf_size f = unat fp)" for n
    using assms(2) wf(1, 3)
    by (auto simp: ebf_abs_def elastic_add_step_def Let_def bucket_insert_def nth_list_update)
  then show ?thesis using div_mod_pair_iff [OF assms(2)] by blast
qed

lemma add_fold:
  assumes "ebf_wf f" "\<And>i. i \<in> set is \<Longrightarrow> snd (hp i) < ebf_size f"
  shows "ebf_wf (fold (\<lambda>i. elastic_add_step (hp i)) is f)
    \<and> ebf_abs (fold (\<lambda>i. elastic_add_step (hp i)) is f)
        = ebf_abs f \<union> (\<lambda>i. snd (hp i) + ebf_size f * unat (fst (hp i))) ` set is
    \<and> ebf_size (fold (\<lambda>i. elastic_add_step (hp i)) is f) = ebf_size f"
  using assms
proof (induction "is" arbitrary: f)
  case (Cons a "is")
  obtain fp index where hp: "hp a = (fp, index)" by fastforce
  have "index < ebf_size f" using Cons.prems(2) [of a] hp by simp
  then show ?case
    using Cons.IH [of "elastic_add_step (fp, index) f"] Cons.prems
    by (auto simp: hp add_step_wf add_step_abs)
qed simp

lemma add_fold_fields:
  "ebf_hash_count (fold (\<lambda>i. elastic_add_step (hp i)) is f) = ebf_hash_count f
   \<and> ebf_seed_a (fold (\<lambda>i. elastic_add_step (hp i)) is f) = ebf_seed_a f
   \<and> ebf_seed_b (fold (\<lambda>i. elastic_add_step (hp i)) is f) = ebf_seed_b f
   \<and> ebf_fp_bits (fold (\<lambda>i. elastic_add_step (hp i)) is f) = ebf_fp_bits f
   \<and> ebf_omega (fold (\<lambda>i. elastic_add_step (hp i)) is f) = ebf_omega f
   \<and> ebf_count (fold (\<lambda>i. elastic_add_step (hp i)) is f) = ebf_count f"
  by (induction "is" arbitrary: f) auto

lemma key_decomp:
  assumes "ebf_wf f"
  shows "snd (compute_hash_pair xxh f d i) + ebf_size f * unat (fst (compute_hash_pair xxh f d i))
    = ebf_key xxh f d i"
proof -
  obtain fp index where hp: "compute_hash_pair xxh f d i = (fp, index)" by fastforce
  show ?thesis
    using compute_hash_pair_key [OF assms hp] div_mult_mod_eq [of "ebf_key xxh f d i" "ebf_size f"]
    by (simp add: hp mult.commute)
qed

lemma add_result:
  fixes xxh d
  assumes "ebf_wf f"
  defines "f' \<equiv> snd (elastic_bloom_filter_add xxh f (Some d))"
  shows "ebf_wf f'" "ebf_abs f' = ebf_abs f \<union> ebf_key xxh f d ` {..<unat (ebf_hash_count f)}"
    "ebf_size f' = ebf_size f \<or> ebf_size f' = ebf_size f * 2"
    "ebf_hash_count f' = ebf_hash_count f" "ebf_seed_a f' = ebf_seed_a f" "ebf_seed_b f' = ebf_seed_b f"
    "ebf_fp_bits f' = ebf_fp_bits f" "ebf_omega f' = ebf_omega f" "ebf_count f' = ebf_count f + 1"
proof -
  let ?k = "unat (ebf_hash_count f)"
  define f1 where "f1 = fold (\<lambda>i. elastic_add_step (compute_hash_pair xxh f d i)) [0..<?k] f"
  define f2 where "f2 = f1\<lparr>ebf_count := ebf_count f1 + 1\<rparr>"
  have f': "f' = (if elastic_bloom_filter_ratio f2 > ebf_omega f2
      then snd (elastic_bloom_filter_expand f2) else f2)"
    by (simp add: f'_def elastic_bloom_filter_add_def f1_def f2_def Let_def)
  have "snd (compute_hash_pair xxh f d i) < ebf_size f" for i
    using assms compute_hash_pair_key(2) [OF assms(1)] by (metis prod.collapse)
  note fold = add_fold [OF assms(1), of "[0..<?k]" "compute_hash_pair xxh f d", OF this]
    add_fold_fields [of "compute_hash_pair xxh f d" "[0..<?k]" f]
  have "ebf_wf f2" using fold by (simp add: f2_def f1_def ebf_wf_def)
  moreover have "ebf_abs f2 = ebf_abs f \<union> ebf_key xxh f d ` {..<?k}"
    using fold by (simp add: f2_def f1_def ebf_abs_count key_decomp [OF assms(1)] atLeast0LessThan)
  ultimately show "ebf_wf f'" "ebf_abs f' = ebf_abs f \<union> ebf_key xxh f d ` {..<?k}"
    by (simp_all add: f' expand_wf expand_abs)
  show "ebf_size f' = ebf_size f \<or> ebf_size f' = ebf_size f * 2"
    "ebf_hash_count f' = ebf_hash_count f" "ebf_seed_a f' = ebf_seed_a f" "ebf_seed_b f' = ebf_seed_b f"
    "ebf_fp_bits f' = ebf_fp_bits f" "ebf_omega f' = ebf_omega f" "ebf_count f' = ebf_count f + 1"
    using fold by (simp_all add: f' f2_def f1_def)
qed

section \<open>Lookup\<close>

lemma contains_abs:
  assumes "ebf_wf f"
  shows "elastic_bloom_filter_contains xxh f (Some d) \<longleftrightarrow>
    (\<forall>i < unat (ebf_hash_count f).
       \<exists>n \<in> ebf_abs f. n mod ebf_size f = ebf_hash xxh f d i mod ebf_size f)"
proof -
  note wf = ebf_wfD [OF assms]
  have ix: "snd (compute_hash_pair xxh f d i) = ebf_hash xxh f d i mod ebf_size f" for i
    by (simp add: compute_hash_pair_def ebf_hash_def Let_def)
  have "bitset_get (ebf_bits f) (ebf_hash xxh f d i mod ebf_size f) \<longleftrightarrow>
      (\<exists>n \<in> ebf_abs f. n mod ebf_size f = ebf_hash xxh f d i mod ebf_size f)" for i
    using wf(1) wf(5) ebf_abs_bucket_nonempty [of "ebf_hash xxh f d i mod ebf_size f" f] by auto
  then show ?thesis
    by (auto simp: elastic_bloom_filter_contains_def list_all_iff ix)
qed

section \<open>Removal\<close>

lemma remove_step_fields [simp]:
  "ebf_size (elastic_remove_step hp f) = ebf_size f"
  "ebf_bucket_count (elastic_remove_step hp f) = ebf_bucket_count f"
  "ebf_hash_count (elastic_remove_step hp f) = ebf_hash_count f"
  "ebf_fp_bits (elastic_remove_step hp f) = ebf_fp_bits f"
  "ebf_omega (elastic_remove_step hp f) = ebf_omega f"
  "ebf_count (elastic_remove_step hp f) = ebf_count f"
  by (simp_all add: elastic_remove_step_def Let_def split: prod.split)

lemma remove_step_wf [wf_intros]:
  assumes "ebf_wf f" "index < ebf_size f"
  shows "ebf_wf (elastic_remove_step (fp, index) f)"
proof -
  note wf = ebf_wfD [OF assms(1)]
  have "bitset_size (snd (bitset_set (ebf_bits f) index False)) = bitset_size (ebf_bits f)"
    using byte_size_of_bound [OF assms(2)] wf(4) by (simp add: bitset_size_set)
  with assms wf show ?thesis
    by (auto simp: ebf_wf_def elastic_remove_step_def Let_def bitset_get_set bucket_remove_remove1
        nth_list_update)
qed

lemma unat_image_remove1:
  "distinct b \<Longrightarrow> n \<in> unat ` set (remove1 fp b) \<longleftrightarrow> n \<in> unat ` set b \<and> n \<noteq> unat fp"
  by (auto simp: set_remove1_eq unat_eq_unat_iff)

lemma remove_step_abs:
  assumes "ebf_wf f" "index < ebf_size f"
  shows "ebf_abs (elastic_remove_step (fp, index) f) = ebf_abs f - {index + ebf_size f * unat fp}"
proof -
  note wf = ebf_wfD [OF assms(1)]
  have "n \<in> ebf_abs (elastic_remove_step (fp, index) f)
      \<longleftrightarrow> n \<in> ebf_abs f \<and> \<not> (n mod ebf_size f = index \<and> n div ebf_size f = unat fp)" for n
    using assms(2) wf(1, 3) wf(6) [of "n mod ebf_size f"]
    by (auto simp: ebf_abs_def elastic_remove_step_def Let_def bucket_remove_remove1
        nth_list_update unat_image_remove1 unat_eq_unat_iff)
  then show ?thesis
    using div_mod_pair_iff [OF assms(2)] by blast
qed

lemma remove_fold:
  assumes "ebf_wf f" "\<And>i. i \<in> set is \<Longrightarrow> snd (hp i) < ebf_size f"
  shows "ebf_wf (fold (\<lambda>i. elastic_remove_step (hp i)) is f)
    \<and> ebf_abs (fold (\<lambda>i. elastic_remove_step (hp i)) is f)
        = ebf_abs f - (\<lambda>i. snd (hp i) + ebf_size f * unat (fst (hp i))) ` set is
    \<and> ebf_size (fold (\<lambda>i. elastic_remove_step (hp i)) is f) = ebf_size f"
  using assms
proof (induction "is" arbitrary: f)
  case (Cons a "is")
  obtain fp index where hp: "hp a = (fp, index)" by fastforce
  have "index < ebf_size f" using Cons.prems(2) [of a] hp by simp
  then show ?case
    using Cons.IH [of "elastic_remove_step (fp, index) f"] Cons.prems
    by (auto simp: hp remove_step_wf remove_step_abs)
qed simp

text \<open>The filter before the optional compression at the end of a removal.\<close>

definition ebf_removed :: "hash_fn \<Rightarrow> elastic_bloom_filter \<Rightarrow> bytes \<Rightarrow> elastic_bloom_filter" where
  "ebf_removed xxh f d =
     (let f1 = fold (\<lambda>i. elastic_remove_step (compute_hash_pair xxh f d i))
                 [0..<unat (ebf_hash_count f)] f
      in if ebf_count f1 > 0 then f1\<lparr>ebf_count := ebf_count f1 - 1\<rparr> else f1)"

lemma ebf_removed_result:
  assumes "ebf_wf f"
  shows "ebf_wf (ebf_removed xxh f d)"
    "ebf_abs (ebf_removed xxh f d) = ebf_abs f - ebf_key xxh f d ` {..<unat (ebf_hash_count f)}"
    "ebf_size (ebf_removed xxh f d) = ebf_size f"
proof -
  have "snd (compute_hash_pair xxh f d i) < ebf_size f" for i
    using assms compute_hash_pair_key(2) [OF assms(1)] by (metis prod.collapse)
  note fold = remove_fold [OF assms(1), of "[0..<unat (ebf_hash_count f)]" "compute_hash_pair xxh f d", OF this]
  then show "ebf_wf (ebf_removed xxh f d)"
    "ebf_abs (ebf_removed xxh f d) = ebf_abs f - ebf_key xxh f d ` {..<unat (ebf_hash_count f)}"
    "ebf_size (ebf_removed xxh f d) = ebf_size f"
    by (simp_all add: ebf_removed_def Let_def key_decomp [OF assms(1)] atLeast0LessThan)
qed

lemma remove_fp_room: "ebf_wf f \<Longrightarrow> ebf_fp_room f \<Longrightarrow> ebf_fp_room (ebf_removed xxh f d)"
proof -
  assume wf: "ebf_wf f" and room: "ebf_fp_room f"
  have "unat e < 2 ^ 31" if "i < ebf_size f" "e \<in> set (ebf_buckets (ebf_removed xxh f d) ! i)" for i e
  proof -
    have "i + ebf_size f * unat e \<in> ebf_abs (ebf_removed xxh f d)"
      using ebf_absI [OF that(2)] that(1) ebf_removed_result(3) [OF wf] by simp
    then have "i + ebf_size f * unat e \<in> ebf_abs f"
      using ebf_removed_result(2) [OF wf] by blast
    then have "e \<in> set (ebf_buckets f ! i)"
      using that(1) by (auto simp: ebf_abs_def unat_eq_unat_iff)
    then show ?thesis using room that(1) by (simp add: ebf_fp_room_iff)
  qed
  then show ?thesis
    by (simp add: ebf_fp_room_iff ebf_removed_result(3) [OF wf])
qed

lemma remove_eq:
  "elastic_bloom_filter_remove xxh f (Some d) =
     (0, if elastic_bloom_filter_ratio (ebf_removed xxh f d) < ebf_omega (ebf_removed xxh f d) / 4
         then snd (elastic_bloom_filter_compress (ebf_removed xxh f d)) else ebf_removed xxh f d)"
  by (simp add: elastic_bloom_filter_remove_def ebf_removed_def Let_def)

section \<open>Merging\<close>

lemma merge_wf [wf_intros]:
  assumes "ebf_wf dst" "ebf_wf src"
  shows "ebf_wf (snd (elastic_bloom_filter_merge dst src))"
proof (cases "ebf_size dst = ebf_size src")
  case True
  then show ?thesis
    using ebf_wfD [OF assms(1)] ebf_wfD [OF assms(2)]
    by (auto simp: ebf_wf_def elastic_bloom_filter_merge_def get_bitset_or size_bitset_or
        distinct_merge_bucket word_le_nat_alt)
qed (use assms in \<open>simp add: elastic_bloom_filter_merge_def\<close>)

lemma merge_abs:
  assumes "ebf_wf dst" "ebf_wf src" "ebf_size dst = ebf_size src"
  shows "ebf_abs (snd (elastic_bloom_filter_merge dst src)) = ebf_abs dst \<union> ebf_abs src"
  using assms ebf_wfD(1,2) [OF assms(1)] ebf_wfD(2) [OF assms(2)]
  by (auto simp: ebf_abs_def elastic_bloom_filter_merge_def set_merge_bucket image_Un)

lemma merge_mismatch: "ebf_size dst \<noteq> ebf_size src \<Longrightarrow> elastic_bloom_filter_merge dst src = (- 2, dst)"
  by (simp add: elastic_bloom_filter_merge_def)

lemma distinct_compress_bucket:
  assumes "distinct es" "distinct es'" "\<forall>e\<in>set es. unat e < 2 ^ 31" "\<forall>e\<in>set es'. unat e < 2 ^ 31"
  shows "distinct (compress_bucket 0 es (compress_bucket 1 es' []))"
proof -
  have "map (\<lambda>e. unat (push_bit 1 e OR 0)) es = map (\<lambda>e. 2 * unat e) es"
    "map (\<lambda>e. unat (push_bit 1 e OR 1)) es' = map (\<lambda>e. 2 * unat e + 1) es'"
    using assms(3, 4) by (intro map_cong; simp only: unat_push_bit_0 unat_push_bit_1)+
  then have eq: "map unat (compress_bucket 0 es (compress_bucket 1 es' []))
      = rev (map (\<lambda>e. 2 * unat e) es) @ rev (map (\<lambda>e. 2 * unat e + 1) es')"
    by (simp add: compress_bucket_eq rev_map comp_def)
  have "2 * unat x \<noteq> Suc (2 * unat y)" for x y :: u32 by presburger
  then have "distinct (map unat (compress_bucket 0 es (compress_bucket 1 es' [])))"
    unfolding eq using assms(1, 2) by (auto simp: distinct_map inj_on_def unat_eq_unat_iff)
  then show ?thesis by (simp only: distinct_map)
qed

lemma compress_wf [wf_intros]:
  assumes "ebf_wf f" "ebf_fp_room f" "even (ebf_size f)"
  shows "ebf_wf (snd (elastic_bloom_filter_compress f))"
proof -
  note wf = ebf_wfD [OF assms(1)]
  have two: "2 \<le> ebf_bucket_count f" using wf(1,2) assms(3) by auto
  have "distinct (ebf_buckets (snd (elastic_bloom_filter_compress f)) ! i)"
    if i: "i < ebf_size f div 2" for i
  proof -
    have lt: "i < ebf_size f" "i + ebf_size f div 2 < ebf_size f" using i by auto
    have "distinct (compress_bucket 0 (ebf_buckets f ! i)
        (compress_bucket 1 (ebf_buckets f ! (i + ebf_size f div 2)) []))"
      using assms(2) lt wf(6) [OF lt(1)] wf(6) [OF lt(2)]
      by (intro distinct_compress_bucket) (auto simp only: ebf_fp_room_iff)
    then show ?thesis
      using wf(2) i by (simp add: compress_bucket_nth [OF two])
  qed
  moreover have "bitset_get (ebf_bits (snd (elastic_bloom_filter_compress f))) i \<longleftrightarrow>
      i < ebf_size f div 2 \<and> ebf_buckets (snd (elastic_bloom_filter_compress f)) ! i \<noteq> []" for i
    using two by (simp add: elastic_bloom_filter_compress_def Let_def)
  ultimately show ?thesis
    using wf two by (simp add: ebf_wf_def compress_fields word_le_nat_alt)
qed

section \<open>The elastic filter as a membership filter\<close>

text \<open>
  \<open>ebf_tracks m f d\<close>: for each hash of \<open>d\<close> the filter stores a number that agrees
  with it modulo \<open>m\<close>. The filter has room while its size divides \<open>m\<close>.
\<close>

definition ebf_tracks :: "hash_fn \<Rightarrow> nat \<Rightarrow> elastic_bloom_filter \<Rightarrow> bytes \<Rightarrow> bool" where
  "ebf_tracks xxh m f d \<longleftrightarrow>
     (\<forall>i < unat (ebf_hash_count f). \<exists>n \<in> ebf_abs f. n mod m = ebf_hash xxh f d i mod m)"

definition ebf_invar :: "nat \<Rightarrow> elastic_bloom_filter \<Rightarrow> bool" where
  "ebf_invar m f \<longleftrightarrow> ebf_wf f \<and> m dvd ebf_size f * 2 ^ unat (ebf_fp_bits f)"

lemma ebf_hash_add:
  "ebf_wf f \<Longrightarrow> ebf_hash xxh (snd (elastic_bloom_filter_add xxh f (Some d))) = ebf_hash xxh f"
  by (simp add: ebf_hash_def add_result fun_eq_iff)

interpretation elastic: membership_filter
  "\<lambda>d f. snd (elastic_bloom_filter_add xxh f (Some d))"
  "\<lambda>f d. elastic_bloom_filter_contains xxh f (Some d)"
  "ebf_tracks xxh m" "ebf_invar m" "\<lambda>f. ebf_size f dvd m" for xxh m
proof
  fix f d e
  let ?f = "snd (elastic_bloom_filter_add xxh f (Some d))"
  show "ebf_invar m ?f" if "ebf_invar m f"
    using that add_result(1,3,7) [of f xxh d] dvd_mult [of m "ebf_size f * 2 ^ unat (ebf_fp_bits f)" 2]
    by (auto simp: ebf_invar_def ac_simps)
  show "ebf_size f dvd m" if "ebf_invar m f" "ebf_size ?f dvd m"
    using that add_result(3) [of f xxh d] by (auto simp: ebf_invar_def intro: dvd_mult_left)
  show "ebf_tracks xxh m ?f d" if "ebf_invar m f"
    unfolding ebf_tracks_def
  proof (intro allI impI)
    fix i assume "i < unat (ebf_hash_count ?f)"
    then show "\<exists>n \<in> ebf_abs ?f. n mod m = ebf_hash xxh ?f d i mod m"
      using that by (intro bexI [of _ "ebf_key xxh f d i"])
        (auto simp: ebf_invar_def add_result(2,4) ebf_hash_add ebf_key_def mod_mod_cancel)
  qed
  show "ebf_tracks xxh m ?f e" if "ebf_invar m f" "ebf_tracks xxh m f e"
    using that by (auto simp: ebf_invar_def ebf_tracks_def add_result(2,4) ebf_hash_add)
  show "elastic_bloom_filter_contains xxh f (Some d)"
    if "ebf_invar m f" "ebf_size f dvd m" "ebf_tracks xxh m f d"
    using that by (simp add: ebf_invar_def ebf_tracks_def contains_abs) (metis mod_mod_cancel)
qed

section \<open>Properties\<close>

lemma fold_add_size:
  "ebf_wf f \<Longrightarrow> \<exists>j \<le> length ds.
     ebf_size (fold (\<lambda>d f. snd (elastic_bloom_filter_add xxh f (Some d))) ds f) = ebf_size f * 2 ^ j"
proof (induction ds arbitrary: f)
  case (Cons d ds)
  let ?f = "snd (elastic_bloom_filter_add xxh f (Some d))"
  have "ebf_wf ?f" and sz: "ebf_size ?f = ebf_size f \<or> ebf_size ?f = ebf_size f * 2"
    using Cons.prems add_result(1,3) by blast+
  with Cons.IH [of ?f] obtain j where "j \<le> length ds"
    "ebf_size (fold (\<lambda>d f. snd (elastic_bloom_filter_add xxh f (Some d))) ds ?f) = ebf_size ?f * 2 ^ j"
    by blast
  with sz show ?case
    by (auto intro: exI [of _ j] exI [of _ "Suc j"])
qed simp

text \<open>As many insertions as there are fingerprint bits are always safe.\<close>

lemma contains_after_adds:
  assumes "ebf_wf f" "length ds \<le> unat (ebf_fp_bits f)" "d \<in> set ds"
  shows "elastic_bloom_filter_contains xxh
    (fold (\<lambda>d f. snd (elastic_bloom_filter_add xxh f (Some d))) ds f) (Some d)"
proof -
  let ?m = "ebf_size f * 2 ^ unat (ebf_fp_bits f)"
  obtain j where j: "j \<le> length ds"
    "ebf_size (fold (\<lambda>d f. snd (elastic_bloom_filter_add xxh f (Some d))) ds f) = ebf_size f * 2 ^ j"
    using fold_add_size [OF assms(1)] by blast
  then have "ebf_size (fold (\<lambda>d f. snd (elastic_bloom_filter_add xxh f (Some d))) ds f) dvd ?m"
    using assms(2) by (simp add: le_imp_power_dvd mult_dvd_mono)
  moreover have "ebf_invar ?m f" by (simp add: ebf_invar_def assms(1))
  ultimately show ?thesis
    using elastic.no_false_negative [of ?m f xxh ds d] assms(3) by simp
qed

text \<open>
  C8. No false negatives: after any sequence of insertions into a fresh elastic
  filter, with all the automatic expansions they trigger, every inserted element
  is found, provided the filter has not outgrown its fingerprints (at most
  \<open>fp_bits\<close> doublings).
\<close>

theorem elastic_no_false_negatives:
  assumes "sz > 0" "fp_bits \<le> 32" "d \<in> set ds"
    and "f = fold (\<lambda>d f. snd (elastic_bloom_filter_add xxh f (Some d))) ds
               (elastic_bloom_filter_create sz k omega fp_bits)"
    and "ebf_size f \<le> sz * 2 ^ unat fp_bits"
  shows "elastic_bloom_filter_contains xxh f (Some d)"
proof -
  let ?f0 = "elastic_bloom_filter_create sz k omega fp_bits"
  let ?m = "sz * 2 ^ unat fp_bits"
  have wf: "ebf_wf ?f0" using assms(1,2) by (rule ebf_wf_create)
  obtain j where j: "ebf_size f = sz * 2 ^ j"
    using fold_add_size [OF wf, where ds = ds and xxh = xxh] assms(4) by auto
  then have "j \<le> unat fp_bits" using assms(1,5) by simp
  then have "ebf_size f dvd ?m" unfolding j by (intro mult_dvd_mono le_imp_power_dvd) simp_all
  moreover have "ebf_invar ?m ?f0" by (simp add: ebf_invar_def wf)
  ultimately show ?thesis
    using elastic.no_false_negative [of ?m ?f0 xxh ds d] assms(3,4) by simp
qed

theorem elastic_no_false_negatives_witness:
  "elastic_bloom_filter_contains (\<lambda>d s. of_nat (length d) * 11 + s)
     (fold (\<lambda>d f. snd (elastic_bloom_filter_add (\<lambda>d s. of_nat (length d) * 11 + s) f (Some d)))
        [[1], [2, 3]] (elastic_bloom_filter_create 4 2 (1 / 2) 8)) (Some [1])"
  by (rule elastic_no_false_negatives [of 4 8 "[1]" "[[1], [2, 3]]" _ _ 2 "1 / 2"]) (simp, simp, simp, rule refl, code_simp)

text \<open>
  C22. Insertion refines set insertion: it succeeds, keeps the invariant, adds
  exactly the hash values of the element modulo \<open>size * 2 ^ fp_bits\<close> (whether or
  not the insertion expands the filter) and counts one more element.
\<close>

theorem elastic_add_refines:
  assumes "ebf_wf f"
  shows "fst (elastic_bloom_filter_add xxh f (Some d)) = 0
    \<and> ebf_wf (snd (elastic_bloom_filter_add xxh f (Some d)))
    \<and> ebf_abs (snd (elastic_bloom_filter_add xxh f (Some d)))
        = ebf_abs f \<union> ebf_key xxh f d ` {..<unat (ebf_hash_count f)}
    \<and> ebf_count (snd (elastic_bloom_filter_add xxh f (Some d))) = ebf_count f + 1"
  using add_result(1,2,9) [OF assms] by (simp add: elastic_bloom_filter_add_def Let_def)

theorem elastic_add_refines_witness:
  "ebf_abs (snd (elastic_bloom_filter_add (\<lambda>d s. 7 + s) (elastic_bloom_filter_create 2 1 (1 / 4) 8) (Some [])))
     = {} \<union> ebf_key (\<lambda>d s. 7 + s) (elastic_bloom_filter_create 2 1 (1 / 4) 8) [] ` {..<1}"
  using elastic_add_refines [of "elastic_bloom_filter_create 2 1 (1 / 4) 8" "\<lambda>d s. 7 + s" "[]"]
  by (simp add: ebf_wf_create ebf_abs_create)

text \<open>
  C23. Removal refines set difference: it succeeds, keeps the invariant and takes
  out exactly the numbers an insertion at the current size would store, whether
  or not the removal compresses the filter. Compression needs an even size and
  fingerprints below \<open>2 ^ 31\<close>.
\<close>

theorem elastic_remove_refines:
  assumes "ebf_wf f" "even (ebf_size f)" "ebf_fp_room f"
  shows "fst (elastic_bloom_filter_remove xxh f (Some d)) = 0
    \<and> ebf_wf (snd (elastic_bloom_filter_remove xxh f (Some d)))
    \<and> ebf_abs (snd (elastic_bloom_filter_remove xxh f (Some d)))
        = ebf_abs f - ebf_key xxh f d ` {..<unat (ebf_hash_count f)}"
  using ebf_removed_result [OF assms(1)] remove_fp_room [OF assms(1,3)] assms(2)
  by (simp add: remove_eq compress_wf compress_abs)

theorem elastic_remove_refines_witness:
  "let h = (\<lambda>d s. 7 + s); f = snd (elastic_bloom_filter_add h (elastic_bloom_filter_create 2 1 (1 / 4) 8) (Some []))
   in ebf_abs (snd (elastic_bloom_filter_remove h f (Some [])))
        = ebf_abs f - ebf_key h f [] ` {..<unat (ebf_hash_count f)}"
proof -
  define h :: hash_fn where "h = (\<lambda>d s. 7 + s)"
  define f where "f = snd (elastic_bloom_filter_add h (elastic_bloom_filter_create 2 1 (1 / 4) 8) (Some []))"
  have "ebf_wf f" unfolding f_def by (intro add_result(1) ebf_wf_create) simp_all
  moreover have "even (ebf_size f)" "ebf_fp_room f" unfolding f_def h_def by code_simp+
  ultimately show ?thesis
    using elastic_remove_refines [of f h "[]"] by (simp add: f_def h_def)
qed

text \<open>
  Resizing changes the representation only: expansion, and compression of a
  filter of even size whose fingerprints leave the top bit free, keep the
  invariant and the stored set.
\<close>

theorem elastic_resize_refines:
  assumes "ebf_wf f"
  shows "ebf_wf (snd (elastic_bloom_filter_expand f))
      \<and> ebf_abs (snd (elastic_bloom_filter_expand f)) = ebf_abs f
      \<and> ebf_size (snd (elastic_bloom_filter_expand f)) = 2 * ebf_size f
      \<and> (even (ebf_size f) \<and> ebf_fp_room f \<longrightarrow>
           ebf_wf (snd (elastic_bloom_filter_compress f))
           \<and> ebf_abs (snd (elastic_bloom_filter_compress f)) = ebf_abs f
           \<and> 2 * ebf_size (snd (elastic_bloom_filter_compress f)) = ebf_size f)"
proof -
  have "2 \<le> ebf_bucket_count f" if "even (ebf_size f)"
    using that ebf_wfD(1,2) [OF assms] by auto
  then show ?thesis
    using assms by (simp add: expand_wf expand_abs compress_wf compress_abs compress_fields)
qed

theorem elastic_resize_refines_witness:
  "let f = snd (elastic_bloom_filter_bucket_insert (elastic_bloom_filter_create 2 1 (1 / 4) 8) 1 5)
   in ebf_abs (snd (elastic_bloom_filter_expand f)) = ebf_abs f
      \<and> ebf_abs (snd (elastic_bloom_filter_compress f)) = ebf_abs f"
proof -
  define f where "f = snd (elastic_bloom_filter_bucket_insert (elastic_bloom_filter_create 2 1 (1 / 4) 8) 1 5)"
  have "f = elastic_add_step (5, 1) (elastic_bloom_filter_create 2 1 (1 / 4) 8)"
    by (simp add: f_def elastic_bloom_filter_bucket_insert_def)
  then have "ebf_wf f"
    by (auto intro!: add_step_wf ebf_wf_create)
  moreover have "even (ebf_size f)" "ebf_fp_room f" unfolding f_def by code_simp+
  ultimately show ?thesis
    using elastic_resize_refines [of f] by (simp add: f_def)
qed

text \<open>
  Merging refines set union when the sizes agree and fails with -2 and no
  change when they do not.
\<close>

theorem elastic_merge_refines:
  assumes "ebf_wf dst" "ebf_wf src"
  shows "if ebf_size dst = ebf_size src
    then fst (elastic_bloom_filter_merge dst src) = 0
      \<and> ebf_wf (snd (elastic_bloom_filter_merge dst src))
      \<and> ebf_abs (snd (elastic_bloom_filter_merge dst src)) = ebf_abs dst \<union> ebf_abs src
    else elastic_bloom_filter_merge dst src = (- 2, dst)"
proof (cases "ebf_size dst = ebf_size src")
  case True
  then have "fst (elastic_bloom_filter_merge dst src) = 0"
    using ebf_wfD(2) [OF assms(1)] ebf_wfD(2) [OF assms(2)] by (simp add: elastic_bloom_filter_merge_def)
  with True show ?thesis using merge_wf [OF assms] merge_abs [OF assms] by simp
qed (simp add: merge_mismatch)

theorem elastic_merge_refines_witness:
  "let f = elastic_bloom_filter_create 2 1 (1 / 4) 8; g = snd (elastic_bloom_filter_add (\<lambda>d s. s) f (Some [1]))
   in elastic_bloom_filter_merge f g = (- 2, f) \<and> ebf_abs (snd (elastic_bloom_filter_merge g g)) = ebf_abs g"
proof -
  define f where "f = elastic_bloom_filter_create 2 1 (1 / 4) 8"
  define g where "g = snd (elastic_bloom_filter_add (\<lambda>d s. s) f (Some [1]))"
  have "ebf_wf f" unfolding f_def by (simp add: ebf_wf_create)
  moreover from this have "ebf_wf g" unfolding g_def by (rule add_result(1))
  moreover have "ebf_size f \<noteq> ebf_size g" unfolding g_def f_def by code_simp
  ultimately show ?thesis
    using elastic_merge_refines [of f g] elastic_merge_refines [of g g] by (simp add: f_def g_def)
qed

text \<open>
  Expansion sharpens lookups: whatever the expanded filter reports was
  reported before, so doubling the size never introduces a false positive.
\<close>

theorem elastic_expand_precision:
  assumes "ebf_wf f" "elastic_bloom_filter_contains xxh (snd (elastic_bloom_filter_expand f)) (Some d)"
  shows "elastic_bloom_filter_contains xxh f (Some d)"
proof -
  have "ebf_hash xxh (snd (elastic_bloom_filter_expand f)) = ebf_hash xxh f"
    by (simp add: ebf_hash_def fun_eq_iff)
  with assms show ?thesis
    by (simp add: contains_abs expand_wf expand_abs) (blast intro: mod_double_cancel)
qed

theorem elastic_expand_precision_witness:
  "elastic_bloom_filter_contains (\<lambda>d s. s)
     (snd (elastic_bloom_filter_add (\<lambda>d s. s) (elastic_bloom_filter_create 2 1 1 8) (Some [1]))) (Some [1])"
proof -
  have "ebf_wf (snd (elastic_bloom_filter_add (\<lambda>d s. s) (elastic_bloom_filter_create 2 1 1 8) (Some [1])))"
    by (intro add_result(1) ebf_wf_create) simp_all
  then show ?thesis
    by (rule elastic_expand_precision) code_simp
qed

text \<open>
  The bound on the number of doublings is needed: a filter with one fingerprint bit that is
  expanded twice after an insertion no longer finds the inserted element.
\<close>

theorem elastic_outgrown_false_negative:
  "let h = (\<lambda>d s. s + 1);
       f = snd (elastic_bloom_filter_add h (elastic_bloom_filter_create 1 1 1 1) (Some [1]));
       g = snd (elastic_bloom_filter_expand (snd (elastic_bloom_filter_expand f)))
   in elastic_bloom_filter_contains h f (Some [1]) \<and> \<not> elastic_bloom_filter_contains h g (Some [1])"
  by code_simp

text \<open>
  Removal after a resize can miss: the fingerprint recomputed at the new size
  has a bit the stored one lost, so an element inserted, then removed after one
  expansion, is still reported.
\<close>

theorem elastic_remove_after_expand_misses:
  "let h = (\<lambda>d s. s + 255);
       f = snd (elastic_bloom_filter_add h (elastic_bloom_filter_create 1 1 1 8) (Some [1]));
       g = snd (elastic_bloom_filter_expand f)
   in elastic_bloom_filter_remove h f (Some [1]) \<noteq> (0, f)
      \<and> \<not> elastic_bloom_filter_contains h (snd (elastic_bloom_filter_remove h f (Some [1]))) (Some [1])
      \<and> elastic_bloom_filter_contains h (snd (elastic_bloom_filter_remove h g (Some [1]))) (Some [1])"
  by code_simp

end
