(* ===== verification/Cbor.thy ===== *)
theory Cbor
  imports Prelude
begin

text \<open>
  CBOR data items as \<open>libcbor\<close> holds them in memory, and the accessors the
  program calls on them. An accessor applied to an item of another type, or to an
  integer of another width, violates a \<open>CBOR_ASSERT\<close> of the library (an abort, or
  a read past the item when assertions are compiled out): that outcome is \<open>Undef\<close>.
  A decoder that returns NULL or a negative status is \<open>Fail\<close>. Allocation of items
  always succeeds.
\<close>

datatype 'a cres = Ret 'a | Fail | Undef

fun cbind :: "'a cres \<Rightarrow> ('a \<Rightarrow> 'b cres) \<Rightarrow> 'b cres" where
  "cbind (Ret x) k = k x"
| "cbind Fail k = Fail"
| "cbind Undef k = Undef"

definition cguard :: "bool \<Rightarrow> 'a cres \<Rightarrow> 'a cres" where
  "cguard b r = (if b then r else Fail)"

lemma cguard_simps [simp]: "cguard True r = r" "cguard False r = Fail"
  by (simp_all add: cguard_def)

lemma cguard_Ret [simp]: "cguard b r = Ret x \<longleftrightarrow> b \<and> r = Ret x"
  by (simp add: cguard_def)

lemma cbind_Ret [simp]: "cbind m k = Ret y \<longleftrightarrow> (\<exists>x. m = Ret x \<and> k x = Ret y)"
  by (cases m) auto

datatype cbor_int_width = CBOR_INT_8 | CBOR_INT_16 | CBOR_INT_32 | CBOR_INT_64

datatype cbor_float_width = CBOR_FLOAT_0 | CBOR_FLOAT_16 | CBOR_FLOAT_32 | CBOR_FLOAT_64

datatype cbor_item =
    CBOR_UINT cbor_int_width u64
  | CBOR_NEGINT cbor_int_width u64
  | CBOR_BYTESTRING bytes
  | CBOR_BYTESTRING_CHUNKS "bytes list"
  | CBOR_STRING bytes
  | CBOR_STRING_CHUNKS "bytes list"
  | CBOR_ARRAY bool "cbor_item list"
  | CBOR_MAP bool "(cbor_item \<times> cbor_item) list"
  | CBOR_TAG u64 cbor_item
  | CBOR_FLOAT_CTRL cbor_float_width u64

text \<open>
  The boolean of arrays and maps is "definite"; an indefinite string is the list of
  its definite chunks, and its own metadata have length 0. A control value is the
  number of \<open>CBOR_FLOAT_0\<close>; a floating point number is the bit pattern of the \<open>float\<close>
  (widths 16 and 32) or \<open>double\<close> that holds it.
\<close>

definition cbor_build_uint8 :: "byte \<Rightarrow> cbor_item" where
  "cbor_build_uint8 v = CBOR_UINT CBOR_INT_8 (ucast v)"

definition cbor_build_uint16 :: "u16 \<Rightarrow> cbor_item" where
  "cbor_build_uint16 v = CBOR_UINT CBOR_INT_16 (ucast v)"

definition cbor_build_uint32 :: "u32 \<Rightarrow> cbor_item" where
  "cbor_build_uint32 v = CBOR_UINT CBOR_INT_32 (ucast v)"

definition cbor_build_uint64 :: "u64 \<Rightarrow> cbor_item" where
  "cbor_build_uint64 v = CBOR_UINT CBOR_INT_64 v"

definition cbor_build_bytestring :: "bytes \<Rightarrow> cbor_item" where
  "cbor_build_bytestring bs = CBOR_BYTESTRING bs"

definition cbor_build_string :: "bytes \<Rightarrow> cbor_item" where
  "cbor_build_string bs = CBOR_STRING bs"

fun cbor_is_int_width :: "cbor_int_width \<Rightarrow> cbor_item \<Rightarrow> u64 cres" where
  "cbor_is_int_width w (CBOR_UINT w' v) = (if w' = w then Ret v else Undef)"
| "cbor_is_int_width w (CBOR_NEGINT w' v) = (if w' = w then Ret v else Undef)"
| "cbor_is_int_width w _ = Undef"

definition cbor_get_uint8 :: "cbor_item \<Rightarrow> byte cres" where
  "cbor_get_uint8 it = cbind (cbor_is_int_width CBOR_INT_8 it) (\<lambda>v. Ret (ucast v))"

definition cbor_get_uint16 :: "cbor_item \<Rightarrow> u16 cres" where
  "cbor_get_uint16 it = cbind (cbor_is_int_width CBOR_INT_16 it) (\<lambda>v. Ret (ucast v))"

definition cbor_get_uint32 :: "cbor_item \<Rightarrow> u32 cres" where
  "cbor_get_uint32 it = cbind (cbor_is_int_width CBOR_INT_32 it) (\<lambda>v. Ret (ucast v))"

definition cbor_get_uint64 :: "cbor_item \<Rightarrow> u64 cres" where
  "cbor_get_uint64 it = cbor_is_int_width CBOR_INT_64 it"

fun cbor_get_int :: "cbor_item \<Rightarrow> u64 cres" where
  "cbor_get_int (CBOR_UINT w v) = Ret v"
| "cbor_get_int (CBOR_NEGINT w v) = Ret v"
| "cbor_get_int _ = Undef"

fun cbor_isa_uint :: "cbor_item \<Rightarrow> bool" where
  "cbor_isa_uint (CBOR_UINT _ _) = True"
| "cbor_isa_uint _ = False"

fun cbor_isa_bytestring :: "cbor_item \<Rightarrow> bool" where
  "cbor_isa_bytestring (CBOR_BYTESTRING _) = True"
| "cbor_isa_bytestring (CBOR_BYTESTRING_CHUNKS _) = True"
| "cbor_isa_bytestring _ = False"

fun cbor_isa_string :: "cbor_item \<Rightarrow> bool" where
  "cbor_isa_string (CBOR_STRING _) = True"
| "cbor_isa_string (CBOR_STRING_CHUNKS _) = True"
| "cbor_isa_string _ = False"

text \<open>The bytes a \<open>memcpy\<close> of \<open>cbor_..._length\<close> bytes from \<open>cbor_..._handle\<close> reads.\<close>

fun cbor_bytestring_bytes :: "cbor_item \<Rightarrow> bytes cres" where
  "cbor_bytestring_bytes (CBOR_BYTESTRING bs) = Ret bs"
| "cbor_bytestring_bytes (CBOR_BYTESTRING_CHUNKS _) = Ret []"
| "cbor_bytestring_bytes _ = Undef"

fun cbor_string_bytes :: "cbor_item \<Rightarrow> bytes cres" where
  "cbor_string_bytes (CBOR_STRING bs) = Ret bs"
| "cbor_string_bytes (CBOR_STRING_CHUNKS _) = Ret []"
| "cbor_string_bytes _ = Undef"

text \<open>\<open>cbor_isa_array\<close> and \<open>cbor_array_is_definite\<close> checked, then handle and size.\<close>

fun cbor_definite_array :: "cbor_item \<Rightarrow> cbor_item list cres" where
  "cbor_definite_array (CBOR_ARRAY True elems) = Ret elems"
| "cbor_definite_array _ = Fail"

text \<open>Reading an element of the array handle; past its end the read is out of bounds.\<close>

definition cbor_at :: "cbor_item list \<Rightarrow> nat \<Rightarrow> cbor_item cres" where
  "cbor_at elems i = (if i < length elems then Ret (elems ! i) else Undef)"

text \<open>
  Arrays under construction: a definite array is allocated with a fixed number of
  slots and a push beyond them fails. An encoder that pushes its items in turn and
  gives up at the first failure is \<open>cbor_array_of\<close>.
\<close>

type_synonym cbor_array_build = "nat \<times> cbor_item list"

definition cbor_new_definite_array :: "nat \<Rightarrow> cbor_array_build" where
  "cbor_new_definite_array n = (n, [])"

definition cbor_array_push :: "cbor_array_build \<Rightarrow> cbor_item \<Rightarrow> cbor_array_build option" where
  "cbor_array_push a it =
     (case a of (allocated, elems) \<Rightarrow>
        if length elems \<ge> allocated then None else Some (allocated, elems @ [it]))"

fun cbor_array_push_all :: "cbor_array_build \<Rightarrow> cbor_item list \<Rightarrow> cbor_array_build option" where
  "cbor_array_push_all a [] = Some a"
| "cbor_array_push_all a (it # its) =
     (case cbor_array_push a it of None \<Rightarrow> None | Some a' \<Rightarrow> cbor_array_push_all a' its)"

definition cbor_array_of :: "nat \<Rightarrow> cbor_item list \<Rightarrow> cbor_item option" where
  "cbor_array_of n its =
     map_option (\<lambda>a. CBOR_ARRAY True (snd a)) (cbor_array_push_all (cbor_new_definite_array n) its)"

text \<open>Array accessors of a decoder that does not check the type of the item first.\<close>

fun cbor_array_elems :: "cbor_item \<Rightarrow> cbor_item list cres" where
  "cbor_array_elems (CBOR_ARRAY _ elems) = Ret elems"
| "cbor_array_elems _ = Undef"

fun cbor_array_is_definite :: "cbor_item \<Rightarrow> bool cres" where
  "cbor_array_is_definite (CBOR_ARRAY definite _) = Ret definite"
| "cbor_array_is_definite _ = Undef"

definition cbor_definite_elems :: "cbor_item \<Rightarrow> cbor_item list cres" where
  "cbor_definite_elems it = cbind (cbor_array_is_definite it) (\<lambda>d. cguard d (cbor_array_elems it))"

fun cbor_isa_array :: "cbor_item \<Rightarrow> bool" where
  "cbor_isa_array (CBOR_ARRAY _ _) = True"
| "cbor_isa_array _ = False"

fun cbor_isa_map :: "cbor_item \<Rightarrow> bool" where
  "cbor_isa_map (CBOR_MAP _ _) = True"
| "cbor_isa_map _ = False"

fun cbor_map_pairs :: "cbor_item \<Rightarrow> (cbor_item \<times> cbor_item) list cres" where
  "cbor_map_pairs (CBOR_MAP _ ps) = Ret ps"
| "cbor_map_pairs _ = Undef"

named_theorems cbor_simps "what the accessors return on the items the builders make"

lemma ucast_ucast_up [simp]:
  "ucast (ucast (b::byte) :: u64) = b" "ucast (ucast (h::u16) :: u64) = h"
  "ucast (ucast (w::u32) :: u64) = w"
  by (rule bit_word_eqI; simp add: bit_simps)+

lemma get_build [cbor_simps, simp]:
  "cbor_get_uint8 (cbor_build_uint8 b) = Ret b"
  "cbor_get_uint16 (cbor_build_uint16 h) = Ret h"
  "cbor_get_uint32 (cbor_build_uint32 w) = Ret w"
  "cbor_get_uint64 (cbor_build_uint64 q) = Ret q"
  "cbor_get_int (cbor_build_uint8 b) = Ret (ucast b)"
  "cbor_get_int (cbor_build_uint16 h) = Ret (ucast h)"
  "cbor_get_int (cbor_build_uint32 w) = Ret (ucast w)"
  "cbor_get_int (cbor_build_uint64 q) = Ret q"
  "cbor_isa_uint (cbor_build_uint8 b)" "cbor_isa_uint (cbor_build_uint16 h)"
  "cbor_isa_uint (cbor_build_uint32 w)" "cbor_isa_uint (cbor_build_uint64 q)"
  "cbor_bytestring_bytes (cbor_build_bytestring bs) = Ret bs"
  "cbor_isa_bytestring (cbor_build_bytestring bs)"
  "cbor_string_bytes (cbor_build_string bs) = Ret bs"
  "cbor_isa_string (cbor_build_string bs)"
  "\<not> cbor_isa_string (cbor_build_bytestring bs)" "\<not> cbor_isa_bytestring (cbor_build_string bs)"
  by (simp_all add: cbor_get_uint8_def cbor_get_uint16_def cbor_get_uint32_def cbor_get_uint64_def
      cbor_build_uint8_def cbor_build_uint16_def cbor_build_uint32_def cbor_build_uint64_def
      cbor_build_bytestring_def cbor_build_string_def)

lemma cbor_definite_array_Ret [simp]:
  "cbor_definite_array it = Ret es \<longleftrightarrow> it = CBOR_ARRAY True es"
  by (cases it rule: cbor_definite_array.cases) auto

lemma cbor_at_Cons [simp]:
  "cbor_at (x # xs) 0 = Ret x" "cbor_at (x # xs) (Suc n) = cbor_at xs n"
  "cbor_at (x # xs) (numeral k) = cbor_at xs (pred_numeral k)"
  by (simp_all add: cbor_at_def numeral_eq_Suc)

lemma cbor_array_push_all_eq:
  "length es \<le> n \<Longrightarrow> cbor_array_push_all (n, es) its =
     (if length es + length its \<le> n then Some (n, es @ its) else None)"
  by (induction its arbitrary: es) (auto simp: cbor_array_push_def)

lemma cbor_array_of_eq [cbor_simps, simp]:
  "cbor_array_of n its = (if length its \<le> n then Some (CBOR_ARRAY True its) else None)"
  by (simp add: cbor_array_of_def cbor_new_definite_array_def cbor_array_push_all_eq)

lemma cbor_definite_elems_simps [cbor_simps, simp]:
  "cbor_definite_elems (CBOR_ARRAY True es) = Ret es"
  "cbor_definite_elems (CBOR_ARRAY False es) = Fail"
  by (simp_all add: cbor_definite_elems_def)

section \<open>Codecs\<close>

text \<open>
  What a sender and a receiver rely on of an encoding: decoding what was encoded
  gives the value back (up to the fields the format does not carry, normalised by
  \<open>norm\<close>), so two values with the same encoding agree on what is carried.
\<close>

locale codec =
  fixes enc :: "'a \<Rightarrow> 'm" and dec :: "'m \<Rightarrow> 'a cres" and ok :: "'a \<Rightarrow> bool" and norm :: "'a \<Rightarrow> 'a"
  assumes dec_enc: "ok x \<Longrightarrow> dec (enc x) = Ret (norm x)"
begin

lemma enc_inj: "ok x \<Longrightarrow> ok y \<Longrightarrow> enc x = enc y \<Longrightarrow> norm x = norm y"
  using dec_enc by (metis cres.inject)

lemma dec_enc_no_fault: "ok x \<Longrightarrow> dec (enc x) \<noteq> Fail \<and> dec (enc x) \<noteq> Undef"
  by (simp add: dec_enc)

end

text \<open>The receiver of an encoder that can fail.\<close>

definition cdecoded :: "('m \<Rightarrow> 'a cres) \<Rightarrow> 'm option \<Rightarrow> 'a cres" where
  "cdecoded dec r = (case r of None \<Rightarrow> Fail | Some m \<Rightarrow> dec m)"

lemma cdecoded_simps [simp]: "cdecoded dec (Some m) = dec m" "cdecoded dec None = Fail"
  by (simp_all add: cdecoded_def)

text \<open>Decoding the elements of an array one by one, stopping at the first that does not decode.\<close>

fun cmapM :: "('m \<Rightarrow> 'a cres) \<Rightarrow> 'm list \<Rightarrow> 'a list cres" where
  "cmapM f [] = Ret []"
| "cmapM f (x # xs) = cbind (f x) (\<lambda>y. cbind (cmapM f xs) (\<lambda>ys. Ret (y # ys)))"

lemma cmapM_map: "(\<And>x. x \<in> set xs \<Longrightarrow> f (g x) = Ret (h x)) \<Longrightarrow> cmapM f (map g xs) = Ret (map h xs)"
  by (induction xs) auto

lemma cmapM_length: "cmapM f xs = Ret ys \<Longrightarrow> length ys = length xs"
  by (induction xs arbitrary: ys) auto

end
