(* ===== verification/ElasticCodec.thy ===== *)
theory ElasticCodec
  imports ElasticBloom Cbor
begin

text \<open>
  The CBOR encoding of an elastic filter (\<open>elastic_bloom_filter_encode\<close> and
  \<open>elastic_bloom_filter_decode\<close> of \<open>src/Bloom/elastic_bloom_filter.c\<close>): eight
  metadata fields and one sub-array per non-empty bucket. \<open>omega\<close> and \<open>count\<close> are
  not carried.
\<close>

definition encode_bucket :: "elastic_bloom_filter \<Rightarrow> nat \<Rightarrow> cbor_item" where
  "encode_bucket f i =
     (let b = ebf_buckets f ! i
      in CBOR_ARRAY True
           ([cbor_build_uint64 (of_nat i), cbor_build_uint64 (of_nat (length b))]
            @ map cbor_build_uint32 b))"

definition elastic_bloom_filter_encode :: "elastic_bloom_filter \<Rightarrow> cbor_item" where
  "elastic_bloom_filter_encode f =
     (let occupied = filter (\<lambda>i. \<not> bucket_is_empty (ebf_buckets f ! i)) [0..<ebf_bucket_count f]
      in CBOR_ARRAY True
           ([cbor_build_uint64 (of_nat (ebf_size f)), cbor_build_uint32 (ebf_hash_count f),
             cbor_build_uint32 (ebf_fp_bits f), cbor_build_uint64 (ebf_seed_a f),
             cbor_build_uint64 (ebf_seed_b f), cbor_build_uint64 (of_nat (bitset_size (ebf_bits f))),
             cbor_build_bytestring (bs_data (ebf_bits f)), cbor_build_uint64 (of_nat (length occupied))]
            @ map (encode_bucket f) occupied))"

text \<open>
  One round of the bucket loop of the decoder. The fingerprints are read from the
  last to the first and pushed, so the bucket gets them in the encoded order.
\<close>

definition decode_bucket :: "cbor_item \<Rightarrow> elastic_bloom_filter \<Rightarrow> elastic_bloom_filter cres" where
  "decode_bucket it f =
     cbind (cbor_definite_array it) (\<lambda>be.
     cguard (length be \<ge> 2) (
     cbind (cbor_get_uint64 (be ! 0)) (\<lambda>bucket_index.
     cbind (cbor_get_uint64 (be ! 1)) (\<lambda>fp_count.
     cguard (of_nat (length be) = 2 + fp_count \<and> unat bucket_index < ebf_bucket_count f) (
     cbind (cmapM cbor_get_int (drop 2 be)) (\<lambda>fps.
     Ret (f\<lparr>ebf_buckets := (ebf_buckets f)[unat bucket_index :=
              fold (\<lambda>v b. bucket_insert b (ucast v)) (rev fps) (ebf_buckets f ! unat bucket_index)]\<rparr>)))))))"

fun decode_buckets :: "cbor_item list \<Rightarrow> elastic_bloom_filter \<Rightarrow> elastic_bloom_filter cres" where
  "decode_buckets [] f = Ret f"
| "decode_buckets (it # its) f = cbind (decode_bucket it f) (decode_buckets its)"

definition elastic_bloom_filter_decode :: "cbor_item \<Rightarrow> elastic_bloom_filter cres" where
  "elastic_bloom_filter_decode it =
     cbind (cbor_definite_array it) (\<lambda>elems.
     cguard (length elems \<ge> 8) (
     cbind (cbor_get_uint64 (elems ! 0)) (\<lambda>sz.
     cbind (cbor_get_int (elems ! 1)) (\<lambda>hash_count.
     cbind (cbor_get_int (elems ! 2)) (\<lambda>fp_bits.
     cbind (cbor_get_uint64 (elems ! 3)) (\<lambda>seed_a.
     cbind (cbor_get_uint64 (elems ! 4)) (\<lambda>seed_b.
     cbind (cbor_get_uint64 (elems ! 5)) (\<lambda>bitset_byte_len.
     cguard (cbor_isa_bytestring (elems ! 6)) (
     cbind (cbor_bytestring_bytes (elems ! 6)) (\<lambda>bits.
     cguard (of_nat (length bits) = bitset_byte_len) (
     cbind (cbor_get_uint64 (elems ! 7)) (\<lambda>num_occupied.
     cguard (of_nat (length elems) = 8 + num_occupied) (
     cbind (decode_buckets (take (unat num_occupied) (drop 8 elems))
              ((elastic_bloom_filter_create (unat sz) (ucast hash_count) (1 / 2) (ucast fp_bits))
                 \<lparr>ebf_seed_a := seed_a, ebf_seed_b := seed_b, ebf_bits := \<lparr>bs_data = bits\<rparr>\<rparr>)) (\<lambda>f.
     Ret (rebuild_bitset f)))))))))))))))"

section \<open>Round trip\<close>

text \<open>What the format carries: not \<open>omega\<close> (replaced by 0.5) and not \<open>count\<close>.\<close>

definition ebf_carried :: "elastic_bloom_filter \<Rightarrow> elastic_bloom_filter" where
  "ebf_carried f = f\<lparr>ebf_omega := 1 / 2, ebf_count := 0\<rparr>"

text \<open>Sizes and bucket lengths that fit \<open>size_t\<close>, as they do for any object in memory.\<close>

definition ebf_in_memory :: "elastic_bloom_filter \<Rightarrow> bool" where
  "ebf_in_memory f \<longleftrightarrow>
     ebf_wf f \<and> ebf_size f + 8 < 2 ^ 64
     \<and> (\<forall>i < ebf_size f. length (ebf_buckets f ! i) + 2 < 2 ^ 64)"

lemma fold_bucket_insert: "fold (\<lambda>v b. bucket_insert b (g v)) (rev vs) b = map g vs @ b"
  by (induction vs arbitrary: b) (auto simp: bucket_insert_def fold_append)

lemma cmapM_get_int_build: "cmapM cbor_get_int (map cbor_build_uint32 b) = Ret (map ucast b)"
  by (rule cmapM_map) simp

lemma decode_encode_bucket:
  assumes "i < ebf_bucket_count g" "ebf_bucket_count g < 2 ^ 64"
  shows "decode_bucket (encode_bucket f i) g =
    Ret (g\<lparr>ebf_buckets := (ebf_buckets g)[i := ebf_buckets f ! i @ ebf_buckets g ! i]\<rparr>)"
  using assms
  by (simp add: decode_bucket_def encode_bucket_def Let_def unat_of_nat_u64 cmapM_get_int_build
      fold_bucket_insert comp_def)

lemma decode_encode_buckets:
  assumes "\<And>i. i \<in> set is \<Longrightarrow> i < ebf_bucket_count g" "ebf_bucket_count g < 2 ^ 64"
  shows "decode_buckets (map (encode_bucket f) is) g =
    Ret (g\<lparr>ebf_buckets := fold (\<lambda>i bs. bs[i := ebf_buckets f ! i @ bs ! i]) is (ebf_buckets g)\<rparr>)"
  using assms by (induction "is" arbitrary: g) (simp_all add: decode_encode_bucket)

lemma nth_fold_upd:
  "distinct is \<Longrightarrow> (\<And>i. i \<in> set is \<Longrightarrow> i < length bs) \<Longrightarrow> j < length bs \<Longrightarrow>
   fold (\<lambda>i bs. bs[i := h i @ bs ! i]) is bs ! j = (if j \<in> set is then h j @ bs ! j else bs ! j)"
  by (induction "is" arbitrary: bs) (auto simp: nth_list_update)

lemma length_fold_upd [simp]:
  "length (fold (\<lambda>i bs. bs[i := h i @ bs ! i]) is bs) = length bs"
  by (induction "is" arbitrary: bs) auto

lemma fold_buckets_eq:
  assumes "length bs = n"
  shows "fold (\<lambda>i acc. acc[i := bs ! i @ acc ! i]) (filter (\<lambda>i. bs ! i \<noteq> []) [0..<n]) (replicate n []) = bs"
proof (rule nth_equalityI)
  fix j assume "j < length (fold (\<lambda>i acc. acc[i := bs ! i @ acc ! i]) (filter (\<lambda>i. bs ! i \<noteq> []) [0..<n]) (replicate n []))"
  then have j: "j < n" by simp
  have "distinct (filter (\<lambda>i. bs ! i \<noteq> []) [0..<n])" by simp
  from nth_fold_upd [OF this, of "replicate n []" j "(!) bs"] j
  show "fold (\<lambda>i acc. acc[i := bs ! i @ acc ! i]) (filter (\<lambda>i. bs ! i \<noteq> []) [0..<n]) (replicate n []) ! j = bs ! j"
    by auto
qed (simp add: assms)

lemma bitset_eqI:
  assumes "bitset_size a = bitset_size b" "\<And>i. bitset_get a i = bitset_get b i"
  shows "a = b"
proof -
  have "bs_data a ! j = bs_data b ! j" if "j < bitset_size a" for j
  proof (rule bit_word_eqI)
    fix n assume "n < LENGTH(8)"
    then show "bit (bs_data a ! j) n = bit (bs_data b ! j) n"
      using assms(2) [of "8 * j + n"] assms(1) that by (simp add: bitset_get_iff)
  qed
  then have "bs_data a = bs_data b"
    using assms(1) by (auto simp: bitset_size_def intro: nth_equalityI)
  then show ?thesis by simp
qed

lemma rebuild_wf_id: "ebf_wf f \<Longrightarrow> rebuild_bitset f = f"
proof -
  assume wf: "ebf_wf f"
  have "ebf_bits (rebuild_bitset f) = ebf_bits f"
    by (rule bitset_eqI) (simp_all add: ebf_wfD [OF wf])
  then show ?thesis by (simp add: rebuild_bitset_def)
qed

lemma elastic_decode_encode:
  assumes "ebf_in_memory f"
  shows "elastic_bloom_filter_decode (elastic_bloom_filter_encode f) = Ret (ebf_carried f)"
proof -
  have wf: "ebf_wf f" and sz: "ebf_size f + 8 < 2 ^ 64"
    using assms by (auto simp: ebf_in_memory_def)
  note w = ebf_wfD [OF wf]
  let ?occ = "filter (\<lambda>i. ebf_buckets f ! i \<noteq> []) [0..<ebf_size f]"
  let ?g = "(elastic_bloom_filter_create (ebf_size f) (ebf_hash_count f) (1 / 2) (ebf_fp_bits f))
      \<lparr>ebf_seed_a := ebf_seed_a f, ebf_seed_b := ebf_seed_b f, ebf_bits := \<lparr>bs_data = bs_data (ebf_bits f)\<rparr>\<rparr>"
  have occ: "length ?occ \<le> ebf_size f"
    using length_filter_le [of _ "[0..<ebf_size f]"] by simp
  have "decode_buckets (map (encode_bucket f) ?occ) ?g = Ret (?g\<lparr>ebf_buckets := ebf_buckets f\<rparr>)"
    using sz w(3) by (subst decode_encode_buckets)
      (auto simp: elastic_bloom_filter_create_def fold_buckets_eq)
  moreover have "?g\<lparr>ebf_buckets := ebf_buckets f\<rparr> = ebf_carried f"
    using w(2) by (simp add: elastic_bloom_filter_create_def ebf_carried_def)
  moreover have "rebuild_bitset (ebf_carried f) = ebf_carried f"
    by (rule rebuild_wf_id) (use wf in \<open>simp add: ebf_wf_def ebf_carried_def\<close>)
  ultimately show ?thesis
    using sz occ w(2)
    by (simp add: elastic_bloom_filter_decode_def elastic_bloom_filter_encode_def Let_def
        unat_of_nat_u64 bitset_size_def)
qed

interpretation ebf_codec: codec elastic_bloom_filter_encode elastic_bloom_filter_decode
  ebf_in_memory ebf_carried
  by unfold_locales (rule elastic_decode_encode)

section \<open>What an arbitrary item decodes to\<close>

lemma decode_bucket_fields:
  "decode_bucket it f = Ret g \<Longrightarrow>
     ebf_size g = ebf_size f \<and> ebf_bucket_count g = ebf_bucket_count f
     \<and> length (ebf_buckets g) = length (ebf_buckets f)"
  by (auto simp: decode_bucket_def)

lemma decode_buckets_fields:
  "decode_buckets its f = Ret g \<Longrightarrow>
     ebf_size g = ebf_size f \<and> ebf_bucket_count g = ebf_bucket_count f
     \<and> length (ebf_buckets g) = length (ebf_buckets f)"
  by (induction its arbitrary: f) (auto dest: decode_bucket_fields)

lemma elastic_decode_shape:
  assumes "elastic_bloom_filter_decode it = Ret f"
  shows "ebf_bucket_count f = ebf_size f" "length (ebf_buckets f) = ebf_size f"
    "bitset_size (ebf_bits f) = byte_size_of (ebf_size f)"
    "bitset_get (ebf_bits f) i \<longleftrightarrow> i < ebf_size f \<and> ebf_buckets f ! i \<noteq> []"
proof -
  obtain its sz hc fb sa sb bits g where
    g: "decode_buckets its ((elastic_bloom_filter_create sz hc (1 / 2) fb)
          \<lparr>ebf_seed_a := sa, ebf_seed_b := sb, ebf_bits := bits\<rparr>) = Ret g" "rebuild_bitset g = f"
    using assms by (auto simp: elastic_bloom_filter_decode_def)
  show "ebf_bucket_count f = ebf_size f" "length (ebf_buckets f) = ebf_size f"
    "bitset_size (ebf_bits f) = byte_size_of (ebf_size f)"
    "bitset_get (ebf_bits f) i \<longleftrightarrow> i < ebf_size f \<and> ebf_buckets f ! i \<noteq> []"
    using decode_buckets_fields [OF g(1)] g(2) by (auto simp: elastic_bloom_filter_create_def)
qed

section \<open>Properties\<close>

text \<open>
  Round trip of the wire format of a filter: decoding an encoded filter gives
  it back with \<open>omega\<close> 0.5 and \<open>count\<close> 0, the two fields the format does not carry;
  buckets keep their order and the bits are the same.
\<close>

theorem elastic_codec_roundtrip:
  assumes "ebf_in_memory f"
  shows "elastic_bloom_filter_decode (elastic_bloom_filter_encode f)
    = Ret (f\<lparr>ebf_omega := 1 / 2, ebf_count := 0\<rparr>)"
  using ebf_codec.dec_enc [OF assms] by (simp add: ebf_carried_def)

theorem elastic_codec_roundtrip_witness:
  "let f = snd (elastic_bloom_filter_add (\<lambda>d s. s * 9) (elastic_bloom_filter_create 4 2 (3 / 4) 8) (Some [1]))
   in elastic_bloom_filter_decode (elastic_bloom_filter_encode f) = Ret (f\<lparr>ebf_omega := 1 / 2, ebf_count := 0\<rparr>)
      \<and> f\<lparr>ebf_omega := 1 / 2, ebf_count := 0\<rparr> \<noteq> f"
proof -
  define f where "f = snd (elastic_bloom_filter_add (\<lambda>d s. s * 9) (elastic_bloom_filter_create 4 2 (3 / 4) 8) (Some [1]))"
  have "ebf_wf f" unfolding f_def by (intro add_result(1) ebf_wf_create) simp_all
  moreover have "ebf_size f = 4" "list_all (\<lambda>b. length b \<le> 2) (ebf_buckets f)" "ebf_count f = 1"
    unfolding f_def by code_simp+
  ultimately have "ebf_in_memory f" "ebf_count f = 1"
    using ebf_wfD(3) [of f] by (auto simp: ebf_in_memory_def list_all_length)
  then have "elastic_bloom_filter_decode (elastic_bloom_filter_encode f) = Ret (f\<lparr>ebf_omega := 1 / 2, ebf_count := 0\<rparr>)"
    "ebf_count (f\<lparr>ebf_omega := 1 / 2, ebf_count := 0\<rparr>) \<noteq> ebf_count f"
    using elastic_codec_roundtrip [of f] by simp_all
  then show ?thesis unfolding f_def Let_def by metis
qed

text \<open>
  Whatever a peer sends, a filter that decodes is consistent: one bucket per
  bit position, bit \<open>i\<close> set exactly when bucket \<open>i\<close> is not empty (the transmitted
  bits are not trusted), so a lookup in it reads allocated memory only.
\<close>

theorem elastic_decode_consistent:
  assumes "elastic_bloom_filter_decode it = Ret f"
  shows "ebf_bucket_count f = ebf_size f \<and> length (ebf_buckets f) = ebf_size f
    \<and> (\<forall>i. bitset_get (ebf_bits f) i \<longleftrightarrow> i < ebf_size f \<and> ebf_buckets f ! i \<noteq> [])
    \<and> (ebf_size f > 0 \<longrightarrow> snd (compute_hash_pair xxh f d i) < ebf_bucket_count f)"
  by (simp add: elastic_decode_shape [OF assms] compute_hash_pair_def Let_def)

theorem elastic_decode_consistent_witness:
  "\<exists>f. elastic_bloom_filter_decode (CBOR_ARRAY True
        [cbor_build_uint64 2, cbor_build_uint32 1, cbor_build_uint32 8, cbor_build_uint64 1,
         cbor_build_uint64 2, cbor_build_uint64 1, cbor_build_bytestring [255], cbor_build_uint64 1,
         CBOR_ARRAY True [cbor_build_uint64 1, cbor_build_uint64 1, cbor_build_uint32 7]]) = Ret f
     \<and> length (ebf_buckets f) = ebf_size f \<and> \<not> bitset_get (ebf_bits f) 0"
proof -
  let ?it = "CBOR_ARRAY True
        [cbor_build_uint64 2, cbor_build_uint32 1, cbor_build_uint32 8, cbor_build_uint64 1,
         cbor_build_uint64 2, cbor_build_uint64 1, cbor_build_bytestring [255], cbor_build_uint64 1,
         CBOR_ARRAY True [cbor_build_uint64 1, cbor_build_uint64 1, cbor_build_uint32 7]]"
  have "case elastic_bloom_filter_decode ?it of Ret f \<Rightarrow> ebf_buckets f ! 0 = [] | _ \<Rightarrow> False"
    by code_simp
  then obtain f where f: "elastic_bloom_filter_decode ?it = Ret f" and b: "ebf_buckets f ! 0 = []"
    by (cases "elastic_bloom_filter_decode ?it") simp_all
  show ?thesis
    using elastic_decode_consistent [OF f] b by (intro exI [of _ f]) (simp add: f)
qed

text \<open>
  A peer can make the decoder return a filter of size 0 that has hash
  functions (every lookup in it divides by zero), and an item whose integers are
  not 64 bits wide violates an assertion of the CBOR library instead of being
  rejected.
\<close>

theorem elastic_decode_unchecked:
  "(\<exists>f. elastic_bloom_filter_decode (CBOR_ARRAY True
        [cbor_build_uint64 0, cbor_build_uint32 3, cbor_build_uint32 8, cbor_build_uint64 1,
         cbor_build_uint64 2, cbor_build_uint64 0, cbor_build_bytestring [], cbor_build_uint64 0]) = Ret f
        \<and> ebf_size f = 0 \<and> ebf_hash_count f = 3)
   \<and> elastic_bloom_filter_decode (CBOR_ARRAY True
        [cbor_build_uint16 1024, cbor_build_uint32 3, cbor_build_uint32 8, cbor_build_uint64 1,
         cbor_build_uint64 2, cbor_build_uint64 0, cbor_build_bytestring [], cbor_build_uint64 0]) = Undef"
  by (simp add: elastic_bloom_filter_decode_def cbor_get_uint64_def cbor_build_uint16_def
      cbor_build_uint64_def)

end
