(* ===== verification/AttenuatedBloom.thy ===== *)
theory AttenuatedBloom
  imports ElasticCodec
begin

text \<open>
  The attenuated Bloom filter of \<open>src/Bloom/attenuated_bloom_filter.c\<close>: level \<open>i\<close>
  holds the topics reachable in \<open>i\<close> hops. Merging a neighbour's filter shifts it by
  one level. \<open>check\<close> returns the hop count it writes to \<open>out_hops\<close>, or None.
\<close>

record attenuated_bloom_filter =
  abf_level_count :: u32
  abf_levels :: "elastic_bloom_filter list"

definition attenuated_bloom_filter_create ::
  "u32 \<Rightarrow> nat \<Rightarrow> u32 \<Rightarrow> rat \<Rightarrow> u32 \<Rightarrow> attenuated_bloom_filter" where
  "attenuated_bloom_filter_create levels sz hash_count omega fp_bits =
     \<lparr>abf_level_count = levels,
      abf_levels = map (\<lambda>_. elastic_bloom_filter_create sz hash_count omega fp_bits) [0..<unat levels]\<rparr>"

definition attenuated_bloom_filter_subscribe ::
  "hash_fn \<Rightarrow> attenuated_bloom_filter \<Rightarrow> bytes option \<Rightarrow> int \<times> attenuated_bloom_filter" where
  "attenuated_bloom_filter_subscribe xxh abf topic =
     (case topic of
        None \<Rightarrow> (- 1, abf)
      | Some t \<Rightarrow>
          let (result, l0) = elastic_bloom_filter_add xxh (abf_levels abf ! 0) (Some t)
          in (result, abf\<lparr>abf_levels := (abf_levels abf)[0 := l0]\<rparr>))"

definition attenuated_bloom_filter_unsubscribe ::
  "hash_fn \<Rightarrow> attenuated_bloom_filter \<Rightarrow> bytes option \<Rightarrow> int \<times> attenuated_bloom_filter" where
  "attenuated_bloom_filter_unsubscribe xxh abf topic =
     (case topic of
        None \<Rightarrow> (- 1, abf)
      | Some t \<Rightarrow>
          let (result, l0) = elastic_bloom_filter_remove xxh (abf_levels abf ! 0) (Some t)
          in (result, abf\<lparr>abf_levels := (abf_levels abf)[0 := l0]\<rparr>))"

definition attenuated_bloom_filter_check ::
  "hash_fn \<Rightarrow> attenuated_bloom_filter \<Rightarrow> bytes option \<Rightarrow> nat option" where
  "attenuated_bloom_filter_check xxh abf topic =
     (case topic of
        None \<Rightarrow> None
      | Some t \<Rightarrow>
          find (\<lambda>level. elastic_bloom_filter_contains xxh (abf_levels abf ! level) (Some t))
            [0..<unat (abf_level_count abf)])"

definition attenuated_bloom_filter_merge ::
  "attenuated_bloom_filter \<Rightarrow> attenuated_bloom_filter \<Rightarrow> int \<times> attenuated_bloom_filter" where
  "attenuated_bloom_filter_merge dst src =
     (let max_levels = (if abf_level_count src < abf_level_count dst - 1
                        then abf_level_count src else abf_level_count dst - 1)
      in (0, dst\<lparr>abf_levels :=
               fold (\<lambda>i ls. ls[i + 1 := snd (elastic_bloom_filter_merge (ls ! (i + 1)) (abf_levels src ! i))])
                 [0..<unat max_levels] (abf_levels dst)\<rparr>))"

definition attenuated_bloom_filter_get_level :: "attenuated_bloom_filter \<Rightarrow> u32 \<Rightarrow> elastic_bloom_filter option" where
  "attenuated_bloom_filter_get_level abf level =
     (if level \<ge> abf_level_count abf then None else Some (abf_levels abf ! unat level))"

definition attenuated_bloom_filter_encode :: "attenuated_bloom_filter \<Rightarrow> cbor_item" where
  "attenuated_bloom_filter_encode abf =
     CBOR_ARRAY True
       [cbor_build_uint32 (abf_level_count abf),
        CBOR_ARRAY True
          (map (\<lambda>i. elastic_bloom_filter_encode (abf_levels abf ! i)) [0..<unat (abf_level_count abf)])]"

definition attenuated_bloom_filter_decode :: "cbor_item \<Rightarrow> attenuated_bloom_filter cres" where
  "attenuated_bloom_filter_decode it =
     cbind (cbor_definite_array it) (\<lambda>elems.
     cguard (length elems = 2) (
     cbind (cbor_get_int (elems ! 0)) (\<lambda>v.
     let level_count = (ucast v :: u32) in
     cbind (cbor_definite_array (elems ! 1)) (\<lambda>level_elems.
     cguard (length level_elems = unat level_count) (
     cbind (cmapM elastic_bloom_filter_decode level_elems) (\<lambda>levels.
     Ret \<lparr>abf_level_count = level_count, abf_levels = levels\<rparr>))))))"

section \<open>Invariant and levels\<close>

definition abf_wf :: "attenuated_bloom_filter \<Rightarrow> bool" where
  "abf_wf abf \<longleftrightarrow>
     abf_level_count abf \<noteq> 0 \<and> length (abf_levels abf) = unat (abf_level_count abf)
     \<and> list_all ebf_wf (abf_levels abf)"

lemma abf_wfD:
  assumes "abf_wf abf"
  shows "0 < length (abf_levels abf)" "length (abf_levels abf) = unat (abf_level_count abf)"
    "i < length (abf_levels abf) \<Longrightarrow> ebf_wf (abf_levels abf ! i)"
  using assms by (auto simp: abf_wf_def list_all_length unat_gt_0)

lemma abf_wf_create [wf_intros]:
  "levels \<noteq> 0 \<Longrightarrow> sz > 0 \<Longrightarrow> b \<le> 32 \<Longrightarrow> abf_wf (attenuated_bloom_filter_create levels sz k w b)"
  by (simp add: abf_wf_def attenuated_bloom_filter_create_def list_all_length ebf_wf_create)

lemma abf_wf_update:
  "abf_wf abf \<Longrightarrow> ebf_wf f \<Longrightarrow> abf_wf (abf\<lparr>abf_levels := (abf_levels abf)[i := f]\<rparr>)"
  by (cases "i < length (abf_levels abf)")
     (auto simp: abf_wf_def list_all_length nth_list_update list_update_beyond)

lemma subscribe_eq:
  "attenuated_bloom_filter_subscribe xxh abf (Some t) =
     (0, abf\<lparr>abf_levels := (abf_levels abf)[0 := snd (elastic_bloom_filter_add xxh (abf_levels abf ! 0) (Some t))]\<rparr>)"
  by (simp add: attenuated_bloom_filter_subscribe_def elastic_bloom_filter_add_def Let_def)

lemma unsubscribe_eq:
  "attenuated_bloom_filter_unsubscribe xxh abf (Some t) =
     (0, abf\<lparr>abf_levels := (abf_levels abf)[0 := snd (elastic_bloom_filter_remove xxh (abf_levels abf ! 0) (Some t))]\<rparr>)"
  by (simp add: attenuated_bloom_filter_unsubscribe_def elastic_bloom_filter_remove_def Let_def)

lemma abf_wf_subscribe [wf_intros]:
  "abf_wf abf \<Longrightarrow> abf_wf (snd (attenuated_bloom_filter_subscribe xxh abf topic))"
  by (cases topic)
     (auto simp: subscribe_eq attenuated_bloom_filter_subscribe_def [of _ _ None]
       intro!: abf_wf_update add_result(1) dest: abf_wfD(1,3))

lemma fold_levels:
  assumes "n < length ls"
  shows "length (fold (\<lambda>i ls. ls[i + 1 := g i (ls ! (i + 1))]) [0..<n] ls) = length ls
    \<and> (\<forall>j < length ls. fold (\<lambda>i ls. ls[i + 1 := g i (ls ! (i + 1))]) [0..<n] ls ! j =
          (if 0 < j \<and> j \<le> n then g (j - 1) (ls ! j) else ls ! j))"
  using assms by (induction n) (auto simp: nth_list_update less_Suc_eq_le)

lemma unat_max_levels:
  assumes "(a::u32) \<noteq> 0"
  shows "unat (if b < a - 1 then b else a - 1) = min (unat b) (unat a - 1)"
proof -
  have "unat (a - 1) = unat a - 1"
    using assms by (simp add: unat_minus_one)
  then show ?thesis by (simp add: word_less_nat_alt min_def)
qed

text \<open>Merging acts on level \<open>j > 0\<close> with level \<open>j - 1\<close> of the source, and leaves the rest.\<close>

lemma merge_levels:
  assumes "abf_wf dst" "abf_wf src"
  defines "r \<equiv> snd (attenuated_bloom_filter_merge dst src)"
  shows "abf_level_count r = abf_level_count dst" "length (abf_levels r) = length (abf_levels dst)"
    "j < length (abf_levels dst) \<Longrightarrow> abf_levels r ! j =
       (if 0 < j \<and> j \<le> length (abf_levels src)
        then snd (elastic_bloom_filter_merge (abf_levels dst ! j) (abf_levels src ! (j - 1)))
        else abf_levels dst ! j)"
proof -
  let ?n = "min (length (abf_levels src)) (length (abf_levels dst) - 1)"
  have n: "?n < length (abf_levels dst)" using abf_wfD(1) [OF assms(1)] by linarith
  have "r = dst\<lparr>abf_levels := fold (\<lambda>i ls. ls[i + 1 :=
      snd (elastic_bloom_filter_merge (ls ! (i + 1)) (abf_levels src ! i))]) [0..<?n] (abf_levels dst)\<rparr>"
    using assms(1) unat_max_levels [of "abf_level_count dst" "abf_level_count src"]
    by (simp add: r_def attenuated_bloom_filter_merge_def Let_def abf_wf_def
        abf_wfD(2) [OF assms(1)] abf_wfD(2) [OF assms(2)])
  with fold_levels [OF n, of "\<lambda>i l. snd (elastic_bloom_filter_merge l (abf_levels src ! i))"]
  show "abf_level_count r = abf_level_count dst" "length (abf_levels r) = length (abf_levels dst)"
    "j < length (abf_levels dst) \<Longrightarrow> abf_levels r ! j =
       (if 0 < j \<and> j \<le> length (abf_levels src)
        then snd (elastic_bloom_filter_merge (abf_levels dst ! j) (abf_levels src ! (j - 1)))
        else abf_levels dst ! j)"
    by auto
qed

lemma abf_wf_merge [wf_intros]:
  assumes "abf_wf dst" "abf_wf src"
  shows "abf_wf (snd (attenuated_bloom_filter_merge dst src))"
  using assms merge_levels [OF assms] abf_wfD(2,3) [OF assms(1)] abf_wfD(3) [OF assms(2)]
  by (auto simp: abf_wf_def list_all_length intro!: merge_wf)

section \<open>Lookups\<close>

lemma find_upt_Some_iff:
  "find P [0..<n] = Some i \<longleftrightarrow> i < n \<and> P i \<and> (\<forall>j < i. \<not> P j)"
  by (auto simp: find_Some_iff)

lemma find_upt_ex:
  assumes "i < n" "P i"
  shows "\<exists>j \<le> i. find P [0..<n] = Some j"
proof (cases "find P [0..<n]")
  case None
  with assms show ?thesis by (auto simp: find_None_iff)
next
  case (Some j)
  with assms have "j \<le> i" by (auto simp: find_upt_Some_iff not_less [symmetric])
  with Some show ?thesis by blast
qed

definition ebf_same_params :: "elastic_bloom_filter \<Rightarrow> elastic_bloom_filter \<Rightarrow> bool" where
  "ebf_same_params f g \<longleftrightarrow>
     ebf_size f = ebf_size g \<and> ebf_hash_count f = ebf_hash_count g
     \<and> ebf_seed_a f = ebf_seed_a g \<and> ebf_seed_b f = ebf_seed_b g"

lemma merge_params:
  "ebf_same_params (snd (elastic_bloom_filter_merge dst src)) dst"
  by (simp add: ebf_same_params_def elastic_bloom_filter_merge_def)

lemma contains_merge:
  assumes "ebf_wf dst" "ebf_wf src" "ebf_same_params dst src"
    and "elastic_bloom_filter_contains xxh src (Some t) \<or> elastic_bloom_filter_contains xxh dst (Some t)"
  shows "elastic_bloom_filter_contains xxh (snd (elastic_bloom_filter_merge dst src)) (Some t)"
proof -
  let ?r = "snd (elastic_bloom_filter_merge dst src)"
  have p: "ebf_hash xxh ?r = ebf_hash xxh dst" "ebf_hash xxh src = ebf_hash xxh dst"
    "ebf_size ?r = ebf_size dst" "ebf_size src = ebf_size dst"
    "ebf_hash_count ?r = ebf_hash_count dst" "ebf_hash_count src = ebf_hash_count dst"
    using merge_params [of dst src] assms(3) by (simp_all add: ebf_same_params_def ebf_hash_def fun_eq_iff)
  have "ebf_abs ?r = ebf_abs dst \<union> ebf_abs src"
    using assms(1,2) p(4) by (simp add: merge_abs)
  with assms(4) show ?thesis
    unfolding contains_abs [OF assms(1)] contains_abs [OF assms(2)] contains_abs [OF merge_wf [OF assms(1,2)]] p
    by blast
qed

lemma check_Some_iff:
  "attenuated_bloom_filter_check xxh abf (Some t) = Some h \<longleftrightarrow>
     h < unat (abf_level_count abf)
     \<and> elastic_bloom_filter_contains xxh (abf_levels abf ! h) (Some t)
     \<and> (\<forall>j < h. \<not> elastic_bloom_filter_contains xxh (abf_levels abf ! j) (Some t))"
  by (simp add: attenuated_bloom_filter_check_def find_upt_Some_iff)

lemma check_le:
  "h < unat (abf_level_count abf) \<Longrightarrow> elastic_bloom_filter_contains xxh (abf_levels abf ! h) (Some t)
     \<Longrightarrow> \<exists>h' \<le> h. attenuated_bloom_filter_check xxh abf (Some t) = Some h'"
  unfolding attenuated_bloom_filter_check_def by (simp add: find_upt_ex)

section \<open>Round trip\<close>

definition abf_in_memory :: "attenuated_bloom_filter \<Rightarrow> bool" where
  "abf_in_memory abf \<longleftrightarrow>
     length (abf_levels abf) = unat (abf_level_count abf) \<and> list_all ebf_in_memory (abf_levels abf)"

definition abf_carried :: "attenuated_bloom_filter \<Rightarrow> attenuated_bloom_filter" where
  "abf_carried abf = abf\<lparr>abf_levels := map ebf_carried (abf_levels abf)\<rparr>"

interpretation abf_codec: codec attenuated_bloom_filter_encode attenuated_bloom_filter_decode
  abf_in_memory abf_carried
proof
  fix x assume ok: "abf_in_memory x"
  then have "map (\<lambda>i. elastic_bloom_filter_encode (abf_levels x ! i)) [0..<unat (abf_level_count x)]
      = map elastic_bloom_filter_encode (abf_levels x)"
    by (auto simp: abf_in_memory_def intro: nth_equalityI)
  moreover have "cmapM elastic_bloom_filter_decode (map elastic_bloom_filter_encode (abf_levels x))
      = Ret (map ebf_carried (abf_levels x))"
    using ok by (intro cmapM_map ebf_codec.dec_enc) (auto simp: abf_in_memory_def list_all_iff)
  ultimately show "attenuated_bloom_filter_decode (attenuated_bloom_filter_encode x) = Ret (abf_carried x)"
    using ok by (simp add: attenuated_bloom_filter_decode_def attenuated_bloom_filter_encode_def
        abf_carried_def abf_in_memory_def Let_def)
qed

section \<open>Properties\<close>

text \<open>
  Merging a neighbour's filter shifts it by one hop: level \<open>j\<close> of the result
  stores what level \<open>j\<close> stored and what level \<open>j - 1\<close> of the neighbour stores
  (where the sizes agree), level 0 is unchanged, and the invariant is kept.
\<close>

theorem attenuated_merge_shifts:
  assumes "abf_wf dst" "abf_wf src" "j < length (abf_levels dst)"
  shows "abf_wf (snd (attenuated_bloom_filter_merge dst src))
    \<and> ebf_abs (abf_levels (snd (attenuated_bloom_filter_merge dst src)) ! j) =
        (if 0 < j \<and> j \<le> length (abf_levels src)
            \<and> ebf_size (abf_levels dst ! j) = ebf_size (abf_levels src ! (j - 1))
         then ebf_abs (abf_levels dst ! j) \<union> ebf_abs (abf_levels src ! (j - 1))
         else ebf_abs (abf_levels dst ! j))"
proof -
  have "ebf_wf (abf_levels dst ! j)" using assms(1,3) by (simp add: abf_wfD(3))
  moreover have "ebf_wf (abf_levels src ! (j - 1))" if "0 < j" "j \<le> length (abf_levels src)"
    using that assms(2) by (simp add: abf_wfD(3))
  ultimately show ?thesis
    using abf_wf_merge [OF assms(1,2)] merge_levels(3) [OF assms]
    by (simp add: merge_abs merge_mismatch)
qed

theorem attenuated_merge_shifts_witness:
  "let h = (\<lambda>d s. s); e = attenuated_bloom_filter_create 3 4 1 1 8;
       n = snd (attenuated_bloom_filter_subscribe h e (Some [1]))
   in ebf_abs (abf_levels (snd (attenuated_bloom_filter_merge e n)) ! 1)
        = ebf_abs (abf_levels e ! 1) \<union> ebf_abs (abf_levels n ! 0)"
proof -
  define h :: hash_fn where "h = (\<lambda>d s. s)"
  define e where "e = attenuated_bloom_filter_create 3 4 1 1 8"
  define n where "n = snd (attenuated_bloom_filter_subscribe h e (Some [1]))"
  have wf: "abf_wf e" "abf_wf n" unfolding n_def e_def by (intro wf_intros; simp)+
  have "length (abf_levels e) = 3" "length (abf_levels n) = 3"
    "ebf_size (abf_levels e ! 1) = ebf_size (abf_levels n ! 0)"
    unfolding n_def e_def h_def by code_simp+
  with attenuated_merge_shifts [OF wf, of 1] show ?thesis
    by (simp add: Let_def n_def e_def h_def)
qed



text \<open>
  The hop count of a lookup is the least level that reports the topic; there
  is none exactly when no level reports it.
\<close>

theorem attenuated_check_least:
  "case attenuated_bloom_filter_check xxh abf (Some t) of
     Some h \<Rightarrow> h = (LEAST l. l < unat (abf_level_count abf)
                       \<and> elastic_bloom_filter_contains xxh (abf_levels abf ! l) (Some t))
               \<and> h < unat (abf_level_count abf)
   | None \<Rightarrow> list_all (\<lambda>l. \<not> elastic_bloom_filter_contains xxh (abf_levels abf ! l) (Some t))
               [0..<unat (abf_level_count abf)]"
proof (cases "attenuated_bloom_filter_check xxh abf (Some t)")
  case None
  then have "list_all (\<lambda>l. \<not> elastic_bloom_filter_contains xxh (abf_levels abf ! l) (Some t))
      [0..<unat (abf_level_count abf)]"
    by (simp add: attenuated_bloom_filter_check_def find_None_iff list_all_iff)
  with None show ?thesis by simp
next
  case (Some h)
  then have "(LEAST l. l < unat (abf_level_count abf)
      \<and> elastic_bloom_filter_contains xxh (abf_levels abf ! l) (Some t)) = h"
    by (intro Least_equality) (auto simp: check_Some_iff not_less [symmetric])
  moreover have "h < unat (abf_level_count abf)" using Some by (simp add: check_Some_iff)
  ultimately show ?thesis by (simp add: Some)
qed

text \<open>
  Round trip of the gossiped filter: decoding an encoded attenuated filter
  gives every level back, up to \<open>omega\<close> and \<open>count\<close> of the levels.
\<close>

theorem attenuated_codec_roundtrip:
  assumes "abf_in_memory abf"
  shows "attenuated_bloom_filter_decode (attenuated_bloom_filter_encode abf)
    = Ret (abf\<lparr>abf_levels := map (\<lambda>f. f\<lparr>ebf_omega := 1 / 2, ebf_count := 0\<rparr>) (abf_levels abf)\<rparr>)"
  using abf_codec.dec_enc [OF assms] by (simp add: abf_carried_def ebf_carried_def [abs_def])

theorem attenuated_codec_roundtrip_witness:
  "let abf = attenuated_bloom_filter_create 2 4 1 (1 / 2) 8
   in attenuated_bloom_filter_decode (attenuated_bloom_filter_encode abf)
     = Ret (abf\<lparr>abf_levels := map (\<lambda>f. f\<lparr>ebf_omega := 1 / 2, ebf_count := 0\<rparr>) (abf_levels abf)\<rparr>)"
proof -
  have "ebf_in_memory (elastic_bloom_filter_create 4 1 (1 / 2) 8)"
    by (simp add: ebf_in_memory_def ebf_wf_create) (simp add: elastic_bloom_filter_create_def)
  then have "abf_in_memory (attenuated_bloom_filter_create 2 4 1 (1 / 2) 8)"
    by (simp add: abf_in_memory_def attenuated_bloom_filter_create_def list_all_length)
  then show ?thesis
    using attenuated_codec_roundtrip by (simp add: Let_def)
qed

text \<open>
  A merge reports success even when a level is skipped because its size
  differs: once a subscription has expanded the neighbour's level 0, none of its
  topics reach the merged filter and the result is still 0.
\<close>

theorem attenuated_merge_ignores_mismatch:
  "let x = (\<lambda>d s. s); e = attenuated_bloom_filter_create 3 4 1 (1 / 8) 8;
       n = snd (attenuated_bloom_filter_subscribe x e (Some [1]))
   in attenuated_bloom_filter_check x n (Some [1]) = Some 0
      \<and> attenuated_bloom_filter_merge e n = (0, e)"
  by code_simp

end
