(* ===== verification/Wire.thy ===== *)
theory Wire
  imports Prelude "HOL-Library.Product_Lexorder"
begin

text \<open>
  Network byte order. \<open>htonl\<close> followed by \<open>memcpy\<close> stores a 32 bit value most
  significant byte first on every host; \<open>memcpy\<close> followed by \<open>ntohl\<close> reads it
  back. \<open>write_uint64\<close> and \<open>read_uint64\<close> are the helpers of
  \<open>src/Network/Quasar/quasar_message_id.c\<close> and \<open>src/Workers/transaction_id.c\<close>.
\<close>

definition htonl_bytes :: "u32 \<Rightarrow> bytes" where
  "htonl_bytes w = [ucast (drop_bit 24 w), ucast (drop_bit 16 w), ucast (drop_bit 8 w), ucast w]"

definition ntohl_bytes :: "bytes \<Rightarrow> u32" where
  "ntohl_bytes bs = push_bit 24 (ucast (bs ! 0)) OR push_bit 16 (ucast (bs ! 1))
                    OR push_bit 8 (ucast (bs ! 2)) OR ucast (bs ! 3)"

definition htons_bytes :: "u16 \<Rightarrow> bytes" where
  "htons_bytes w = [ucast (drop_bit 8 w), ucast w]"

definition ntohs_bytes :: "bytes \<Rightarrow> u16" where
  "ntohs_bytes bs = push_bit 8 (ucast (bs ! 0)) OR ucast (bs ! 1)"

definition write_uint64 :: "u64 \<Rightarrow> bytes" where
  "write_uint64 v = htonl_bytes (ucast (drop_bit 32 v)) @ htonl_bytes (ucast (v AND 0xFFFFFFFF))"

definition read_uint64 :: "bytes \<Rightarrow> u64" where
  "read_uint64 bs = push_bit 32 (ucast (ntohl_bytes (take 4 bs))) OR ucast (ntohl_bytes (take 4 (drop 4 bs)))"

named_theorems wire_simps "network byte order round trips"

lemma length_wire [simp, wire_simps]:
  "length (htonl_bytes w) = 4" "length (htons_bytes h) = 2" "length (write_uint64 v) = 8"
  by (simp_all add: htonl_bytes_def htons_bytes_def write_uint64_def)

lemma ntohl_htonl [simp, wire_simps]: "ntohl_bytes (htonl_bytes w @ rest) = w"
proof (rule bit_word_eqI)
  fix n assume "n < LENGTH(32)"
  then consider "n < 8" | "8 \<le> n" "n < 16" | "16 \<le> n" "n < 24" | "24 \<le> n" "n < 32"
    by force
  then show "bit (ntohl_bytes (htonl_bytes w @ rest)) n = bit w n"
    by cases (auto simp: ntohl_bytes_def htonl_bytes_def bit_simps)
qed

lemma ntohs_htons [simp, wire_simps]: "ntohs_bytes (htons_bytes w @ rest) = w"
proof (rule bit_word_eqI)
  fix n assume "n < LENGTH(16)"
  then consider "n < 8" | "8 \<le> n" "n < 16"
    by force
  then show "bit (ntohs_bytes (htons_bytes w @ rest)) n = bit w n"
    by cases (auto simp: ntohs_bytes_def htons_bytes_def bit_simps)
qed

lemma ntohl_htonl_exact [simp, wire_simps]: "ntohl_bytes (htonl_bytes w) = w"
  using ntohl_htonl [of w "[]"] by simp

lemma ntohs_htons_exact [simp, wire_simps]: "ntohs_bytes (htons_bytes w) = w"
  using ntohs_htons [of w "[]"] by simp

lemma join_halves:
  "push_bit 32 (ucast (ucast (drop_bit 32 v) :: u32)) OR ucast (ucast (v AND 0xFFFFFFFF) :: u32) = (v::u64)"
  (is "?l = v")
proof (rule bit_word_eqI)
  fix n assume n: "n < LENGTH(64)"
  have m: "(0xFFFFFFFF :: u64) = mask 32" by (simp add: mask_eq_exp_minus_1)
  show "bit ?l n = bit v n"
    unfolding m using n by (cases "n < 32") (auto simp: bit_simps)
qed

lemma read_write_uint64 [simp, wire_simps]: "read_uint64 (write_uint64 v @ rest) = v"
  by (simp add: read_uint64_def write_uint64_def join_halves)

lemma read_write_uint64_exact [simp, wire_simps]: "read_uint64 (write_uint64 v) = v"
  using read_write_uint64 [of v "[]"] by simp

section \<open>Object representations\<close>

text \<open>
  \<open>memcpy\<close> of an integer object without byte order conversion copies its bytes in
  the order of the host, which is little-endian on the supported platforms.
\<close>

definition mem_u16 :: "u16 \<Rightarrow> bytes" where
  "mem_u16 w = [ucast w, ucast (drop_bit 8 w)]"

definition mem_u32 :: "u32 \<Rightarrow> bytes" where
  "mem_u32 w = [ucast w, ucast (drop_bit 8 w), ucast (drop_bit 16 w), ucast (drop_bit 24 w)]"

definition mem_u64 :: "u64 \<Rightarrow> bytes" where
  "mem_u64 w = mem_u32 (ucast w) @ mem_u32 (ucast (drop_bit 32 w))"

definition of_mem_u16 :: "bytes \<Rightarrow> u16" where
  "of_mem_u16 bs = ucast (bs ! 0) OR push_bit 8 (ucast (bs ! 1))"

definition of_mem_u32 :: "bytes \<Rightarrow> u32" where
  "of_mem_u32 bs = ucast (bs ! 0) OR push_bit 8 (ucast (bs ! 1))
                   OR push_bit 16 (ucast (bs ! 2)) OR push_bit 24 (ucast (bs ! 3))"

definition of_mem_u64 :: "bytes \<Rightarrow> u64" where
  "of_mem_u64 bs = ucast (of_mem_u32 (take 4 bs)) OR push_bit 32 (ucast (of_mem_u32 (take 4 (drop 4 bs))))"

lemma length_mem [simp, wire_simps]:
  "length (mem_u16 h) = 2" "length (mem_u32 w) = 4" "length (mem_u64 v) = 8"
  by (simp_all add: mem_u16_def mem_u32_def mem_u64_def)

lemma of_mem_u32_mem [simp, wire_simps]: "of_mem_u32 (mem_u32 w @ rest) = w"
proof (rule bit_word_eqI)
  fix n assume "n < LENGTH(32)"
  then consider "n < 8" | "8 \<le> n" "n < 16" | "16 \<le> n" "n < 24" | "24 \<le> n" "n < 32"
    by force
  then show "bit (of_mem_u32 (mem_u32 w @ rest)) n = bit w n"
    by cases (auto simp: of_mem_u32_def mem_u32_def bit_simps)
qed

lemma of_mem_u16_mem [simp, wire_simps]: "of_mem_u16 (mem_u16 w @ rest) = w"
proof (rule bit_word_eqI)
  fix n assume "n < LENGTH(16)"
  then consider "n < 8" | "8 \<le> n" "n < 16"
    by force
  then show "bit (of_mem_u16 (mem_u16 w @ rest)) n = bit w n"
    by cases (auto simp: of_mem_u16_def mem_u16_def bit_simps)
qed

lemma of_mem_exact [simp, wire_simps]: "of_mem_u32 (mem_u32 w) = w" "of_mem_u16 (mem_u16 h) = h"
  using of_mem_u32_mem [of w "[]"] of_mem_u16_mem [of h "[]"] by simp_all

lemma of_mem_u64_mem [simp, wire_simps]: "of_mem_u64 (mem_u64 v @ rest) = v"
proof (rule bit_word_eqI)
  fix n assume n: "n < LENGTH(64)"
  show "bit (of_mem_u64 (mem_u64 v @ rest)) n = bit v n"
    using n by (cases "n < 32") (auto simp: of_mem_u64_def mem_u64_def bit_simps)
qed

lemma of_mem_u64_exact [simp, wire_simps]: "of_mem_u64 (mem_u64 v) = v"
  using of_mem_u64_mem [of v "[]"] by simp

lemma mem_inj [simp]:
  "mem_u16 a = mem_u16 b \<longleftrightarrow> a = b" "mem_u32 c = mem_u32 d \<longleftrightarrow> c = d" "mem_u64 e = mem_u64 f \<longleftrightarrow> e = f"
  by (metis of_mem_exact(2), metis of_mem_exact(1), metis of_mem_u64_exact)

text \<open>Arrays of integers copied as a whole, and reading them back.\<close>

fun chunk :: "nat \<Rightarrow> nat \<Rightarrow> bytes \<Rightarrow> bytes list" where
  "chunk k 0 bs = []"
| "chunk k (Suc n) bs = take k bs # chunk k n (drop k bs)"

lemma chunk_concat:
  "(\<And>x. x \<in> set xs \<Longrightarrow> length (f x) = k) \<Longrightarrow>
   chunk k (length xs) (concat (map f xs) @ rest) = map f xs"
  by (induction xs) auto

lemma length_concat_const:
  "(\<And>x. x \<in> set xs \<Longrightarrow> length (f x) = k) \<Longrightarrow> length (concat (map f xs)) = k * length xs"
  by (induction xs) auto

end
