(* ===== verification/MessageId.thy ===== *)
theory MessageId
  imports Wire Cbor
begin

text \<open>
  Message identifiers (\<open>src/Network/Quasar/quasar_message_id.c\<close>) and transaction
  identifiers (\<open>src/Workers/transaction_id.c\<close>): a timestamp of the monotonic clock
  and the value of a global atomic counter. The clock reading is an argument of
  the generator, the counter is its state.
\<close>

record quasar_message_id =
  mid_time :: u64
  mid_nanos :: u64
  mid_count :: u64

definition quasar_message_id_get_next :: "u64 \<times> u64 \<Rightarrow> u64 \<Rightarrow> quasar_message_id \<times> u64" where
  "quasar_message_id_get_next ts g_message_id_count =
     (\<lparr>mid_time = fst ts, mid_nanos = snd ts, mid_count = g_message_id_count\<rparr>, g_message_id_count + 1)"

definition quasar_message_id_compare :: "quasar_message_id \<Rightarrow> quasar_message_id \<Rightarrow> int" where
  "quasar_message_id_compare a b =
     (if mid_time a > mid_time b then 1
      else if mid_time a < mid_time b then - 1
      else if mid_nanos a > mid_nanos b then 1
      else if mid_nanos a < mid_nanos b then - 1
      else if mid_count a > mid_count b then 1
      else if mid_count a < mid_count b then - 1
      else 0)"

definition quasar_message_id_serialize :: "quasar_message_id \<Rightarrow> bytes" where
  "quasar_message_id_serialize m =
     write_uint64 (mid_time m) @ write_uint64 (mid_nanos m) @ write_uint64 (mid_count m)"

definition quasar_message_id_deserialize :: "bytes \<Rightarrow> quasar_message_id" where
  "quasar_message_id_deserialize buf =
     \<lparr>mid_time = read_uint64 buf, mid_nanos = read_uint64 (drop 8 buf), mid_count = read_uint64 (drop 16 buf)\<rparr>"

record transaction_id =
  txn_time :: u64
  txn_nanos :: u64
  txn_count :: u64

text \<open>The globals \<open>g_global_count\<close> and \<open>g_current_txn_id\<close>.\<close>

record txn_state =
  g_global_count :: u64
  g_current_txn_id :: transaction_id

definition transaction_id_get_next :: "u64 \<times> u64 \<Rightarrow> txn_state \<Rightarrow> transaction_id \<times> txn_state" where
  "transaction_id_get_next ts st =
     (\<lparr>txn_time = fst ts, txn_nanos = snd ts, txn_count = g_global_count st\<rparr>,
      st\<lparr>g_global_count := g_global_count st + 1\<rparr>)"

definition transaction_id_compare :: "transaction_id \<Rightarrow> transaction_id \<Rightarrow> int" where
  "transaction_id_compare id1 id2 =
     (if txn_time id1 > txn_time id2 then 1
      else if txn_time id1 < txn_time id2 then - 1
      else if txn_nanos id1 > txn_nanos id2 then 1
      else if txn_nanos id1 < txn_nanos id2 then - 1
      else if txn_count id1 > txn_count id2 then 1
      else if txn_count id1 < txn_count id2 then - 1
      else 0)"

definition transaction_id_serialize :: "transaction_id \<Rightarrow> bytes" where
  "transaction_id_serialize m =
     write_uint64 (txn_time m) @ write_uint64 (txn_nanos m) @ write_uint64 (txn_count m)"

definition transaction_id_deserialize :: "bytes \<Rightarrow> transaction_id" where
  "transaction_id_deserialize buf =
     \<lparr>txn_time = read_uint64 buf, txn_nanos = read_uint64 (drop 8 buf), txn_count = read_uint64 (drop 16 buf)\<rparr>"

text \<open>
  \<open>transaction_id_advance_to\<close>: the compare-and-swap loop as its last attempt, on
  the counter value that attempt sees. An attempt that fails because another
  thread moved the counter changes nothing and is retried.
\<close>

definition TXN_ID_BATCH_SIZE :: u64 where
  "TXN_ID_BATCH_SIZE = 1000"

definition transaction_id_advance_to :: "transaction_id \<Rightarrow> txn_state \<Rightarrow> txn_state" where
  "transaction_id_advance_to target st =
     (let new_count = txn_count target + TXN_ID_BATCH_SIZE
      in if new_count > g_global_count st
         then st\<lparr>g_global_count := new_count, g_current_txn_id := target\<rparr>
         else st)"

section \<open>Order and wire format\<close>

interpretation mid_cmp: total_comparator quasar_message_id_compare
proof (rule total_comparator_cmp_key [of "\<lambda>m::quasar_message_id. (mid_time m, mid_nanos m, mid_count m)"])
  show "inj (\<lambda>m::quasar_message_id. (mid_time m, mid_nanos m, mid_count m))"
    by (rule injI, case_tac x, case_tac y) simp
qed (auto simp: quasar_message_id_compare_def cmp_key_def)

interpretation txn_cmp: total_comparator transaction_id_compare
proof (rule total_comparator_cmp_key [of "\<lambda>m::transaction_id. (txn_time m, txn_nanos m, txn_count m)"])
  show "inj (\<lambda>m::transaction_id. (txn_time m, txn_nanos m, txn_count m))"
    by (rule injI, case_tac x, case_tac y) simp
qed (auto simp: transaction_id_compare_def cmp_key_def)

lemma length_message_id_serialize [simp]: "length (quasar_message_id_serialize m) = 24"
  by (simp add: quasar_message_id_serialize_def)

lemma message_id_deserialize_serialize [simp]:
  "quasar_message_id_deserialize (quasar_message_id_serialize m @ rest) = m"
  by (simp add: quasar_message_id_deserialize_def quasar_message_id_serialize_def)

lemma transaction_id_deserialize_serialize [simp]:
  "transaction_id_deserialize (transaction_id_serialize m @ rest) = m"
  by (simp add: transaction_id_deserialize_def transaction_id_serialize_def)

interpretation mid_codec: codec quasar_message_id_serialize
  "\<lambda>bs. Ret (quasar_message_id_deserialize bs)" "\<lambda>_. True" id
  using message_id_deserialize_serialize [of _ "[]"] by unfold_locales simp

interpretation txn_codec: codec transaction_id_serialize
  "\<lambda>bs. Ret (transaction_id_deserialize bs)" "\<lambda>_. True" id
  using transaction_id_deserialize_serialize [of _ "[]"] by unfold_locales simp

section \<open>Generation\<close>

text \<open>A run of the generator: one identifier per clock reading.\<close>

fun message_ids :: "(u64 \<times> u64) list \<Rightarrow> u64 \<Rightarrow> quasar_message_id list" where
  "message_ids [] c = []"
| "message_ids (ts # tss) c =
     (let (m, c') = quasar_message_id_get_next ts c in m # message_ids tss c')"

lemma message_ids_count:
  "map mid_count (message_ids tss c) = map (\<lambda>i. c + of_nat i) [0..<length tss]"
proof (induction tss arbitrary: c)
  case (Cons ts tss)
  have "[0..<Suc (length tss)] = 0 # map Suc [0..<length tss]"
    by (simp add: map_Suc_upt upt_conv_Cons del: upt_Suc)
  with Cons show ?case
    by (simp add: quasar_message_id_get_next_def comp_def algebra_simps del: upt_Suc)
qed simp

lemma inj_on_of_nat_u64: "n \<le> 2 ^ 64 \<Longrightarrow> inj_on (\<lambda>i. (c::u64) + of_nat i) {0..<n}"
proof (rule inj_onI)
  fix i j assume n: "n \<le> 2 ^ 64" "i \<in> {0..<n}" "j \<in> {0..<n}" and eq: "c + of_nat i = c + of_nat j"
  then have "unat (of_nat i :: u64) = unat (of_nat j :: u64)" by simp
  then show "i = j" using n by (simp add: unat_of_nat_u64)
qed

lemma message_ids_time:
  "map (\<lambda>m. (mid_time m, mid_nanos m)) (message_ids tss c) = tss"
  by (induction tss arbitrary: c) (auto simp: quasar_message_id_get_next_def)

lemma length_message_ids [simp]: "length (message_ids tss c) = length tss"
  using arg_cong [OF message_ids_time [of tss c], of length] by simp

lemma message_ids_nth:
  assumes "i < length tss"
  shows "mid_count (message_ids tss c ! i) = c + of_nat i"
    "(mid_time (message_ids tss c ! i), mid_nanos (message_ids tss c ! i)) = tss ! i"
  using assms arg_cong [OF message_ids_count [of tss c], of "\<lambda>xs. xs ! i"]
    arg_cong [OF message_ids_time [of tss c], of "\<lambda>xs. xs ! i"] by simp_all

lemma compare_less_iff:
  "quasar_message_id_compare a b < 0 \<longleftrightarrow>
     (mid_time a, mid_nanos a) < (mid_time b, mid_nanos b)
     \<or> (mid_time a, mid_nanos a) = (mid_time b, mid_nanos b) \<and> mid_count a < mid_count b"
  by (auto simp: quasar_message_id_compare_def)

section \<open>Properties\<close>

text \<open>
  C1. Message identifiers are unique: whatever the clock readings, up to
  \<open>2 ^ 64\<close> consecutive identifiers of a node are pairwise different.
\<close>

theorem message_ids_unique:
  assumes "length tss \<le> 2 ^ 64"
  shows "distinct (message_ids tss c)"
proof -
  have "distinct (map mid_count (message_ids tss c))"
    using inj_on_of_nat_u64 [OF assms, of c] by (simp add: message_ids_count distinct_map)
  then show ?thesis by (simp only: distinct_map)
qed

theorem message_ids_unique_witness: "distinct (message_ids [(5, 1), (5, 1), (4, 9)] (- 1))"
  by (rule message_ids_unique) simp

text \<open>
  Message identifiers are generated in increasing order while the clock does
  not go backwards and the counter does not wrap.
\<close>

theorem message_ids_increasing:
  assumes "sorted tss" "unat c + length tss \<le> 2 ^ 64"
  shows "sorted_wrt (\<lambda>a b. quasar_message_id_compare a b < 0) (message_ids tss c)"
proof -
  have "quasar_message_id_compare (message_ids tss c ! i) (message_ids tss c ! j) < 0"
    if ij: "i < j" "j < length tss" for i j
  proof -
    have "tss ! i \<le> tss ! j" using assms(1) ij by (simp add: sorted_nth_mono)
    moreover have "unat (c + of_nat k) = unat c + k" if "k < length tss" for k
      using that assms(2) by (subst unat_add_lem [THEN iffD1]) (simp_all add: unat_of_nat_u64)
    then have "c + of_nat i < c + of_nat j" using ij by (simp add: word_less_nat_alt)
    ultimately show ?thesis
      using message_ids_nth [of i tss c] message_ids_nth [of j tss c] ij
      by (simp add: compare_less_iff) (metis le_neq_trans)
  qed
  then show ?thesis by (simp add: sorted_wrt_iff_nth_less)
qed

theorem message_ids_increasing_witness:
  "sorted_wrt (\<lambda>a b. quasar_message_id_compare a b < 0) (message_ids [(1, 5), (1, 5), (2, 0)] 7)"
  by (rule message_ids_increasing) simp_all

text \<open>
  Round trip of message identifiers: the 24 serialized bytes determine the
  identifier, whatever follows them in the packet.
\<close>

theorem message_id_roundtrip:
  "length (quasar_message_id_serialize m) = 24
   \<and> quasar_message_id_deserialize (quasar_message_id_serialize m @ rest) = m"
  by simp

text \<open>
  After advancing to a recovered transaction identifier, the next generated
  identifier has a larger counter than the recovered one, and the counter never
  goes back.
\<close>

theorem transaction_id_advance:
  assumes "unat (txn_count target) + 1000 < 2 ^ 64"
  shows "txn_count target < txn_count (fst (transaction_id_get_next ts (transaction_id_advance_to target st)))
    \<and> g_global_count st \<le> g_global_count (transaction_id_advance_to target st)"
proof -
  have "unat (txn_count target + 1000) = unat (txn_count target) + 1000"
    using assms by (subst unat_add_lem [THEN iffD1]) simp_all
  then have "txn_count target < txn_count target + 1000" by (simp add: word_less_nat_alt)
  then show ?thesis
    by (auto simp: transaction_id_get_next_def transaction_id_advance_to_def TXN_ID_BATCH_SIZE_def Let_def)
qed

theorem transaction_id_advance_witness:
  "txn_count \<lparr>txn_time = 1, txn_nanos = 2, txn_count = 41\<rparr>
     < txn_count (fst (transaction_id_get_next (1, 3) (transaction_id_advance_to
         \<lparr>txn_time = 1, txn_nanos = 2, txn_count = 41\<rparr>
         \<lparr>g_global_count = 7, g_current_txn_id = \<lparr>txn_time = 0, txn_nanos = 0, txn_count = 0\<rparr>\<rparr>)))"
  using transaction_id_advance [of "\<lparr>txn_time = 1, txn_nanos = 2, txn_count = 41\<rparr>" "(1, 3)"] by simp

end
