(* ===== verification/Base58.thy ===== *)
theory Base58
  imports Prelude
begin

text \<open>
  Base58 (\<open>src/Util/base58.c\<close>): conversion between byte strings and the Bitcoin
  alphabet through a little-endian big integer. The array and its length
  \<open>bigint_len\<close> are one list of bytes, and \<open>uint32_t\<close> intermediate values are \<open>nat\<close>
  (they stay below \<open>2 ^ 17\<close>). Characters are bytes.
\<close>

definition BASE58_ALPHABET :: bytes where
  "BASE58_ALPHABET = map (\<lambda>c. of_nat (of_char c))
     ''123456789ABCDEFGHJKLMNPQRSTUVWXYZabcdefghijkmnopqrstuvwxyz''"

text \<open>\<open>BASE58_MAP\<close> lists the position of every character of the alphabet, -1 for the others.\<close>

definition BASE58_MAP :: "byte \<Rightarrow> nat option" where
  "BASE58_MAP c = find_index (\<lambda>a. a = c) BASE58_ALPHABET"

definition BIGINT_SIZE :: nat where
  "BIGINT_SIZE = 200"

text \<open>The trailing \<open>while (carry > 0)\<close> loop of \<open>bigint_multiply\<close> and \<open>bigint_add\<close>.\<close>

fun push_carry :: "nat \<Rightarrow> bytes" where
  "push_carry carry = (if carry > 0 then of_nat (carry mod 256) # push_carry (carry div 256) else [])"

declare push_carry.simps [simp del]

fun bigint_multiply :: "bytes \<Rightarrow> nat \<Rightarrow> nat \<Rightarrow> bytes" where
  "bigint_multiply [] factor carry = push_carry carry"
| "bigint_multiply (b # bs) factor carry =
     (let v = unat b * factor + carry
      in of_nat (v mod 256) # bigint_multiply bs factor (v div 256))"

fun bigint_add :: "bytes \<Rightarrow> nat \<Rightarrow> bytes" where
  "bigint_add [] carry = push_carry carry"
| "bigint_add (b # bs) carry =
     (if carry > 0 then
        let v = unat b + carry in of_nat (v mod 256) # bigint_add bs (v div 256)
      else b # bs)"

text \<open>
  The division loop of \<open>bigint_divmod\<close> runs from the most significant byte, so it
  recurses over the reversed list: quotient bytes and remainder.
\<close>

fun divmod_loop :: "bytes \<Rightarrow> nat \<Rightarrow> nat \<Rightarrow> bytes \<times> nat" where
  "divmod_loop [] divisor remainder = ([], remainder)"
| "divmod_loop (b # bs) divisor remainder =
     (let v = remainder * 256 + unat b;
          (q, r) = divmod_loop bs divisor (v mod divisor)
      in (of_nat (v div divisor) # q, r))"

definition bigint_divmod :: "bytes \<Rightarrow> nat \<Rightarrow> nat \<times> bytes" where
  "bigint_divmod num divisor =
     (let (q, r) = divmod_loop (rev num) divisor 0
      in (r, rev (dropWhile (\<lambda>b. b = 0) q)))"

section \<open>Values\<close>

fun le_value :: "nat \<Rightarrow> nat list \<Rightarrow> nat" where
  "le_value base [] = 0"
| "le_value base (d # ds) = d + base * le_value base ds"

abbreviation bigint_value :: "bytes \<Rightarrow> nat" where
  "bigint_value bs \<equiv> le_value 256 (map unat bs)"

lemma unat_of_nat_mod_256 [simp]: "unat (of_nat (v mod 256) :: byte) = v mod 256"
  by (simp add: unat_of_nat)

lemma unat_of_nat_byte: "v < 256 \<Longrightarrow> unat (of_nat v :: byte) = v"
  by (simp add: unat_of_nat)

lemma unat_byte_less: "unat (b::byte) < 256"
  using unsigned_less [of b] by simp

lemma push_carry_value: "bigint_value (push_carry c) = c"
proof (induction c rule: push_carry.induct)
  case (1 carry)
  then show ?case
    by (subst push_carry.simps) (simp add: mod_mult_div_eq)
qed

lemma bigint_multiply_value: "bigint_value (bigint_multiply bs f c) = bigint_value bs * f + c"
proof (induction bs f c rule: bigint_multiply.induct)
  case (2 b bs factor carry)
  let ?v = "unat b * factor + carry"
  have "bigint_value (bigint_multiply (b # bs) factor carry)
      = ?v mod 256 + 256 * (bigint_value bs * factor + ?v div 256)"
    using 2 by (simp add: Let_def)
  also have "\<dots> = ?v + 256 * (bigint_value bs * factor)"
    using mod_mult_div_eq [of ?v 256] by (simp add: algebra_simps)
  finally show ?case by (simp add: algebra_simps)
qed (simp add: push_carry_value)

lemma bigint_add_value: "bigint_value (bigint_add bs c) = bigint_value bs + c"
proof (induction bs c rule: bigint_add.induct)
  case (2 b bs carry)
  show ?case
  proof (cases "carry > 0")
    case True
    let ?v = "unat b + carry"
    have "bigint_value (bigint_add (b # bs) carry) = ?v mod 256 + 256 * (bigint_value bs + ?v div 256)"
      using 2 True by (simp add: Let_def)
    then show ?thesis
      using mod_mult_div_eq [of ?v 256] by (simp add: algebra_simps)
  qed simp
qed (simp add: push_carry_value)

lemma le_value_append: "le_value b (xs @ ys) = le_value b xs + b ^ length xs * le_value b ys"
  by (induction xs) (auto simp: algebra_simps)

lemma le_value_pos: "xs \<noteq> [] \<Longrightarrow> last xs \<noteq> 0 \<Longrightarrow> 0 < b \<Longrightarrow> le_value b xs > 0"
  by (induction xs) (auto split: if_splits)

lemma bigint_value_last: "bs \<noteq> [] \<Longrightarrow> last bs \<noteq> 0 \<Longrightarrow> bigint_value bs > 0"
  by (induction bs) (auto simp: unat_gt_0 split: if_splits)

text \<open>The division loop computes quotient and remainder of the value read so far.\<close>

lemma divmod_loop_correct:
  assumes "0 < divisor" "divisor \<le> 256" "r < divisor" "divmod_loop bs divisor r = (q, r')"
  shows "length q = length bs \<and> r' < divisor
    \<and> r * 256 ^ length bs + bigint_value (rev bs) = bigint_value (rev q) * divisor + r'"
  using assms
proof (induction bs arbitrary: r q r')
  case (Cons b bs)
  define v where "v = r * 256 + unat b"
  obtain q2 where q: "q = of_nat (v div divisor) # q2" "divmod_loop bs divisor (v mod divisor) = (q2, r')"
    using Cons.prems(4) by (auto simp: v_def Let_def split: prod.splits)
  have IH: "length q2 = length bs \<and> r' < divisor
      \<and> (v mod divisor) * 256 ^ length bs + bigint_value (rev bs) = bigint_value (rev q2) * divisor + r'"
    using Cons.IH [OF assms(1,2) _ q(2)] assms(1) by simp
  have "unat b < 256" by (rule unat_byte_less)
  then have "v < divisor * 256" using Cons.prems(3) unfolding v_def by linarith
  then have vq: "unat (of_nat (v div divisor) :: byte) = v div divisor"
    by (intro unat_of_nat_byte) (simp add: less_mult_imp_div_less mult.commute)
  have "r * 256 ^ length (b # bs) + bigint_value (rev (b # bs))
      = v * 256 ^ length bs + bigint_value (rev bs)"
    by (simp add: v_def le_value_append algebra_simps)
  also have "\<dots> = (v div divisor) * divisor * 256 ^ length bs
      + ((v mod divisor) * 256 ^ length bs + bigint_value (rev bs))"
    by (simp only: distrib_right [symmetric] add.assoc [symmetric] div_mult_mod_eq)
  also have "\<dots> = bigint_value (rev q) * divisor + r'"
    using IH by (simp add: q(1) le_value_append vq algebra_simps)
  finally show ?case using IH q(1) by simp
qed simp

lemma dropWhile_zero_value: "bigint_value (rev (dropWhile (\<lambda>b. b = 0) q)) = bigint_value (rev q)"
  by (induction q) (auto simp: le_value_append)

lemma bigint_divmod_correct:
  assumes "0 < divisor" "divisor \<le> 256"
  shows "fst (bigint_divmod num divisor) = bigint_value num mod divisor"
    "bigint_value (snd (bigint_divmod num divisor)) = bigint_value num div divisor"
    "snd (bigint_divmod num divisor) \<noteq> [] \<Longrightarrow> last (snd (bigint_divmod num divisor)) \<noteq> 0"
proof -
  obtain q r where qr: "divmod_loop (rev num) divisor 0 = (q, r)" by fastforce
  have c: "r < divisor" "bigint_value num = bigint_value (rev q) * divisor + r"
    using divmod_loop_correct [OF assms _ qr] assms(1) by simp_all
  have eq: "bigint_divmod num divisor = (r, rev (dropWhile (\<lambda>b. b = 0) q))"
    by (simp add: bigint_divmod_def qr)
  show "fst (bigint_divmod num divisor) = bigint_value num mod divisor"
    "bigint_value (snd (bigint_divmod num divisor)) = bigint_value num div divisor"
    using c assms(1) by (simp_all add: eq dropWhile_zero_value)
  show "snd (bigint_divmod num divisor) \<noteq> [] \<Longrightarrow> last (snd (bigint_divmod num divisor)) \<noteq> 0"
    using hd_dropWhile [of "\<lambda>b. b = 0" q] by (auto simp: eq last_rev)
qed

text \<open>
  The digit extraction loops \<open>while (bigint_len > 0)\<close> of the encoder (divisor 58)
  and the decoder (divisor 256), least significant digit first. Other divisors do
  not occur.
\<close>

function bigint_digits :: "nat \<Rightarrow> bytes \<Rightarrow> nat list" where
  "bigint_digits divisor num =
     (if num = [] \<or> divisor < 2 \<or> 256 < divisor then []
      else fst (bigint_divmod num divisor) # bigint_digits divisor (snd (bigint_divmod num divisor)))"
  by pat_completeness auto
termination
proof (relation "measure (\<lambda>(d, num). bigint_value num + (if num = [] then 0 else 1))", goal_cases)
  case (2 divisor num)
  then have d: "0 < divisor" "divisor \<le> 256" "2 \<le> divisor" by auto
  have v: "bigint_value (snd (bigint_divmod num divisor)) = bigint_value num div divisor"
    by (rule bigint_divmod_correct(2) [OF d(1,2)])
  show ?case
  proof (cases "bigint_value num = 0")
    case True
    then have "snd (bigint_divmod num divisor) = []"
      using v bigint_divmod_correct(3) [OF d(1,2), of num] bigint_value_last by fastforce
    with 2 show ?thesis by simp
  next
    case False
    then have "bigint_value num div divisor < bigint_value num" using d(3) by simp
    with 2 show ?thesis by (simp add: v)
  qed
qed simp

declare bigint_digits.simps [simp del]

lemma bigint_digits_value:
  assumes "2 \<le> divisor" "divisor \<le> 256"
  shows "le_value divisor (bigint_digits divisor num) = bigint_value num
    \<and> (\<forall>d \<in> set (bigint_digits divisor num). d < divisor)"
  using assms
proof (induction divisor num rule: bigint_digits.induct)
  case (1 divisor num)
  have d: "0 < divisor" "divisor \<le> 256" using 1 by auto
  show ?case
  proof (cases "num = []")
    case False
    let ?q = "snd (bigint_divmod num divisor)"
    have eq: "bigint_digits divisor num = bigint_value num mod divisor # bigint_digits divisor ?q"
      using False 1 by (subst bigint_digits.simps) (simp add: bigint_divmod_correct(1) [OF d])
    have IH: "le_value divisor (bigint_digits divisor ?q) = bigint_value num div divisor"
      "\<forall>d \<in> set (bigint_digits divisor ?q). d < divisor"
      using 1 False by (simp_all add: bigint_divmod_correct(2) [OF d])
    show ?thesis
      unfolding eq using IH d(1) by (simp add: mod_mult_div_eq)
  qed (simp add: bigint_digits.simps)
qed

section \<open>Encoding and decoding\<close>

definition base58_encoded_length :: "nat \<Rightarrow> nat" where
  "base58_encoded_length input_len = input_len * 138 div 100 + 1"

definition base58_decoded_length :: "nat \<Rightarrow> nat" where
  "base58_decoded_length str_len = str_len * 733 div 1000 + 1"

definition bytes_to_bigint :: "bytes \<Rightarrow> bytes" where
  "bytes_to_bigint inp = foldl (\<lambda>num b. bigint_add (bigint_multiply num 256 0) (unat b)) [] inp"

definition base58_encode :: "bytes \<Rightarrow> nat \<Rightarrow> bytes option" where
  "base58_encode inp output_size =
     (if inp = [] then (if output_size < 1 then None else Some [])
      else if length inp > BIGINT_SIZE div 2 then None
      else
        let leading_zeros = length (takeWhile (\<lambda>b. b = 0) inp);
            digits = bigint_digits 58 (bytes_to_bigint inp)
        in if output_size < leading_zeros + length digits then None
           else Some (replicate leading_zeros (BASE58_ALPHABET ! 0)
                      @ map (\<lambda>d. BASE58_ALPHABET ! d) (rev digits)))"

text \<open>The conversion loop of the decoder, which fails at a character outside the alphabet.\<close>

fun decode_digits :: "bytes \<Rightarrow> bytes \<Rightarrow> bytes option" where
  "decode_digits [] num = Some num"
| "decode_digits (c # cs) num =
     (case BASE58_MAP c of
        None \<Rightarrow> None
      | Some v \<Rightarrow> decode_digits cs (bigint_add (bigint_multiply num 58 0) v))"

definition base58_decode :: "bytes \<Rightarrow> nat \<Rightarrow> bytes option" where
  "base58_decode str output_size =
     (if str = [] then Some []
      else if length str > BIGINT_SIZE then None
      else
        let leading_ones = length (takeWhile (\<lambda>c. c = BASE58_ALPHABET ! 0) str)
        in case decode_digits (drop leading_ones str) [] of
             None \<Rightarrow> None
           | Some num \<Rightarrow>
               let bytes = rev (bigint_digits 256 num)
               in if output_size < leading_ones + length bytes then None
                  else Some (replicate leading_ones 0 @ map of_nat bytes))"

section \<open>Digit lists\<close>

lemma le_value_unique:
  assumes "0 < b" "\<forall>d \<in> set xs. d < b" "\<forall>d \<in> set ys. d < b"
    and "xs \<noteq> [] \<Longrightarrow> last xs \<noteq> 0" "ys \<noteq> [] \<Longrightarrow> last ys \<noteq> 0"
    and "le_value b xs = le_value b ys"
  shows "xs = ys"
  using assms
proof (induction xs arbitrary: ys)
  case Nil
  then show ?case using le_value_pos [of ys b] by (cases ys) auto
next
  case (Cons x xs)
  then have "le_value b (x # xs) > 0" using le_value_pos [of "x # xs" b] by auto
  then obtain y ys' where ys: "ys = y # ys'" using Cons.prems(6) by (cases ys) auto
  have lt: "x < b" "y < b" using Cons.prems(2,3) ys by auto
  have "x + b * le_value b xs = y + b * le_value b ys'" using Cons.prems(6) ys by simp
  then have "x = y" "le_value b xs = le_value b ys'"
    using lt by (metis mod_less mod_mult_self2, metis add_left_cancel lt mod_less mod_mult_self2
        mult_left_cancel not_less_zero)
  moreover have "xs = ys'"
    using Cons.IH [of ys'] Cons.prems ys calculation by (auto split: if_splits)
  ultimately show ?case using ys by simp
qed

lemma bigint_digits_Nil [simp]: "bigint_digits d [] = []"
  by (simp add: bigint_digits.simps)

lemma bigint_digits_last:
  assumes "2 \<le> divisor" "divisor \<le> 256" "bigint_value num > 0"
  shows "bigint_digits divisor num \<noteq> [] \<and> last (bigint_digits divisor num) \<noteq> 0"
  using assms
proof (induction divisor num rule: bigint_digits.induct)
  case (1 divisor num)
  have d: "0 < divisor" "divisor \<le> 256" using 1 by auto
  let ?q = "snd (bigint_divmod num divisor)"
  have ne: "num \<noteq> []" using 1 by auto
  have eq: "bigint_digits divisor num = bigint_value num mod divisor # bigint_digits divisor ?q"
    using ne 1 by (subst bigint_digits.simps) (simp add: bigint_divmod_correct(1) [OF d])
  show ?case
  proof (cases "?q = []")
    case True
    then have "bigint_value num div divisor = 0"
      using bigint_divmod_correct(2) [OF d, of num] by simp
    then have "bigint_value num mod divisor = bigint_value num"
      using d(1) by (simp add: div_eq_0_iff)
    with True 1 show ?thesis by (simp add: eq)
  next
    case False
    then have "bigint_value ?q > 0"
      using bigint_divmod_correct(3) [OF d] by (intro bigint_value_last)
    with 1 ne show ?thesis by (simp add: eq)
  qed
qed

text \<open>Reading digits from the most significant one, as both conversion loops do.\<close>

lemma foldl_bigint_value:
  "bigint_value (foldl (\<lambda>num v. bigint_add (bigint_multiply num base 0) v) num vs)
     = bigint_value num * base ^ length vs + le_value base (rev vs)"
  by (induction vs arbitrary: num)
     (auto simp: bigint_add_value bigint_multiply_value le_value_append algebra_simps)

lemma bytes_to_bigint_value: "bigint_value (bytes_to_bigint inp) = bigint_value (rev inp)"
  using foldl_bigint_value [of 256 "[]" "map unat inp"]
  by (simp add: bytes_to_bigint_def foldl_map rev_map)

lemma bytes_to_bigint_zeros: "bytes_to_bigint (replicate z 0 @ bs) = bytes_to_bigint bs"
  by (induction z) (simp_all add: bytes_to_bigint_def push_carry.simps)

lemma alphabet_facts:
  "length BASE58_ALPHABET = 58" "distinct BASE58_ALPHABET"
  by code_simp+

lemma find_index_nth:
  "distinct xs \<Longrightarrow> i < length xs \<Longrightarrow> find_index (\<lambda>a. a = xs ! i) xs = Some i"
  by (induction xs arbitrary: i) (auto simp: nth_Cons split: nat.splits)

lemma map_alphabet: "d < 58 \<Longrightarrow> BASE58_MAP (BASE58_ALPHABET ! d) = Some d"
  by (simp add: BASE58_MAP_def find_index_nth alphabet_facts)

lemma decode_digits_alphabet:
  "\<forall>d \<in> set ds. d < 58 \<Longrightarrow> decode_digits (map (\<lambda>d. BASE58_ALPHABET ! d) ds) num
     = Some (foldl (\<lambda>num v. bigint_add (bigint_multiply num 58 0) v) num ds)"
  by (induction ds arbitrary: num) (auto simp: map_alphabet)

lemma takeWhile_replicate_prefix:
  "ys = [] \<or> hd ys \<noteq> x \<Longrightarrow> takeWhile (\<lambda>a. a = x) (replicate z x @ ys) = replicate z x"
  by (induction z) (auto simp: takeWhile_eq_Nil_iff)

lemma split_leading_zeros:
  obtains z tail where "inp = replicate z (0::byte) @ tail" "tail = [] \<or> hd tail \<noteq> 0"
    "length (takeWhile (\<lambda>b. b = 0) inp) = z"
proof
  show "inp = replicate (length (takeWhile (\<lambda>b. b = 0) inp)) 0 @ dropWhile (\<lambda>b. b = 0) inp"
    by (metis (mono_tags, lifting) replicate_length_same set_takeWhileD takeWhile_dropWhile_id)
  show "dropWhile (\<lambda>b. b = 0) inp = [] \<or> hd (dropWhile (\<lambda>b. b = 0) inp) \<noteq> 0"
    using hd_dropWhile [of "\<lambda>b. b = 0" inp] by auto
qed simp

lemma length_digits_bound:
  assumes "ds \<noteq> []" "last ds \<noteq> 0" "le_value 58 ds < 58 ^ n"
  shows "length ds \<le> n"
proof -
  have "58 ^ (length ds - 1) \<le> le_value 58 ds"
    using assms(1,2)
  proof (induction ds)
    case (Cons d ds)
    then show ?case by (cases "ds = []") (auto split: if_splits simp: power_eq_if)
  qed simp
  then have "58 ^ (length ds - 1) < (58::nat) ^ n" using assms(3) by linarith
  then show ?thesis using assms(1) by (auto dest: power_less_imp_less_exp)
qed

lemma bigint_value_bound: "bigint_value bs < 256 ^ length bs"
proof (induction bs)
  case (Cons b bs)
  have "unat b < 256" by (rule unat_byte_less)
  with Cons show ?case by simp
qed simp

lemma power_256_58: "256 ^ k \<le> (58::nat) ^ (k * 138 div 100 + 1)"
proof -
  have "(256 ^ k) ^ 50 = ((256::nat) ^ 50) ^ k"
    by (simp only: power_mult [symmetric] mult.commute)
  also have "\<dots> \<le> (58 ^ 69) ^ k" by (rule power_mono) simp_all
  also have "\<dots> = 58 ^ (69 * k)" by (simp only: power_mult)
  also have "\<dots> \<le> 58 ^ ((k * 138 div 100 + 1) * 50)"
    using dividend_less_div_times [of 100 "k * 138"] by (intro power_increasing) simp_all
  also have "\<dots> = (58 ^ (k * 138 div 100 + 1)) ^ 50" by (simp only: power_mult)
  finally have "(256 ^ k) ^ Suc 49 \<le> ((58::nat) ^ (k * 138 div 100 + 1)) ^ Suc 49" by simp
  then show ?thesis by (rule power_le_imp_le_base) simp
qed

text \<open>The digits of a byte string without leading zeros.\<close>

lemma tail_digits:
  assumes "tail = [] \<or> hd tail \<noteq> 0"
  defines "ds \<equiv> bigint_digits 58 (bytes_to_bigint tail)"
  shows "le_value 58 ds = bigint_value (rev tail)" "\<forall>d \<in> set ds. d < 58"
    "ds \<noteq> [] \<Longrightarrow> last ds \<noteq> 0" "ds = [] \<longleftrightarrow> tail = []"
    "tail \<noteq> [] \<Longrightarrow> length ds \<le> length tail * 138 div 100 + 1"
proof -
  show v: "le_value 58 ds = bigint_value (rev tail)" and "\<forall>d \<in> set ds. d < 58"
    using bigint_digits_value [of 58 "bytes_to_bigint tail"]
    by (simp_all add: ds_def bytes_to_bigint_value)
  have nil: "ds = []" if "tail = []" using that by (simp add: ds_def bytes_to_bigint_def)
  have pos: "bigint_value (bytes_to_bigint tail) > 0" if "tail \<noteq> []"
    unfolding bytes_to_bigint_value using that assms(1) by (intro bigint_value_last) (auto simp: last_rev)
  then have l: "ds \<noteq> [] \<and> last ds \<noteq> 0" if "tail \<noteq> []"
    unfolding ds_def using that by (intro bigint_digits_last) auto
  show "ds \<noteq> [] \<Longrightarrow> last ds \<noteq> 0" "ds = [] \<longleftrightarrow> tail = []" using l nil by blast+
  show "length ds \<le> length tail * 138 div 100 + 1" if "tail \<noteq> []"
  proof (rule length_digits_bound)
    show "le_value 58 ds < 58 ^ (length tail * 138 div 100 + 1)"
      unfolding v using bigint_value_bound [of "rev tail"] power_256_58 [of "length tail"] by simp
  qed (use l that in auto)
qed

lemma encode_eq:
  assumes "tail = [] \<or> hd tail \<noteq> 0" "replicate z 0 @ tail \<noteq> []" "z + length tail \<le> 100"
  defines "ds \<equiv> bigint_digits 58 (bytes_to_bigint tail)"
  shows "base58_encode (replicate z 0 @ tail) n =
    (if n < z + length ds then None
     else Some (replicate z (BASE58_ALPHABET ! 0) @ map (\<lambda>d. BASE58_ALPHABET ! d) (rev ds)))"
  using assms by (auto simp: base58_encode_def BIGINT_SIZE_def takeWhile_replicate_prefix
      bytes_to_bigint_zeros Let_def)

lemma decode_eq:
  assumes "tail = [] \<or> hd tail \<noteq> 0" "z + length tail \<le> 100" "z + length tail \<le> m"
  defines "ds \<equiv> bigint_digits 58 (bytes_to_bigint tail)"
  shows "base58_decode (replicate z (BASE58_ALPHABET ! 0) @ map (\<lambda>d. BASE58_ALPHABET ! d) (rev ds)) m
    = Some (replicate z 0 @ tail)"
proof -
  let ?one = "BASE58_ALPHABET ! 0" let ?cs = "map (\<lambda>d. BASE58_ALPHABET ! d) (rev ds)"
  note t = tail_digits [OF assms(1), folded ds_def]
  define num where "num = foldl (\<lambda>num v. bigint_add (bigint_multiply num 58 0) v) [] (rev ds)"
  have len: "length ds \<le> 2 * length tail"
  proof (cases "tail = []")
    case False
    then have "length tail * 138 div 100 < 2 * length tail"
      by (simp only: div_less_iff_less_mult) simp
    with t(5) [OF False] show ?thesis by linarith
  qed (use t(4) in simp)
  have hd: "?cs = [] \<or> hd ?cs \<noteq> ?one"
  proof (cases "ds = []")
    case False
    then have "last ds < 58" "last ds \<noteq> 0" using t(2,3) by auto
    then show ?thesis
      using False alphabet_facts nth_eq_iff_index_eq [of BASE58_ALPHABET "last ds" 0]
      by (auto simp: hd_map hd_rev)
  qed simp
  have dec: "decode_digits ?cs [] = Some num"
    using decode_digits_alphabet [of "rev ds" "[]"] t(2) by (simp add: num_def)
  have num: "bigint_value num = bigint_value (rev tail)"
    using foldl_bigint_value [of 58 "[]" "rev ds"] t(1) by (simp add: num_def)
  have "bigint_digits 256 num = map unat (rev tail)"
  proof (rule le_value_unique [of 256])
    show "le_value 256 (bigint_digits 256 num) = bigint_value (rev tail)"
      "\<forall>d \<in> set (bigint_digits 256 num). d < 256"
      using bigint_digits_value [of 256 num] num by simp_all
    show "\<forall>d \<in> set (map unat (rev tail)). d < 256"
      by (auto simp: unat_byte_less)
    show "map unat (rev tail) \<noteq> [] \<Longrightarrow> last (map unat (rev tail)) \<noteq> 0"
      using assms(1) by (auto simp: last_map last_rev unat_eq_0)
    have "num = []" if "tail = []" using that t(4) by (simp add: num_def)
    moreover have "bigint_value num > 0" if "tail \<noteq> []"
      unfolding num using that assms(1) by (intro bigint_value_last) (auto simp: last_rev)
    ultimately show "bigint_digits 256 num \<noteq> [] \<Longrightarrow> last (bigint_digits 256 num) \<noteq> 0"
      using bigint_digits_last [of 256 num] by (cases "tail = []") auto
  qed simp
  then have "map of_nat (rev (bigint_digits 256 num)) = tail"
    by (simp add: rev_map comp_def)
  moreover have "length (replicate z ?one @ ?cs) \<le> BIGINT_SIZE"
    using len assms(2) by (simp add: BIGINT_SIZE_def)
  moreover have "length (bigint_digits 256 num) = length tail"
    using \<open>bigint_digits 256 num = map unat (rev tail)\<close> by simp
  ultimately show ?thesis
    using assms(3) t(4) hd by (auto simp: base58_decode_def takeWhile_replicate_prefix dec Let_def)
qed

lemma base58_decode_encode:
  assumes "base58_encode inp n = Some str" "length inp \<le> m"
  shows "base58_decode str m = Some inp"
proof (cases "inp = []")
  case True
  with assms show ?thesis by (auto simp: base58_encode_def base58_decode_def split: if_splits)
next
  case False
  obtain z tail where inp: "inp = replicate z 0 @ tail" "tail = [] \<or> hd tail \<noteq> 0"
    by (rule split_leading_zeros)
  have len: "z + length tail \<le> 100"
    using assms(1) False inp(1) by (auto simp: base58_encode_def BIGINT_SIZE_def split: if_splits)
  then show ?thesis
    using assms False inp encode_eq [OF inp(2) _ len, of n] decode_eq [OF inp(2) len, of m]
    by (simp split: if_splits)
qed

lemma base58_encode_no_zero:
  assumes "base58_encode inp n = Some s"
  shows "0 \<notin> set s"
proof -
  have digits: "\<forall>d \<in> set (bigint_digits 58 (bytes_to_bigint inp)). d < 58"
    using bigint_digits_value [of 58 "bytes_to_bigint inp"] by simp
  have "0 \<notin> set BASE58_ALPHABET"
    by code_simp
  then have "d < 58 \<Longrightarrow> BASE58_ALPHABET ! d \<noteq> 0" for d
    using alphabet_facts(1) by (metis nth_mem)
  with digits show ?thesis
    using assms by (fastforce simp: base58_encode_def Let_def split: if_splits)
qed

lemma base58_encode_ok:
  assumes "length inp \<le> 100" "base58_encoded_length (length inp) \<le> n"
  shows "\<exists>str. base58_encode inp n = Some str \<and> length str \<le> base58_encoded_length (length inp)"
proof (cases "inp = []")
  case True
  with assms show ?thesis by (simp add: base58_encode_def base58_encoded_length_def)
next
  case False
  obtain z tail where inp: "inp = replicate z 0 @ tail" "tail = [] \<or> hd tail \<noteq> 0"
    by (rule split_leading_zeros)
  have len: "z + length tail \<le> 100" using assms(1) inp(1) by simp
  let ?ds = "bigint_digits 58 (bytes_to_bigint tail)"
  have "length ?ds \<le> length tail * 138 div 100 + 1"
    using tail_digits(4,5) [OF inp(2)] by (cases "tail = []") auto
  then have "z + length ?ds \<le> base58_encoded_length (length inp)"
    unfolding base58_encoded_length_def inp(1) by simp
  then show ?thesis
    using assms(2) False inp encode_eq [OF inp(2) _ len, of n] by simp
qed

section \<open>Properties\<close>

text \<open>
  C34. Base58 round trip: an input of at most 100 bytes (leading zero bytes
  included) that encodes within the output size decodes to itself.
\<close>

theorem base58_roundtrip:
  assumes "base58_encode inp n = Some str" "length inp \<le> m"
  shows "base58_decode str m = Some inp"
  using assms by (rule base58_decode_encode)

theorem base58_roundtrip_witness:
  "base58_decode [0x31, 0x32, 0x67] 3 = Some [0, 0x61]"
proof -
  have "base58_encode [0, 0x61] 10 = Some [0x31, 0x32, 0x67]" by code_simp
  from base58_roundtrip [OF this, of 3] show ?thesis by simp
qed

text \<open>
  \<open>base58_encoded_length\<close> is large enough: encoding at most 100 bytes into a
  buffer of that many characters succeeds.
\<close>

theorem base58_encode_fits:
  assumes "length inp \<le> 100" "base58_encoded_length (length inp) \<le> n"
  shows "\<exists>str. base58_encode inp n = Some str \<and> length str \<le> base58_encoded_length (length inp)"
  using assms by (rule base58_encode_ok)

theorem base58_encode_fits_witness:
  "\<exists>str. base58_encode (replicate 32 7) 45 = Some str \<and> length str \<le> base58_encoded_length 32"
  using base58_encode_fits [of "replicate 32 7" 45] by (simp add: base58_encoded_length_def)

end
