(* ===== verification/NodeId.thy ===== *)
theory NodeId
  imports Base58 Wire "HOL-Library.List_Lexorder"
begin

text \<open>
  Node identities (\<open>src/Crypto/node_id.c\<close>) and overlay nodes
  (\<open>src/Network/Meridian/meridian.c\<close>). The BLAKE3 hash is the parameter \<open>blake3\<close>
  (None when the library reports an error); \<open>str\<close> is the string before its null
  terminator.
\<close>

record poseidon_node_id =
  nid_hash :: bytes
  nid_str :: bytes

definition POSEIDON_NODE_ID_HASH_SIZE :: nat where
  "POSEIDON_NODE_ID_HASH_SIZE = 32"

definition POSEIDON_NODE_ID_STRING_SIZE :: nat where
  "POSEIDON_NODE_ID_STRING_SIZE = 48"

definition poseidon_node_id_from_public_key :: "(bytes \<Rightarrow> bytes option) \<Rightarrow> bytes \<Rightarrow> poseidon_node_id option" where
  "poseidon_node_id_from_public_key blake3 pub_key =
     (case blake3 pub_key of
        None \<Rightarrow> None
      | Some h \<Rightarrow>
          (case base58_encode h (POSEIDON_NODE_ID_STRING_SIZE - 1) of
             None \<Rightarrow> None
           | Some str \<Rightarrow> Some \<lparr>nid_hash = h, nid_str = str\<rparr>))"

definition poseidon_node_id_from_string :: "bytes \<Rightarrow> poseidon_node_id option" where
  "poseidon_node_id_from_string str =
     (if length str \<ge> POSEIDON_NODE_ID_STRING_SIZE then None
      else
        case base58_decode str POSEIDON_NODE_ID_HASH_SIZE of
          None \<Rightarrow> None
        | Some bytes \<Rightarrow>
            Some \<lparr>nid_hash = bytes @ replicate (POSEIDON_NODE_ID_HASH_SIZE - length bytes) 0,
                  nid_str = str\<rparr>)"

text \<open>The sign of \<open>memcmp\<close> over two blocks of the same size.\<close>

definition memcmp_sign :: "bytes \<Rightarrow> bytes \<Rightarrow> int" where
  "memcmp_sign a b = (if a < b then - 1 else if b < a then 1 else 0)"

definition poseidon_node_id_compare :: "poseidon_node_id option \<Rightarrow> poseidon_node_id option \<Rightarrow> int" where
  "poseidon_node_id_compare a b =
     (case (a, b) of
        (None, None) \<Rightarrow> 0
      | (None, Some _) \<Rightarrow> - 1
      | (Some _, None) \<Rightarrow> 1
      | (Some x, Some y) \<Rightarrow> memcmp_sign (nid_hash x) (nid_hash y))"

definition poseidon_node_id_equals :: "poseidon_node_id option \<Rightarrow> poseidon_node_id option \<Rightarrow> bool" where
  "poseidon_node_id_equals a b = (poseidon_node_id_compare a b = 0)"

definition poseidon_node_id_is_null :: "poseidon_node_id option \<Rightarrow> bool" where
  "poseidon_node_id_is_null nid =
     (case nid of
        None \<Rightarrow> True
      | Some x \<Rightarrow> list_all (\<lambda>i. nid_hash x ! i = 0) [0..<POSEIDON_NODE_ID_HASH_SIZE])"

definition poseidon_node_id_clear :: poseidon_node_id where
  "poseidon_node_id_clear = \<lparr>nid_hash = replicate POSEIDON_NODE_ID_HASH_SIZE 0, nid_str = []\<rparr>"

definition poseidon_node_id_hash :: "poseidon_node_id option \<Rightarrow> u64" where
  "poseidon_node_id_hash nid = (case nid of None \<Rightarrow> 0 | Some x \<Rightarrow> of_mem_u64 (nid_hash x))"

definition poseidon_node_id_verify_public_key ::
  "(bytes \<Rightarrow> bytes option) \<Rightarrow> poseidon_node_id \<Rightarrow> bytes \<Rightarrow> int" where
  "poseidon_node_id_verify_public_key blake3 node_id public_key =
     (if length public_key = 0 then - 1
      else case blake3 public_key of
             None \<Rightarrow> - 1
           | Some computed_hash \<Rightarrow> (if memcmp_sign computed_hash (nid_hash node_id) = 0 then 0 else - 1))"

section \<open>Overlay nodes\<close>

datatype meridian_node_flags = MERIDIAN_NODE_FLAG_NONE | MERIDIAN_NODE_FLAG_RENDEZVOUS

record meridian_node =
  n_id :: poseidon_node_id
  n_addr :: u32
  n_port :: u16
  n_rendv_addr :: u32
  n_rendv_port :: u16
  n_flags :: meridian_node_flags

definition meridian_node_create :: "u32 \<Rightarrow> u16 \<Rightarrow> poseidon_node_id option \<Rightarrow> meridian_node" where
  "meridian_node_create addr port nid =
     \<lparr>n_id = (case nid of None \<Rightarrow> poseidon_node_id_clear | Some i \<Rightarrow> i), n_addr = addr, n_port = port,
      n_rendv_addr = 0, n_rendv_port = 0, n_flags = MERIDIAN_NODE_FLAG_NONE\<rparr>"

definition meridian_node_create_rendv ::
  "u32 \<Rightarrow> u16 \<Rightarrow> u32 \<Rightarrow> u16 \<Rightarrow> poseidon_node_id option \<Rightarrow> meridian_node" where
  "meridian_node_create_rendv addr port rendv_addr rendv_port nid =
     \<lparr>n_id = (case nid of None \<Rightarrow> poseidon_node_id_clear | Some i \<Rightarrow> i), n_addr = addr, n_port = port,
      n_rendv_addr = rendv_addr, n_rendv_port = rendv_port, n_flags = MERIDIAN_NODE_FLAG_RENDEZVOUS\<rparr>"

definition meridian_node_create_unidentified :: "u32 \<Rightarrow> u16 \<Rightarrow> meridian_node" where
  "meridian_node_create_unidentified addr port = meridian_node_create addr port None"

definition meridian_node_latency_cmp :: "meridian_node \<Rightarrow> meridian_node \<Rightarrow> int" where
  "meridian_node_latency_cmp a b =
     (if \<not> poseidon_node_id_is_null (Some (n_id a)) \<and> \<not> poseidon_node_id_is_null (Some (n_id b))
      then poseidon_node_id_compare (Some (n_id a)) (Some (n_id b))
      else if n_addr a < n_addr b then - 1
      else if n_addr a > n_addr b then 1
      else if n_port a < n_port b then - 1
      else if n_port a > n_port b then 1
      else 0)"

definition meridian_node_equals_by_id :: "meridian_node option \<Rightarrow> meridian_node option \<Rightarrow> bool" where
  "meridian_node_equals_by_id a b =
     (case (a, b) of
        (Some x, Some y) \<Rightarrow>
          \<not> (poseidon_node_id_is_null (Some (n_id x)) \<or> poseidon_node_id_is_null (Some (n_id y)))
          \<and> poseidon_node_id_compare (Some (n_id x)) (Some (n_id y)) = 0
      | _ \<Rightarrow> False)"

definition meridian_node_equals_by_addr :: "meridian_node option \<Rightarrow> meridian_node option \<Rightarrow> bool" where
  "meridian_node_equals_by_addr a b =
     (case (a, b) of
        (Some x, Some y) \<Rightarrow> n_addr x = n_addr y \<and> n_port x = n_port y
      | _ \<Rightarrow> False)"

text \<open>The six byte key of a node in the filters: address and port as stored.\<close>

definition node_key :: "u32 \<Rightarrow> u16 \<Rightarrow> bytes" where
  "node_key addr port = mem_u32 addr @ mem_u16 port"

section \<open>Laws\<close>

interpretation memcmp: total_comparator memcmp_sign
  by (rule total_comparator_cmp_key [of id]) (simp_all add: memcmp_sign_def cmp_key_def)

lemma node_key_inj [simp]: "node_key a p = node_key b q \<longleftrightarrow> a = b \<and> p = q"
  by (simp add: node_key_def)

lemma length_node_key [simp]: "length (node_key a p) = 6"
  by (simp add: node_key_def)

lemma node_id_equals_iff:
  "poseidon_node_id_equals (Some a) (Some b) \<longleftrightarrow> nid_hash a = nid_hash b"
  by (simp add: poseidon_node_id_equals_def poseidon_node_id_compare_def memcmp.zero_iff)

text \<open>A well-formed identity: a hash of 32 bytes and its Base58 encoding.\<close>

definition node_id_wf :: "poseidon_node_id \<Rightarrow> bool" where
  "node_id_wf nid \<longleftrightarrow> length (nid_hash nid) = 32 \<and> base58_encode (nid_hash nid) 47 = Some (nid_str nid)"

lemma node_id_from_key:
  assumes "blake3 key = Some h" "length h = 32" "key \<noteq> []"
  shows "\<exists>nid. poseidon_node_id_from_public_key blake3 key = Some nid
    \<and> poseidon_node_id_verify_public_key blake3 nid key = 0
    \<and> length (nid_str nid) < POSEIDON_NODE_ID_STRING_SIZE
    \<and> poseidon_node_id_from_string (nid_str nid) = Some nid"
proof -
  obtain str where str: "base58_encode h 47 = Some str" "length str \<le> 45"
    using base58_encode_ok [of h 47] assms(2) by (auto simp: base58_encoded_length_def)
  have "base58_decode str 32 = Some h"
    using base58_decode_encode [OF str(1), of 32] assms(2) by simp
  then have "poseidon_node_id_from_string str = Some \<lparr>nid_hash = h, nid_str = str\<rparr>"
    using str(2) assms(2)
    by (simp add: poseidon_node_id_from_string_def POSEIDON_NODE_ID_STRING_SIZE_def POSEIDON_NODE_ID_HASH_SIZE_def)
  moreover have "poseidon_node_id_from_public_key blake3 key = Some \<lparr>nid_hash = h, nid_str = str\<rparr>"
    using assms(1) str(1) by (simp add: poseidon_node_id_from_public_key_def POSEIDON_NODE_ID_STRING_SIZE_def)
  ultimately show ?thesis
    using assms(1,3) str(2)
    by (simp add: poseidon_node_id_verify_public_key_def memcmp.refl_zero POSEIDON_NODE_ID_STRING_SIZE_def)
qed

section \<open>Properties\<close>

text \<open>
  Identity round trip: when BLAKE3 returns 32 bytes, deriving an identity from
  a public key succeeds, the key verifies against it, and parsing its string gives
  the same identity back.
\<close>

theorem node_id_roundtrip:
  assumes "blake3 key = Some h" "length h = 32" "key \<noteq> []"
  shows "\<exists>nid. poseidon_node_id_from_public_key blake3 key = Some nid
    \<and> poseidon_node_id_verify_public_key blake3 nid key = 0
    \<and> length (nid_str nid) < POSEIDON_NODE_ID_STRING_SIZE
    \<and> poseidon_node_id_from_string (nid_str nid) = Some nid"
  using assms by (rule node_id_from_key)

theorem node_id_roundtrip_witness:
  "\<exists>nid. poseidon_node_id_from_public_key (\<lambda>k. Some (replicate 32 (k ! 0))) [9] = Some nid
    \<and> poseidon_node_id_from_string (nid_str nid) = Some nid"
  using node_id_roundtrip [of "\<lambda>k. Some (replicate 32 (k ! 0))" "[9]" "replicate 32 9"] by auto

text \<open>
  A parsed identity need not be canonical: the one-character string "1" is
  accepted and gives the null identity, whose Base58 encoding is another string.
\<close>

theorem node_id_from_string_not_canonical:
  "\<exists>nid. poseidon_node_id_from_string [0x31] = Some nid
    \<and> poseidon_node_id_is_null (Some nid) \<and> \<not> node_id_wf nid"
  by (rule exI [of _ "\<lparr>nid_hash = replicate 32 0, nid_str = [0x31]\<rparr>"]) code_simp

text \<open>
  The comparator for node arrays is not transitive once identified and
  unidentified nodes are mixed: three nodes compare in a cycle.
\<close>

theorem node_cmp_cycle:
  "let i = (\<lambda>b. \<lparr>nid_hash = b # replicate 31 0, nid_str = []\<rparr>);
       x = meridian_node_create 3 1 (Some (i 1));
       y = meridian_node_create 1 1 (Some (i 2));
       z = meridian_node_create 2 1 None
   in meridian_node_latency_cmp x y < 0 \<and> meridian_node_latency_cmp y z < 0
      \<and> meridian_node_latency_cmp z x < 0"
  by code_simp

end
