(* ===== verification/RouteMessage.thy ===== *)
theory RouteMessage
  imports BloomFilter MessageId NodeId
begin

text \<open>
  Routed messages of the Quasar overlay: the message object (first part of
  \<open>src/Network/Quasar/quasar.c\<close>) and its wire format
  (\<open>src/Network/Quasar/quasar_route.c\<close>). Topic, payload and visited filter are
  never NULL in a message the constructors build. The identifier
  \<open>quasar_message_id_get_next\<close> returns is an argument of the constructor. The two
  publisher arrays are one list of pairs.
\<close>

record quasar_route_message =
  rm_id :: quasar_message_id
  rm_topic :: bytes
  rm_data :: bytes
  rm_visited :: bloom_filter
  rm_hops_remaining :: u32
  rm_pubs :: "(u32 \<times> u16) list"
  rm_pub_capacity :: nat

definition quasar_route_message_create ::
  "quasar_message_id \<Rightarrow> bytes option \<Rightarrow> bytes option \<Rightarrow> u32 \<Rightarrow> nat \<Rightarrow> u32 \<Rightarrow> quasar_route_message option" where
  "quasar_route_message_create mid topic data max_hops neg_size neg_hashes =
     (case (topic, data) of
        (Some t, Some d) \<Rightarrow>
          Some \<lparr>rm_id = mid, rm_topic = t, rm_data = d,
                rm_visited = bloom_filter_create neg_size neg_hashes,
                rm_hops_remaining = max_hops, rm_pubs = [], rm_pub_capacity = 0\<rparr>
      | _ \<Rightarrow> None)"

definition quasar_route_message_add_visited ::
  "hash_fn \<Rightarrow> quasar_route_message \<Rightarrow> u32 \<times> u16 \<Rightarrow> quasar_route_message" where
  "quasar_route_message_add_visited xxh msg node =
     msg\<lparr>rm_visited := snd (bloom_filter_add xxh (rm_visited msg) (Some (node_key (fst node) (snd node))))\<rparr>"

definition quasar_route_message_has_visited ::
  "hash_fn \<Rightarrow> quasar_route_message \<Rightarrow> u32 \<times> u16 \<Rightarrow> bool" where
  "quasar_route_message_has_visited xxh msg node =
     bloom_filter_contains xxh (rm_visited msg) (Some (node_key (fst node) (snd node)))"

definition quasar_route_message_add_publisher ::
  "quasar_route_message \<Rightarrow> u32 \<times> u16 \<Rightarrow> quasar_route_message" where
  "quasar_route_message_add_publisher msg node =
     (let new_cap = (if length (rm_pubs msg) \<ge> rm_pub_capacity msg
                     then (if rm_pub_capacity msg = 0 then 4 else rm_pub_capacity msg * 2)
                     else rm_pub_capacity msg)
      in msg\<lparr>rm_pubs := rm_pubs msg @ [node], rm_pub_capacity := new_cap\<rparr>)"

definition quasar_route_message_has_publisher :: "quasar_route_message \<Rightarrow> u32 \<times> u16 \<Rightarrow> bool" where
  "quasar_route_message_has_publisher msg node =
     list_ex (\<lambda>p. fst p = fst node \<and> snd p = snd node) (rm_pubs msg)"

section \<open>Wire format\<close>

definition QUASAR_ROUTE_MAGIC :: u32 where
  "QUASAR_ROUTE_MAGIC = 0x51524F54"

definition QUASAR_ROUTE_VERSION :: u32 where
  "QUASAR_ROUTE_VERSION = 1"

definition MERIDIAN_MAX_PAYLOAD_SIZE :: nat where
  "MERIDIAN_MAX_PAYLOAD_SIZE = 1400"

definition MERIDIAN_MAX_NODES :: nat where
  "MERIDIAN_MAX_NODES = 256"

definition SIZE_MAX :: nat where
  "SIZE_MAX = 2 ^ 64 - 1"

text \<open>The eight header words and the sections after the message identifier.\<close>

definition route_header :: "quasar_route_message \<Rightarrow> bytes" where
  "route_header msg =
     htonl_bytes QUASAR_ROUTE_MAGIC @ htonl_bytes QUASAR_ROUTE_VERSION
     @ htonl_bytes (of_nat (length (rm_topic msg))) @ htonl_bytes (of_nat (length (rm_data msg)))
     @ htonl_bytes (rm_hops_remaining msg) @ htonl_bytes (of_nat (length (rm_pubs msg)))
     @ htonl_bytes (of_nat (bf_size (rm_visited msg))) @ htonl_bytes (bf_hash_count (rm_visited msg))"

definition quasar_route_message_serialize :: "quasar_route_message \<Rightarrow> bytes option" where
  "quasar_route_message_serialize msg =
     (let topic_len = length (rm_topic msg);
          data_len = length (rm_data msg);
          pub_count = length (rm_pubs msg);
          visited_bit_bytes = byte_size_of (bf_size (rm_visited msg));
          body_len = topic_len + data_len + 4 * pub_count + 2 * pub_count + visited_bit_bytes + 24
      in if 8 * 4 + body_len > SIZE_MAX then None
         else Some (route_header msg
                    @ quasar_message_id_serialize (rm_id msg)
                    @ rm_topic msg @ rm_data msg
                    @ concat (map (\<lambda>p. mem_u32 (fst p)) (rm_pubs msg))
                    @ concat (map (\<lambda>p. mem_u16 (snd p)) (rm_pubs msg))
                    @ take visited_bit_bytes (bs_data (bf_bits (rm_visited msg)))))"

text \<open>Header word \<open>i\<close>.\<close>

definition header_word :: "bytes \<Rightarrow> nat \<Rightarrow> u32" where
  "header_word bs i = ntohl_bytes (take 4 (drop (4 * i) bs))"

definition quasar_route_message_deserialize :: "bytes \<Rightarrow> quasar_route_message option" where
  "quasar_route_message_deserialize bs =
     (if length bs < 8 * 4 then None
      else if header_word bs 0 \<noteq> QUASAR_ROUTE_MAGIC \<or> header_word bs 1 \<noteq> QUASAR_ROUTE_VERSION then None
      else
        let topic_len = unat (header_word bs 2);
            data_len = unat (header_word bs 3);
            hops_remaining = header_word bs 4;
            pub_count = unat (header_word bs 5);
            visited_size = unat (header_word bs 6);
            visited_hashes = header_word bs 7;
            visited_bit_bytes = (if visited_size > 0 then byte_size_of visited_size else 0);
            expected = 8 * 4 + 24 + topic_len + data_len + pub_count * 4 + pub_count * 2 + visited_bit_bytes
        in if topic_len > MERIDIAN_MAX_PAYLOAD_SIZE \<or> data_len > MERIDIAN_MAX_PAYLOAD_SIZE then None
           else if pub_count > MERIDIAN_MAX_NODES then None
           else if length bs < expected then None
           else
             let mid = quasar_message_id_deserialize (drop 32 bs);
                 topic = take topic_len (drop 56 bs);
                 data = take data_len (drop (56 + topic_len) bs);
                 offset = 56 + topic_len + data_len;
                 addrs = map of_mem_u32 (chunk 4 pub_count (drop offset bs));
                 ports = map of_mem_u16 (chunk 2 pub_count (drop (offset + 4 * pub_count) bs));
                 visited = bloom_filter_create visited_size visited_hashes;
                 bits = take visited_bit_bytes (drop (offset + 6 * pub_count) bs)
             in Some \<lparr>rm_id = mid, rm_topic = topic, rm_data = data,
                      rm_visited = visited\<lparr>bf_bits := (if visited_bit_bytes > 0 then \<lparr>bs_data = bits\<rparr>
                                                       else bf_bits visited)\<rparr>,
                      rm_hops_remaining = hops_remaining,
                      rm_pubs = zip addrs ports, rm_pub_capacity = pub_count\<rparr>)"

section \<open>Well-formed messages\<close>

text \<open>
  Within the limits the receiver enforces, with a visited filter as the
  constructor makes it and \<open>add_visited\<close> keeps it.
\<close>

definition rm_wf :: "quasar_route_message \<Rightarrow> bool" where
  "rm_wf msg \<longleftrightarrow>
     length (rm_topic msg) \<le> MERIDIAN_MAX_PAYLOAD_SIZE \<and> length (rm_data msg) \<le> MERIDIAN_MAX_PAYLOAD_SIZE
     \<and> length (rm_pubs msg) \<le> MERIDIAN_MAX_NODES
     \<and> bloom_wf (rm_visited msg) \<and> bf_size (rm_visited msg) < 2 ^ 32
     \<and> bf_seed_a (rm_visited msg) = 1 \<and> bf_seed_b (rm_visited msg) = 2"

text \<open>The fields the wire format does not carry: the insertion count and the spare capacity.\<close>

definition rm_carried :: "quasar_route_message \<Rightarrow> quasar_route_message" where
  "rm_carried msg = msg\<lparr>rm_visited := (rm_visited msg)\<lparr>bf_count := 0\<rparr>, rm_pub_capacity := length (rm_pubs msg)\<rparr>"

lemma unat_of_nat_u32: "n < 2 ^ 32 \<Longrightarrow> unat (of_nat n :: u32) = n"
  by (simp add: unat_of_nat)

lemma length_route_header [simp]: "length (route_header msg) = 32"
  by (simp add: route_header_def)

lemma header_word_route [simp]:
  "header_word (route_header msg @ rest) 0 = QUASAR_ROUTE_MAGIC"
  "header_word (route_header msg @ rest) (Suc 0) = QUASAR_ROUTE_VERSION"
  "header_word (route_header msg @ rest) 2 = of_nat (length (rm_topic msg))"
  "header_word (route_header msg @ rest) 3 = of_nat (length (rm_data msg))"
  "header_word (route_header msg @ rest) 4 = rm_hops_remaining msg"
  "header_word (route_header msg @ rest) 5 = of_nat (length (rm_pubs msg))"
  "header_word (route_header msg @ rest) 6 = of_nat (bf_size (rm_visited msg))"
  "header_word (route_header msg @ rest) 7 = bf_hash_count (rm_visited msg)"
  by (simp_all add: header_word_def route_header_def)

lemma byte_size_of_pos: "n > 0 \<Longrightarrow> byte_size_of n > 0"
  by (auto simp: byte_size_of_def mod_eq_0_iff_dvd intro: dvd_imp_le)

lemma byte_size_of_le: "byte_size_of n \<le> n div 8 + 1"
  by (simp add: byte_size_of_def)

lemma zip_map_fst_snd: "zip (map (\<lambda>p. fst p) ps) (map (\<lambda>p. snd p) ps) = ps"
  by (induction ps) auto

lemma route_serialize_wf:
  assumes "rm_wf msg"
  shows "quasar_route_message_serialize msg = Some (route_header msg
     @ quasar_message_id_serialize (rm_id msg) @ rm_topic msg @ rm_data msg
     @ concat (map (\<lambda>p. mem_u32 (fst p)) (rm_pubs msg))
     @ concat (map (\<lambda>p. mem_u16 (snd p)) (rm_pubs msg)) @ bs_data (bf_bits (rm_visited msg)))"
proof -
  have "bf_size (rm_visited msg) < 2 ^ 32" using assms by (simp add: rm_wf_def)
  then have "byte_size_of (bf_size (rm_visited msg)) \<le> 2 ^ 32"
    using byte_size_of_le [of "bf_size (rm_visited msg)"] by simp
  then show ?thesis
    using assms by (simp add: quasar_route_message_serialize_def Let_def rm_wf_def bloom_wf_def SIZE_MAX_def
        MERIDIAN_MAX_PAYLOAD_SIZE_def MERIDIAN_MAX_NODES_def bitset_size_def)
qed

lemma route_deserialize_serialize:
  assumes "rm_wf msg" "quasar_route_message_serialize msg = Some bs"
  shows "quasar_route_message_deserialize (bs @ rest) = Some (rm_carried msg)"
proof -
  have lim: "length (rm_topic msg) \<le> 1400" "length (rm_data msg) \<le> 1400" "length (rm_pubs msg) \<le> 256"
    and v: "bf_size (rm_visited msg) < 2 ^ 32" "bf_size (rm_visited msg) > 0"
      "length (bs_data (bf_bits (rm_visited msg))) = byte_size_of (bf_size (rm_visited msg))"
      "bf_seed_a (rm_visited msg) = 1" "bf_seed_b (rm_visited msg) = 2"
    using assms(1) by (auto simp: rm_wf_def bloom_wf_def bitset_size_def
        MERIDIAN_MAX_PAYLOAD_SIZE_def MERIDIAN_MAX_NODES_def)
  let ?addrs = "concat (map (\<lambda>p. mem_u32 (fst p)) (rm_pubs msg))"
  let ?ports = "concat (map (\<lambda>p. mem_u16 (snd p)) (rm_pubs msg))"
  have bs: "bs = route_header msg @ quasar_message_id_serialize (rm_id msg) @ rm_topic msg @ rm_data msg
     @ ?addrs @ ?ports @ bs_data (bf_bits (rm_visited msg))"
    using assms route_serialize_wf by simp
  have len: "length ?addrs = 4 * length (rm_pubs msg)" "length ?ports = 2 * length (rm_pubs msg)"
    by (simp_all add: length_concat_const [where k = 4] length_concat_const [where k = 2])
  have ch: "chunk 4 (length (rm_pubs msg)) (?addrs @ r) = map (\<lambda>p. mem_u32 (fst p)) (rm_pubs msg)"
    "chunk 2 (length (rm_pubs msg)) (?ports @ r) = map (\<lambda>p. mem_u16 (snd p)) (rm_pubs msg)" for r
    by (simp_all add: chunk_concat)
  have un: "unat (of_nat (length (rm_topic msg)) :: u32) = length (rm_topic msg)"
    "unat (of_nat (length (rm_data msg)) :: u32) = length (rm_data msg)"
    "unat (of_nat (length (rm_pubs msg)) :: u32) = length (rm_pubs msg)"
    "unat (of_nat (bf_size (rm_visited msg)) :: u32) = bf_size (rm_visited msg)"
    using lim v by (simp_all add: unat_of_nat_u32)
  have pos: "byte_size_of (bf_size (rm_visited msg)) > 0" using v(2) by (rule byte_size_of_pos)
  have vis: "bloom_filter_create (bf_size (rm_visited msg)) (bf_hash_count (rm_visited msg))
      \<lparr>bf_bits := \<lparr>bs_data = bs_data (bf_bits (rm_visited msg))\<rparr>\<rparr> = (rm_visited msg)\<lparr>bf_count := 0\<rparr>"
    using v(4,5) by (simp add: bloom_filter_create_def)
  show ?thesis
    using lim v pos
    by (simp add: bs quasar_route_message_deserialize_def un len ch vis Let_def comp_def zip_map_fst_snd
        MERIDIAN_MAX_PAYLOAD_SIZE_def MERIDIAN_MAX_NODES_def rm_carried_def)
qed

interpretation route_codec: codec quasar_route_message_serialize
  "\<lambda>m. case m of None \<Rightarrow> Fail
      | Some bs \<Rightarrow> (case quasar_route_message_deserialize bs of None \<Rightarrow> Fail | Some msg \<Rightarrow> Ret msg)"
  rm_wf rm_carried
proof
  fix x assume "rm_wf x"
  then obtain bs where "quasar_route_message_serialize x = Some bs"
    "quasar_route_message_deserialize bs = Some (rm_carried x)"
    using route_serialize_wf route_deserialize_serialize [of x _ "[]"] by fastforce
  then show "(case quasar_route_message_serialize x of None \<Rightarrow> Fail
      | Some bs \<Rightarrow> (case quasar_route_message_deserialize bs of None \<Rightarrow> Fail | Some msg \<Rightarrow> Ret msg))
      = Ret (rm_carried x)"
    by simp
qed

lemma rm_wf_create [wf_intros]:
  "\<lbrakk>quasar_route_message_create mid (Some t) (Some d) h sz k = Some msg;
    length t \<le> 1400; length d \<le> 1400; 0 < sz; sz < 2 ^ 32\<rbrakk> \<Longrightarrow> rm_wf msg"
  by (auto simp: quasar_route_message_create_def rm_wf_def MERIDIAN_MAX_PAYLOAD_SIZE_def
      MERIDIAN_MAX_NODES_def bloom_wf_create) (simp_all add: bloom_filter_create_def)

lemma add_visited_fields [simp]:
  "rm_id (quasar_route_message_add_visited xxh msg n) = rm_id msg"
  "rm_topic (quasar_route_message_add_visited xxh msg n) = rm_topic msg"
  "rm_data (quasar_route_message_add_visited xxh msg n) = rm_data msg"
  "rm_hops_remaining (quasar_route_message_add_visited xxh msg n) = rm_hops_remaining msg"
  "rm_pubs (quasar_route_message_add_visited xxh msg n) = rm_pubs msg"
  by (simp_all add: quasar_route_message_add_visited_def)

lemma add_publisher_fields [simp]:
  "rm_id (quasar_route_message_add_publisher msg n) = rm_id msg"
  "rm_topic (quasar_route_message_add_publisher msg n) = rm_topic msg"
  "rm_data (quasar_route_message_add_publisher msg n) = rm_data msg"
  "rm_hops_remaining (quasar_route_message_add_publisher msg n) = rm_hops_remaining msg"
  "rm_pubs (quasar_route_message_add_publisher msg n) = rm_pubs msg @ [n]"
  "rm_visited (quasar_route_message_add_publisher msg n) = rm_visited msg"
  by (simp_all add: quasar_route_message_add_publisher_def Let_def)

lemma rm_wf_add_visited [wf_intros]: "rm_wf msg \<Longrightarrow> rm_wf (quasar_route_message_add_visited xxh msg n)"
  by (simp add: rm_wf_def bloom_wf_add) (simp add: quasar_route_message_add_visited_def bloom_wf_add)

lemma rm_wf_add_publisher [wf_intros]:
  "rm_wf msg \<Longrightarrow> length (rm_pubs msg) < MERIDIAN_MAX_NODES \<Longrightarrow> rm_wf (quasar_route_message_add_publisher msg n)"
  by (simp add: rm_wf_def)

lemma has_visited_add [simp]:
  "quasar_route_message_has_visited xxh (quasar_route_message_add_visited xxh msg n) n"
  by (simp add: quasar_route_message_has_visited_def quasar_route_message_add_visited_def
      bloom_contains_add_same)

lemma has_visited_mono:
  "quasar_route_message_has_visited xxh msg m
     \<Longrightarrow> quasar_route_message_has_visited xxh (quasar_route_message_add_visited xxh msg n) m"
  by (simp add: quasar_route_message_has_visited_def quasar_route_message_add_visited_def
      bloom_contains_add_mono)

section \<open>Properties\<close>

text \<open>
  C33. Round trip of routed messages: every message within the receiver's limits
  serializes, and deserializing the bytes, whatever follows them, gives the same
  message (identifier, topic, payload, hops, publishers in order, visited filter);
  only the filter's insertion count and the spare capacity are reset.
\<close>

theorem route_message_roundtrip:
  assumes "rm_wf msg"
  shows "\<exists>bs. quasar_route_message_serialize msg = Some bs
    \<and> quasar_route_message_deserialize (bs @ rest) =
        Some (msg\<lparr>rm_visited := (rm_visited msg)\<lparr>bf_count := 0\<rparr>, rm_pub_capacity := length (rm_pubs msg)\<rparr>)"
  using route_deserialize_serialize [OF assms route_serialize_wf [OF assms], of rest]
    route_serialize_wf [OF assms] unfolding rm_carried_def by blast

theorem route_message_roundtrip_witness:
  "let msg = quasar_route_message_add_publisher
               (quasar_route_message_add_visited (\<lambda>d s. of_nat (length d) * s)
                 (the (quasar_route_message_create \<lparr>mid_time = 1, mid_nanos = 2, mid_count = 3\<rparr>
                        (Some [7]) (Some [8, 9]) 5 16 3)) (10, 20)) (10, 20)
   in \<exists>bs. quasar_route_message_serialize msg = Some bs
        \<and> quasar_route_message_deserialize (bs @ [1, 2, 3]) =
            Some (msg\<lparr>rm_visited := (rm_visited msg)\<lparr>bf_count := 0\<rparr>, rm_pub_capacity := length (rm_pubs msg)\<rparr>)"
proof -
  obtain m where m: "quasar_route_message_create \<lparr>mid_time = 1, mid_nanos = 2, mid_count = 3\<rparr>
      (Some [7]) (Some [8, 9]) 5 16 3 = Some m" "rm_pubs m = []"
    by (simp add: quasar_route_message_create_def)
  have "rm_wf m" by (rule rm_wf_create [OF m(1)]) simp_all
  with m show ?thesis
    unfolding Let_def m(1) option.sel
    by (intro route_message_roundtrip rm_wf_add_publisher rm_wf_add_visited)
       (simp_all add: MERIDIAN_MAX_NODES_def)
qed

text \<open>
  Whatever bytes arrive, a message that deserializes is within the limits and
  all of it lies inside the received bytes.
\<close>

theorem route_deserialize_bounds:
  assumes "quasar_route_message_deserialize bs = Some msg"
  shows "length (rm_topic msg) \<le> 1400 \<and> length (rm_data msg) \<le> 1400 \<and> length (rm_pubs msg) \<le> 256
    \<and> 56 + length (rm_topic msg) + length (rm_data msg) + 6 * length (rm_pubs msg)
        + bitset_size (bf_bits (rm_visited msg)) \<le> length bs
    \<and> bitset_size (bf_bits (rm_visited msg)) = byte_size_of (bf_size (rm_visited msg))"
proof -
  have len: "length (chunk k n xs) = n" for k n xs
    by (induction n arbitrary: xs) auto
  have z: "byte_size_of 0 = 0" by (simp add: byte_size_of_def)
  show ?thesis
    using assms by (auto simp: quasar_route_message_deserialize_def Let_def len bitset_size_def z
        MERIDIAN_MAX_PAYLOAD_SIZE_def MERIDIAN_MAX_NODES_def bloom_filter_create_def bitset_create_def
        split: if_splits)
qed

theorem route_deserialize_bounds_witness:
  "\<exists>msg. quasar_route_message_deserialize
      (htonl_bytes 0x51524F54 @ htonl_bytes 1 @ concat (replicate 5 (htonl_bytes 1)) @ htonl_bytes 3
        @ replicate 33 0) = Some msg
    \<and> length (rm_pubs msg) \<le> 256 \<and> bitset_size (bf_bits (rm_visited msg)) = 1"
proof -
  let ?bs = "htonl_bytes 0x51524F54 @ htonl_bytes 1 @ concat (replicate 5 (htonl_bytes 1)) @ htonl_bytes 3
        @ replicate 33 (0::byte)"
  have "\<not> Option.is_none (quasar_route_message_deserialize ?bs)"
    "map_option (\<lambda>m. bf_size (rm_visited m)) (quasar_route_message_deserialize ?bs) = Some 1"
    by code_simp+
  then obtain msg where msg: "quasar_route_message_deserialize ?bs = Some msg" "bf_size (rm_visited msg) = 1"
    by auto
  from route_deserialize_bounds [OF msg(1)] msg(2) have "length (rm_pubs msg) \<le> 256"
    "bitset_size (bf_bits (rm_visited msg)) = 1" by (simp_all add: byte_size_of_def)
  with msg(1) show ?thesis by blast
qed

text \<open>
  Loop avoidance: once a node has been recorded as visited it stays recorded,
  whatever nodes are recorded afterwards.
\<close>

theorem route_visited_persistent:
  "quasar_route_message_has_visited xxh
     (fold (\<lambda>n m. quasar_route_message_add_visited xxh m n) ns
        (quasar_route_message_add_visited xxh msg n)) n"
proof -
  have "quasar_route_message_has_visited xxh (fold (\<lambda>n m. quasar_route_message_add_visited xxh m n) ns m) n"
    if "quasar_route_message_has_visited xxh m n" for m
    using that by (induction ns arbitrary: m) (auto simp: has_visited_mono)
  then show ?thesis by simp
qed

text \<open>
  The receiver accepts a message whose visited filter has size 0 and a
  non-zero number of hash functions; the first lookup or insertion in that filter
  computes a remainder by zero.
\<close>

theorem route_deserialize_zero_filter:
  "\<exists>msg. quasar_route_message_deserialize
      (htonl_bytes 0x51524F54 @ htonl_bytes 1 @ concat (replicate 5 (htonl_bytes 0)) @ htonl_bytes 3
        @ replicate 24 0) = Some msg
    \<and> bf_size (rm_visited msg) = 0 \<and> bf_hash_count (rm_visited msg) = 3"
  by (simp add: quasar_route_message_deserialize_def header_word_def QUASAR_ROUTE_MAGIC_def
      QUASAR_ROUTE_VERSION_def bloom_filter_create_def Let_def numeral_eq_Suc)

end
