(* ===== verification/Quasar.thy ===== *)
theory Quasar
  imports AttenuatedBloom RouteMessage
begin

text \<open>
  The Quasar publish/subscribe overlay (\<open>src/Network/Quasar/quasar.c\<close>). What the
  overlay uses of the Meridian protocol object is a view of it: the local address
  and port (0 while the protocol is not running) and the connected peers. Packets
  handed to \<open>meridian_protocol_send_packet\<close> and \<open>meridian_protocol_broadcast\<close> and
  invocations of the message callback are recorded as effects, in order. \<open>mids i\<close> is
  the identifier the \<open>i\<close>-th call of \<open>quasar_message_id_get_next\<close> inside an operation
  returns. \<open>cbor_load\<close> and \<open>cbor_serialize\<close> are parameters. The callback is invoked
  with the lock released; what it calls is a separate operation.
\<close>

record meridian_view =
  mv_local :: "u32 \<times> u16"
  mv_peers :: "(u32 \<times> u16) list"

datatype effect = Send bytes "u32 \<times> u16" | Deliver bytes "bytes option" | Broadcast bytes

record quasar_subscription =
  sub_topic :: bytes
  sub_ttl :: u32

record quasar_neighbor_filter =
  nf_addr :: u32
  nf_port :: u16
  nf_filter :: attenuated_bloom_filter

record quasar =
  q_protocol :: "meridian_view option"
  q_routing :: attenuated_bloom_filter
  q_neighbor_filters :: "quasar_neighbor_filter list"
  q_local_subs :: "quasar_subscription list"
  q_max_hops :: u32
  q_alpha :: u32
  q_seen :: bloom_filter
  q_seen_size :: u32
  q_seen_hashes :: u32
  q_on_message :: bool

definition QUASAR_DEFAULT_SIZE :: nat where "QUASAR_DEFAULT_SIZE = 1024"
definition QUASAR_DEFAULT_HASH_COUNT :: u32 where "QUASAR_DEFAULT_HASH_COUNT = 3"
definition QUASAR_DEFAULT_OMEGA :: rat where "QUASAR_DEFAULT_OMEGA = 3 / 4"
definition QUASAR_DEFAULT_FP_BITS :: u32 where "QUASAR_DEFAULT_FP_BITS = 8"
definition QUASAR_DEFAULT_NEGATIVE_SIZE :: nat where "QUASAR_DEFAULT_NEGATIVE_SIZE = 2048"
definition QUASAR_DEFAULT_NEGATIVE_HASHES :: u32 where "QUASAR_DEFAULT_NEGATIVE_HASHES = 3"
definition MERIDIAN_PACKET_TYPE_QUASAR_GOSSIP :: byte where "MERIDIAN_PACKET_TYPE_QUASAR_GOSSIP = 50"

text \<open>The object representation of a message identifier, the key of the \<open>seen\<close> filter.\<close>

definition mid_bytes :: "quasar_message_id \<Rightarrow> bytes" where
  "mid_bytes m = mem_u64 (mid_time m) @ mem_u64 (mid_nanos m) @ mem_u64 (mid_count m)"

section \<open>Lifecycle and neighbour filters\<close>

definition quasar_create :: "meridian_view option \<Rightarrow> u32 \<Rightarrow> u32 \<Rightarrow> u32 \<Rightarrow> u32 \<Rightarrow> quasar" where
  "quasar_create protocol max_hops alpha seen_size seen_hashes =
     \<lparr>q_protocol = protocol,
      q_routing = attenuated_bloom_filter_create max_hops QUASAR_DEFAULT_SIZE QUASAR_DEFAULT_HASH_COUNT
                    QUASAR_DEFAULT_OMEGA QUASAR_DEFAULT_FP_BITS,
      q_neighbor_filters = [], q_local_subs = [], q_max_hops = max_hops, q_alpha = alpha,
      q_seen = bloom_filter_create (unat seen_size) seen_hashes,
      q_seen_size = seen_size, q_seen_hashes = seen_hashes, q_on_message = False\<rparr>"

definition quasar_set_message_callback :: "quasar \<Rightarrow> bool \<Rightarrow> quasar" where
  "quasar_set_message_callback q cb = q\<lparr>q_on_message := cb\<rparr>"

definition nf_key :: "quasar_neighbor_filter \<Rightarrow> u32 \<times> u16" where
  "nf_key nf = (nf_addr nf, nf_port nf)"

definition quasar_get_neighbor_filter :: "quasar \<Rightarrow> u32 \<times> u16 \<Rightarrow> attenuated_bloom_filter option" where
  "quasar_get_neighbor_filter q node =
     map_option nf_filter
       (find (\<lambda>nf. nf_addr nf = fst node \<and> nf_port nf = snd node) (q_neighbor_filters q))"

definition quasar_get_or_create_neighbor_filter ::
  "quasar \<Rightarrow> u32 \<times> u16 \<Rightarrow> attenuated_bloom_filter \<times> quasar" where
  "quasar_get_or_create_neighbor_filter q node =
     (case quasar_get_neighbor_filter q node of
        Some existing \<Rightarrow> (existing, q)
      | None \<Rightarrow>
          let f = attenuated_bloom_filter_create (q_max_hops q) QUASAR_DEFAULT_SIZE
                    QUASAR_DEFAULT_HASH_COUNT QUASAR_DEFAULT_OMEGA QUASAR_DEFAULT_FP_BITS
          in (f, q\<lparr>q_neighbor_filters := q_neighbor_filters q
                     @ [\<lparr>nf_addr = fst node, nf_port = snd node, nf_filter = f\<rparr>]\<rparr>))"

definition quasar_remove_neighbor_filter :: "quasar \<Rightarrow> u32 \<times> u16 \<Rightarrow> int \<times> quasar" where
  "quasar_remove_neighbor_filter q node =
     (let P = (\<lambda>nf. nf_addr nf = fst node \<and> nf_port nf = snd node)
      in if list_ex P (q_neighbor_filters q)
         then (0, q\<lparr>q_neighbor_filters := remove_first P (q_neighbor_filters q)\<rparr>)
         else (- 1, q))"

section \<open>Subscriptions\<close>

definition quasar_subscribe :: "hash_fn \<Rightarrow> quasar \<Rightarrow> bytes option \<Rightarrow> u32 \<Rightarrow> int \<times> quasar" where
  "quasar_subscribe xxh q topic ttl =
     (case topic of
        None \<Rightarrow> (- 1, q)
      | Some t \<Rightarrow>
          let (result, routing) = attenuated_bloom_filter_subscribe xxh (q_routing q) (Some t)
          in if result = 0 then
               let q1 = q\<lparr>q_routing := routing,
                          q_local_subs := q_local_subs q @ [\<lparr>sub_topic = t, sub_ttl = ttl\<rparr>]\<rparr>
               in (result,
                   case q_protocol q of
                     None \<Rightarrow> q1
                   | Some pv \<Rightarrow>
                       let (addr, port) = mv_local pv
                       in if addr \<noteq> 0 \<or> port \<noteq> 0 then
                            case attenuated_bloom_filter_get_level routing 0 of
                              None \<Rightarrow> q1
                            | Some level0 \<Rightarrow>
                                q1\<lparr>q_routing := routing\<lparr>abf_levels := (abf_levels routing)
                                     [0 := snd (elastic_bloom_filter_add xxh level0 (Some (node_key addr port)))]\<rparr>\<rparr>
                          else q1)
             else (result, q\<lparr>q_routing := routing\<rparr>))"

definition quasar_unsubscribe :: "hash_fn \<Rightarrow> quasar \<Rightarrow> bytes option \<Rightarrow> int \<times> quasar" where
  "quasar_unsubscribe xxh q topic =
     (case topic of
        None \<Rightarrow> (- 1, q)
      | Some t \<Rightarrow>
          let (result, routing) = attenuated_bloom_filter_unsubscribe xxh (q_routing q) (Some t)
          in (result, q\<lparr>q_routing := routing,
                        q_local_subs := remove_first (\<lambda>s. sub_topic s = t) (q_local_subs q)\<rparr>))"

definition locally_subscribed :: "quasar \<Rightarrow> bytes \<Rightarrow> bool" where
  "locally_subscribed q topic = list_ex (\<lambda>s. sub_topic s = topic) (q_local_subs q)"

section \<open>Routing\<close>

text \<open>
  The two nested loops of the directed walk: levels outside, neighbours inside. A
  candidate is taken when its filter has the level, reports the topic there and
  reports none of the negative keys there.
\<close>

definition candidate_ok ::
  "hash_fn \<Rightarrow> bytes \<Rightarrow> bytes list \<Rightarrow> nat \<times> quasar_neighbor_filter \<Rightarrow> bool" where
  "candidate_ok xxh topic negs c =
     (case attenuated_bloom_filter_get_level (nf_filter (snd c)) (of_nat (fst c)) of
        None \<Rightarrow> False
      | Some ebf \<Rightarrow>
          elastic_bloom_filter_contains xxh ebf (Some topic)
          \<and> \<not> list_ex (\<lambda>k. elastic_bloom_filter_contains xxh ebf (Some k)) negs)"

definition walk_candidates :: "quasar \<Rightarrow> (nat \<times> quasar_neighbor_filter) list" where
  "walk_candidates q =
     concat (map (\<lambda>level. map (Pair level) (q_neighbor_filters q)) [0..<unat (abf_level_count (q_routing q))])"

definition directed_target :: "hash_fn \<Rightarrow> quasar \<Rightarrow> bytes \<Rightarrow> bytes list \<Rightarrow> (u32 \<times> u16) option" where
  "directed_target xxh q topic negs =
     map_option (\<lambda>c. nf_key (snd c)) (find (candidate_ok xxh topic negs) (walk_candidates q))"

definition send_route :: "quasar_route_message \<Rightarrow> u32 \<times> u16 \<Rightarrow> effect list" where
  "send_route msg peer =
     (case quasar_route_message_serialize msg of None \<Rightarrow> [] | Some buf \<Rightarrow> [Send buf peer])"

text \<open>The loop over the connected peers of a random walk.\<close>

fun random_walk ::
  "hash_fn \<Rightarrow> u32 \<Rightarrow> (u32 \<times> u16) list \<Rightarrow> quasar_route_message \<Rightarrow> u32 \<Rightarrow> quasar_route_message \<times> effect list" where
  "random_walk xxh alpha [] msg sent = (msg, [])"
| "random_walk xxh alpha (p # ps) msg sent =
     (if sent < alpha then
        if \<not> quasar_route_message_has_visited xxh msg p then
          let (msg', outs) = random_walk xxh alpha ps (quasar_route_message_add_visited xxh msg p) (sent + 1)
          in (msg', send_route msg p @ outs)
        else random_walk xxh alpha ps msg sent
      else (msg, []))"

text \<open>The loop of \<open>quasar_publish\<close> that publishes to every neighbour, on \<open>(seen, effects)\<close>.\<close>

definition publish_to_peers ::
  "hash_fn \<Rightarrow> (nat \<Rightarrow> quasar_message_id) \<Rightarrow> quasar \<Rightarrow> bytes \<Rightarrow> bytes option \<Rightarrow> meridian_view
     \<Rightarrow> bloom_filter \<times> effect list" where
  "publish_to_peers xxh mids q topic data pv =
     fold (\<lambda>(i, peer) (seen, outs).
             case quasar_route_message_create (mids i) (Some topic) data (q_max_hops q)
                    QUASAR_DEFAULT_NEGATIVE_SIZE QUASAR_DEFAULT_NEGATIVE_HASHES of
               None \<Rightarrow> (seen, outs)
             | Some m \<Rightarrow>
                 let seen' = snd (bloom_filter_add xxh seen (Some (mid_bytes (rm_id m))));
                     m' = quasar_route_message_add_visited xxh
                            (quasar_route_message_add_publisher m (mv_local pv)) (mv_local pv)
                 in (seen', outs @ send_route m' peer))
       (enumerate 0 (mv_peers pv)) (q_seen q, [])"

definition quasar_publish ::
  "hash_fn \<Rightarrow> (nat \<Rightarrow> quasar_message_id) \<Rightarrow> quasar \<Rightarrow> bytes option \<Rightarrow> bytes option \<Rightarrow> int \<times> quasar \<times> effect list" where
  "quasar_publish xxh mids q topic data =
     (case topic of
        None \<Rightarrow> (- 1, q, [])
      | Some t \<Rightarrow>
          let create = quasar_route_message_create (mids 0) (Some t) data (q_max_hops q)
                         QUASAR_DEFAULT_NEGATIVE_SIZE QUASAR_DEFAULT_NEGATIVE_HASHES;
              seen_add = (\<lambda>m. q\<lparr>q_seen := snd (bloom_filter_add xxh (q_seen q) (Some (mid_bytes (rm_id m))))\<rparr>)
          in if locally_subscribed q t then
               let cb = (if q_on_message q then [Deliver t data] else [])
               in case q_protocol q of
                    None \<Rightarrow> (0, q, cb)
                  | Some pv \<Rightarrow>
                      let (seen, outs) = publish_to_peers xxh mids q t data pv
                      in (0, q\<lparr>q_seen := seen\<rparr>, cb @ outs)
             else
               case q_protocol q of
                 None \<Rightarrow> (case create of None \<Rightarrow> (- 1, q, []) | Some m \<Rightarrow> (0, seen_add m, []))
               | Some pv \<Rightarrow>
                   let (addr, port) = mv_local pv;
                       negs = (if addr \<noteq> 0 \<or> port \<noteq> 0 then [node_key addr port] else [])
                   in case directed_target xxh q t negs of
                        Some target \<Rightarrow>
                          (case create of
                             None \<Rightarrow> (0, q, [])
                           | Some m \<Rightarrow>
                               (0, seen_add m,
                                send_route (quasar_route_message_add_visited xxh
                                  (quasar_route_message_add_publisher m (mv_local pv)) (mv_local pv)) target))
                      | None \<Rightarrow>
                          (case create of
                             None \<Rightarrow> (- 1, q, [])
                           | Some m \<Rightarrow>
                               let m' = quasar_route_message_add_publisher
                                          (quasar_route_message_add_visited xxh m (mv_local pv)) (mv_local pv)
                               in (0, seen_add m, snd (random_walk xxh (q_alpha q) (mv_peers pv) m' 0))))"

definition quasar_on_route_message ::
  "hash_fn \<Rightarrow> quasar \<Rightarrow> quasar_route_message \<Rightarrow> int \<times> quasar \<times> quasar_route_message \<times> effect list" where
  "quasar_on_route_message xxh q0 msg =
     (if bloom_filter_contains xxh (q_seen q0) (Some (mid_bytes (rm_id msg))) then (0, q0, msg, [])
      else
        let q = q0\<lparr>q_seen := snd (bloom_filter_add xxh (q_seen q0) (Some (mid_bytes (rm_id msg))))\<rparr>;
            local = (case q_protocol q of None \<Rightarrow> (0, 0) | Some pv \<Rightarrow> mv_local pv);
            m1 = quasar_route_message_add_visited xxh msg local
        in if locally_subscribed q (rm_topic msg) then
             let m2 = quasar_route_message_add_publisher m1 local;
                 cb = (if q_on_message q then [Deliver (rm_topic msg) (Some (rm_data msg))] else []);
                 outs = (case q_protocol q of None \<Rightarrow> [] | Some pv \<Rightarrow> concat (map (send_route m2) (mv_peers pv)))
             in (0, q, m2, cb @ outs)
           else if rm_hops_remaining m1 = 0 then (0, q, m1, [])
           else
             let m2 = m1\<lparr>rm_hops_remaining := rm_hops_remaining m1 - 1\<rparr>
             in case directed_target xxh q (rm_topic msg) (map (\<lambda>p. node_key (fst p) (snd p)) (rm_pubs m2)) of
                  Some target \<Rightarrow>
                    (0, q, m2, case q_protocol q of None \<Rightarrow> [] | Some _ \<Rightarrow> send_route m2 target)
                | None \<Rightarrow>
                    (case q_protocol q of
                       None \<Rightarrow> (0, q, m2, [])
                     | Some pv \<Rightarrow>
                         let (m3, outs) = random_walk xxh (q_alpha q) (mv_peers pv) m2 0
                         in (0, q, m3, outs)))"

section \<open>Gossip and maintenance\<close>

definition quasar_gossip_decode :: "(bytes \<Rightarrow> cbor_item option) \<Rightarrow> bytes \<Rightarrow> attenuated_bloom_filter cres" where
  "quasar_gossip_decode cbor_load data =
     cguard (length data \<ge> 7 * 4) (
     case cbor_load data of
       None \<Rightarrow> Fail
     | Some item \<Rightarrow>
         cbind (cbor_definite_array item) (\<lambda>items.
         cguard (length items \<ge> 3) (
         cguard (cbor_isa_uint (items ! 0)) (
         cbind (cbor_get_uint8 (items ! 0)) (\<lambda>type.
         cguard (type = MERIDIAN_PACKET_TYPE_QUASAR_GOSSIP) (
         cguard (cbor_isa_uint (items ! 1)) (
         cbind (cbor_get_uint32 (items ! 1)) (\<lambda>level_count.
         cbind (attenuated_bloom_filter_decode (items ! 2)) (\<lambda>decoded.
         cguard (abf_level_count decoded = level_count) (Ret decoded))))))))))"

definition store_neighbor_filter ::
  "u32 \<times> u16 \<Rightarrow> attenuated_bloom_filter \<Rightarrow> quasar_neighbor_filter list \<Rightarrow> quasar_neighbor_filter list" where
  "store_neighbor_filter node f nfs =
     remove_first (\<lambda>nf. nf_addr nf = fst node \<and> nf_port nf = snd node) nfs
     @ [\<lparr>nf_addr = fst node, nf_port = snd node, nf_filter = f\<rparr>]"

definition quasar_on_gossip ::
  "(bytes \<Rightarrow> cbor_item option) \<Rightarrow> quasar \<Rightarrow> bytes \<Rightarrow> (u32 \<times> u16) option \<Rightarrow> (int \<times> quasar) cres" where
  "quasar_on_gossip cbor_load q data from =
     (case quasar_gossip_decode cbor_load data of
        Undef \<Rightarrow> Undef
      | Fail \<Rightarrow> Ret (- 1, q)
      | Ret decoded \<Rightarrow>
          let (result, routing) = attenuated_bloom_filter_merge (q_routing q) decoded
          in case from of
               None \<Rightarrow> Ret (result, q\<lparr>q_routing := routing\<rparr>)
             | Some node \<Rightarrow>
                 Ret (0, q\<lparr>q_neighbor_filters := store_neighbor_filter node decoded (q_neighbor_filters q),
                           q_routing := routing\<rparr>))"

text \<open>\<open>rc\<close> is the status of the broadcast.\<close>

definition quasar_propagate :: "(cbor_item \<Rightarrow> bytes) \<Rightarrow> int \<Rightarrow> quasar \<Rightarrow> int \<times> effect list" where
  "quasar_propagate cbor_serialize rc q =
     (case q_protocol q of
        None \<Rightarrow> (- 1, [])
      | Some pv \<Rightarrow>
          let packet = CBOR_ARRAY True
                [cbor_build_uint8 MERIDIAN_PACKET_TYPE_QUASAR_GOSSIP,
                 cbor_build_uint32 (abf_level_count (q_routing q)),
                 attenuated_bloom_filter_encode (q_routing q)];
              buf = cbor_serialize packet
          in if buf = [] then (- 1, []) else (if rc = 0 then 0 else - 1, [Broadcast buf]))"

text \<open>The loop of \<open>quasar_tick\<close> over the subscriptions, with the routing filter.\<close>

fun tick_subs ::
  "hash_fn \<Rightarrow> quasar_subscription list \<Rightarrow> attenuated_bloom_filter \<Rightarrow> quasar_subscription list \<times> attenuated_bloom_filter" where
  "tick_subs xxh [] routing = ([], routing)"
| "tick_subs xxh (s # ss) routing =
     (if sub_ttl s > 0 then
        let ttl = sub_ttl s - 1
        in if ttl = 0 then
             tick_subs xxh ss (snd (attenuated_bloom_filter_unsubscribe xxh routing (Some (sub_topic s))))
           else let (ss', r) = tick_subs xxh ss routing in (s\<lparr>sub_ttl := ttl\<rparr> # ss', r)
      else let (ss', r) = tick_subs xxh ss routing in (s # ss', r))"

definition quasar_tick :: "hash_fn \<Rightarrow> quasar \<Rightarrow> int \<times> quasar" where
  "quasar_tick xxh q =
     (let (subs, routing) = tick_subs xxh (q_local_subs q) (q_routing q)
      in (0, q\<lparr>q_local_subs := subs, q_routing := routing\<rparr>))"

section \<open>The table of neighbour filters\<close>

interpretation nf_table: keyed_table "\<lambda>nfs. distinct (map nf_key nfs)"
  "\<lambda>nfs k. map_option nf_filter (find (\<lambda>nf. nf_key nf = k) nfs)"
  store_neighbor_filter "\<lambda>k. remove_first (\<lambda>nf. nf_key nf = k)"
proof
  fix t :: "quasar_neighbor_filter list" and k k' e
  assume d: "distinct (map nf_key t)"
  have st: "store_neighbor_filter k e t
      = remove_first (\<lambda>nf. nf_key nf = k) t @ [\<lparr>nf_addr = fst k, nf_port = snd k, nf_filter = e\<rparr>]"
    by (simp add: store_neighbor_filter_def nf_key_def prod_eq_iff)
  show "distinct (map nf_key (store_neighbor_filter k e t))"
    unfolding st using d by (rule distinct_remove_first_append) (simp add: nf_key_def)
  show "distinct (map nf_key (remove_first (\<lambda>nf. nf_key nf = k) t))"
    using d by (rule distinct_map_remove_first)
  show "map_option nf_filter (find (\<lambda>nf. nf_key nf = k') (store_neighbor_filter k e t))
      = (if k' = k then Some e else map_option nf_filter (find (\<lambda>nf. nf_key nf = k') t))"
    using d by (cases "k' = k") (auto simp: st find_append find_remove_first_same find_remove_first_other
        nf_key_def [of "\<lparr>nf_addr = _, nf_port = _, nf_filter = _\<rparr>"] split: option.split)
  show "map_option nf_filter (find (\<lambda>nf. nf_key nf = k') (remove_first (\<lambda>nf. nf_key nf = k) t))
      = (if k' = k then None else map_option nf_filter (find (\<lambda>nf. nf_key nf = k') t))"
    using d by (simp add: find_remove_first_same find_remove_first_other)
qed

lemma get_neighbor_filter_find:
  "quasar_get_neighbor_filter q k = map_option nf_filter (find (\<lambda>nf. nf_key nf = k) (q_neighbor_filters q))"
  by (simp add: quasar_get_neighbor_filter_def nf_key_def prod_eq_iff)

section \<open>Invariant\<close>

definition quasar_wf :: "quasar \<Rightarrow> bool" where
  "quasar_wf q \<longleftrightarrow> abf_wf (q_routing q) \<and> bloom_wf (q_seen q) \<and> distinct (map nf_key (q_neighbor_filters q))"

lemma quasar_wf_create [wf_intros]:
  "max_hops \<noteq> 0 \<Longrightarrow> seen_size \<noteq> 0 \<Longrightarrow> quasar_wf (quasar_create pv max_hops alpha seen_size k)"
  by (simp add: quasar_wf_def quasar_create_def abf_wf_create bloom_wf_create unat_gt_0
      QUASAR_DEFAULT_SIZE_def QUASAR_DEFAULT_FP_BITS_def)

text \<open>The key a subscriber adds for itself, and the whole effect of a subscription.\<close>

definition own_keys :: "quasar \<Rightarrow> bytes list" where
  "own_keys q =
     (case q_protocol q of
        None \<Rightarrow> []
      | Some pv \<Rightarrow> if fst (mv_local pv) \<noteq> 0 \<or> snd (mv_local pv) \<noteq> 0
                    then [node_key (fst (mv_local pv)) (snd (mv_local pv))] else [])"

lemma quasar_subscribe_eq:
  assumes "abf_wf (q_routing q)"
  shows "quasar_subscribe xxh q (Some t) ttl =
    (0, q\<lparr>q_routing := (q_routing q)\<lparr>abf_levels := (abf_levels (q_routing q))
            [0 := fold (\<lambda>d f. snd (elastic_bloom_filter_add xxh f (Some d))) (t # own_keys q)
                    (abf_levels (q_routing q) ! 0)]\<rparr>,
          q_local_subs := q_local_subs q @ [\<lparr>sub_topic = t, sub_ttl = ttl\<rparr>]\<rparr>)"
  using abf_wfD(1,2) [OF assms] assms
  by (simp add: quasar_subscribe_def subscribe_eq own_keys_def attenuated_bloom_filter_get_level_def
      abf_wf_def Let_def split_def split: option.split)

lemma ebf_wf_fold_add:
  "ebf_wf f \<Longrightarrow> ebf_wf (fold (\<lambda>d f. snd (elastic_bloom_filter_add xxh f (Some d))) ds f)"
  by (induction ds arbitrary: f) (simp_all add: add_result(1))

lemma quasar_wf_subscribe [wf_intros]:
  assumes "quasar_wf q"
  shows "quasar_wf (snd (quasar_subscribe xxh q topic ttl))"
proof (cases topic)
  case (Some t)
  have abf: "abf_wf (q_routing q)" using assms by (simp add: quasar_wf_def)
  then have "ebf_wf (fold (\<lambda>d f. snd (elastic_bloom_filter_add xxh f (Some d))) (t # own_keys q)
      (abf_levels (q_routing q) ! 0))"
    by (intro ebf_wf_fold_add abf_wfD)
  with abf_wf_update [OF abf, of _ 0] assms Some show ?thesis
    by (simp add: quasar_subscribe_eq [OF abf] quasar_wf_def del: fold.simps)
qed (use assms in \<open>simp add: quasar_subscribe_def\<close>)

lemma bloom_wf_seen [wf_intros]:
  "quasar_wf q \<Longrightarrow> quasar_wf (q\<lparr>q_seen := snd (bloom_filter_add xxh (q_seen q) d)\<rparr>)"
  by (simp add: quasar_wf_def bloom_wf_add)

section \<open>Handling routed messages\<close>

lemma on_route_seen_dup:
  "bloom_filter_contains xxh (q_seen q) (Some (mid_bytes (rm_id msg)))
     \<Longrightarrow> quasar_on_route_message xxh q msg = (0, q, msg, [])"
  by (simp add: quasar_on_route_message_def)

lemma on_route_state:
  "fst (snd (quasar_on_route_message xxh q msg)) =
     (if bloom_filter_contains xxh (q_seen q) (Some (mid_bytes (rm_id msg))) then q
      else q\<lparr>q_seen := snd (bloom_filter_add xxh (q_seen q) (Some (mid_bytes (rm_id msg))))\<rparr>)"
  by (simp add: quasar_on_route_message_def Let_def split: option.split prod.split)

lemma on_route_marks_seen:
  "bloom_filter_contains xxh (q_seen (fst (snd (quasar_on_route_message xxh q msg)))) (Some (mid_bytes (rm_id msg)))"
  by (simp add: on_route_state bloom_contains_add_same)

lemma on_route_keeps_seen:
  "bloom_filter_contains xxh (q_seen q) (Some d)
     \<Longrightarrow> bloom_filter_contains xxh (q_seen (fst (snd (quasar_on_route_message xxh q msg)))) (Some d)"
  by (simp add: on_route_state bloom_contains_add_mono)

text \<open>A node handling a sequence of routed messages: the effects of each one.\<close>

fun route_run :: "hash_fn \<Rightarrow> quasar \<Rightarrow> quasar_route_message list \<Rightarrow> effect list list" where
  "route_run xxh q [] = []"
| "route_run xxh q (m # ms) =
     (let (r, q', m', outs) = quasar_on_route_message xxh q m in outs # route_run xxh q' ms)"

lemma route_run_Cons:
  "route_run xxh q (m # ms) = snd (snd (snd (quasar_on_route_message xxh q m)))
     # route_run xxh (fst (snd (quasar_on_route_message xxh q m))) ms"
  by (simp add: split_def Let_def)

lemma route_run_seen:
  "bloom_filter_contains xxh (q_seen q) (Some (mid_bytes mid)) \<Longrightarrow> j < length ms \<Longrightarrow> rm_id (ms ! j) = mid
     \<Longrightarrow> route_run xxh q ms ! j = []"
proof (induction ms arbitrary: q j)
  case (Cons m ms)
  show ?case
  proof (cases j)
    case 0
    with Cons.prems show ?thesis by (simp add: on_route_seen_dup)
  next
    case (Suc i)
    with Cons.prems Cons.IH [OF on_route_keeps_seen [OF Cons.prems(1), of m], of i] show ?thesis
      by (simp add: route_run_Cons del: route_run.simps(2))
  qed
qed simp

section \<open>The random walk\<close>

definition send_targets :: "effect list \<Rightarrow> (u32 \<times> u16) list" where
  "send_targets outs = concat (map (\<lambda>e. case e of Send _ p \<Rightarrow> [p] | _ \<Rightarrow> []) outs)"

lemma send_targets_Nil [simp]: "send_targets [] = []"
  by (simp add: send_targets_def)

lemma send_targets_append [simp]: "send_targets (xs @ ys) = send_targets xs @ send_targets ys"
  by (simp add: send_targets_def)

lemma send_targets_route: "send_targets (send_route msg p) = [] \<or> send_targets (send_route msg p) = [p]"
  by (simp add: send_route_def send_targets_def split: option.split)

lemma random_walk_targets:
  "unat sent \<le> unat alpha \<Longrightarrow>
   length (send_targets (snd (random_walk xxh alpha ps msg sent))) \<le> unat alpha - unat sent
   \<and> (\<forall>p \<in> set (send_targets (snd (random_walk xxh alpha ps msg sent))).
        p \<in> set ps \<and> \<not> quasar_route_message_has_visited xxh msg p)
   \<and> distinct (send_targets (snd (random_walk xxh alpha ps msg sent)))"
proof (induction ps arbitrary: msg sent)
  case (Cons p ps)
  show ?case
  proof (cases "sent < alpha \<and> \<not> quasar_route_message_has_visited xxh msg p")
    case True
    then have s: "unat (sent + 1) = unat sent + 1" "unat sent < unat alpha"
      using unat_add_one_u32 [of sent alpha] by (auto simp: word_less_nat_alt)
    let ?m = "quasar_route_message_add_visited xxh msg p"
    from Cons.IH [of "sent + 1" ?m] s
    have IH: "length (send_targets (snd (random_walk xxh alpha ps ?m (sent + 1)))) \<le> unat alpha - (unat sent + 1)"
      "\<forall>r \<in> set (send_targets (snd (random_walk xxh alpha ps ?m (sent + 1)))).
         r \<in> set ps \<and> \<not> quasar_route_message_has_visited xxh ?m r"
      "distinct (send_targets (snd (random_walk xxh alpha ps ?m (sent + 1))))"
      by simp_all
    have eq: "snd (random_walk xxh alpha (p # ps) msg sent)
        = send_route msg p @ snd (random_walk xxh alpha ps ?m (sent + 1))"
      using True by (simp add: split_def Let_def)
    have nv: "\<not> quasar_route_message_has_visited xxh msg r \<and> r \<noteq> p"
      if "\<not> quasar_route_message_has_visited xxh ?m r" for r
      using that has_visited_mono [of xxh msg r p] by auto
    show ?thesis
      using send_targets_route [of msg p] IH True s nv unfolding eq by (elim disjE) auto
  next
    case False
    with Cons show ?thesis by auto
  qed
qed (simp add: send_targets_def)

text \<open>Every packet of a random walk carries the message, with the nodes visited so far.\<close>

definition carries :: "quasar_route_message \<Rightarrow> effect \<Rightarrow> bool" where
  "carries msg e \<longleftrightarrow>
     (\<exists>m p buf. e = Send buf p \<and> quasar_route_message_serialize m = Some buf
        \<and> rm_id m = rm_id msg \<and> rm_topic m = rm_topic msg \<and> rm_data m = rm_data msg
        \<and> rm_hops_remaining m = rm_hops_remaining msg \<and> rm_pubs m = rm_pubs msg)"

lemma send_route_carries: "e \<in> set (send_route m p) \<Longrightarrow> carries m e"
  by (auto simp: send_route_def carries_def split: option.splits)

lemma carries_add_visited [simp]: "carries (quasar_route_message_add_visited xxh msg n) = carries msg"
  by (simp add: carries_def fun_eq_iff)

lemma random_walk_carries: "e \<in> set (snd (random_walk xxh alpha ps msg sent)) \<Longrightarrow> carries msg e"
proof (induction ps arbitrary: msg sent)
  case (Cons p ps)
  show ?case
  proof (cases "sent < alpha \<and> \<not> quasar_route_message_has_visited xxh msg p")
    case True
    then have "e \<in> set (send_route msg p)
        \<or> e \<in> set (snd (random_walk xxh alpha ps (quasar_route_message_add_visited xxh msg p) (sent + 1)))"
      using Cons.prems by (auto simp: split_def Let_def)
    then show ?thesis
      using Cons.IH [of "quasar_route_message_add_visited xxh msg p"] send_route_carries [of e msg p] by auto
  next
    case False
    with Cons show ?thesis by (auto split: if_splits)
  qed
qed simp

section \<open>Time to live of subscriptions\<close>

definition tick_sub :: "quasar_subscription \<Rightarrow> quasar_subscription" where
  "tick_sub s = s\<lparr>sub_ttl := (if sub_ttl s = 0 then 0 else sub_ttl s - 1)\<rparr>"

lemma tick_subs_eq:
  "fst (tick_subs xxh ss routing) = map tick_sub (filter (\<lambda>s. sub_ttl s \<noteq> 1) ss)"
proof (induction ss arbitrary: routing)
  case (Cons s ss)
  have "sub_ttl s - 1 = 0 \<longleftrightarrow> sub_ttl s = 1" by simp
  with Cons show ?case
    by (auto simp: tick_sub_def Let_def split_def word_neq_0_conv [symmetric])
qed simp

lemma quasar_tick_subs:
  "q_local_subs (snd (quasar_tick xxh q)) = map tick_sub (filter (\<lambda>s. sub_ttl s \<noteq> 1) (q_local_subs q))"
  by (simp add: quasar_tick_def split_def Let_def tick_subs_eq)

text \<open>\<open>n\<close> ticks in a row.\<close>

primrec quasar_ticks :: "hash_fn \<Rightarrow> nat \<Rightarrow> quasar \<Rightarrow> quasar" where
  "quasar_ticks xxh 0 q = q"
| "quasar_ticks xxh (Suc n) q = quasar_ticks xxh n (snd (quasar_tick xxh q))"

lemma unat_minus_one_pos: "(w::u32) \<noteq> 0 \<Longrightarrow> unat (w - 1) = unat w - 1"
  by (simp add: unat_minus_one)

lemma quasar_ticks_subs:
  "map (\<lambda>s. (sub_topic s, unat (sub_ttl s))) (q_local_subs (quasar_ticks xxh n q)) =
     map (\<lambda>s. (sub_topic s, unat (sub_ttl s) - n))
       (filter (\<lambda>s. sub_ttl s = 0 \<or> n < unat (sub_ttl s)) (q_local_subs q))"
proof (induction n arbitrary: q)
  case 0
  have "(\<lambda>s::quasar_subscription. sub_ttl s = 0 \<or> 0 < unat (sub_ttl s)) = (\<lambda>s. True)"
    by (auto simp: fun_eq_iff unat_gt_0)
  then show ?case by simp
next
  case (Suc n)
  have t: "sub_ttl (tick_sub s) = 0 \<or> n < unat (sub_ttl (tick_sub s)) \<longleftrightarrow>
      sub_ttl s = 0 \<or> Suc n < unat (sub_ttl s)" if "sub_ttl s \<noteq> 1" for s :: quasar_subscription
    using that unat_minus_one_pos [of "sub_ttl s"] by (auto simp: tick_sub_def)
  have v: "(sub_topic (tick_sub s), unat (sub_ttl (tick_sub s)) - n) = (sub_topic s, unat (sub_ttl s) - Suc n)"
    for s :: quasar_subscription
    using unat_minus_one_pos [of "sub_ttl s"] by (simp add: tick_sub_def)
  have "filter (\<lambda>s. sub_ttl s = 0 \<or> n < unat (sub_ttl s)) (map tick_sub (filter (\<lambda>s. sub_ttl s \<noteq> 1) ss))
      = map tick_sub (filter (\<lambda>s. sub_ttl s = 0 \<or> Suc n < unat (sub_ttl s)) ss)" for ss
    using t by (induction ss) auto
  then show ?case
    by (simp add: Suc quasar_tick_subs comp_def v)
qed

section \<open>Publishing to every neighbour\<close>

definition republish_msg ::
  "hash_fn \<Rightarrow> quasar \<Rightarrow> bytes \<Rightarrow> bytes \<Rightarrow> u32 \<times> u16 \<Rightarrow> quasar_message_id \<Rightarrow> quasar_route_message" where
  "republish_msg xxh q t d local mid =
     quasar_route_message_add_visited xxh (quasar_route_message_add_publisher
       \<lparr>rm_id = mid, rm_topic = t, rm_data = d,
        rm_visited = bloom_filter_create QUASAR_DEFAULT_NEGATIVE_SIZE QUASAR_DEFAULT_NEGATIVE_HASHES,
        rm_hops_remaining = q_max_hops q, rm_pubs = [], rm_pub_capacity = 0\<rparr> local) local"

lemma republish_msg_fields [simp]:
  "rm_id (republish_msg xxh q t d l mid) = mid" "rm_topic (republish_msg xxh q t d l mid) = t"
  "rm_data (republish_msg xxh q t d l mid) = d" "rm_pubs (republish_msg xxh q t d l mid) = [l]"
  "rm_hops_remaining (republish_msg xxh q t d l mid) = q_max_hops q"
  by (simp_all add: republish_msg_def)

lemma rm_wf_republish [wf_intros]:
  "length t \<le> 1400 \<Longrightarrow> length d \<le> 1400 \<Longrightarrow> rm_wf (republish_msg xxh q t d l mid)"
  unfolding republish_msg_def
  by (intro rm_wf_add_visited rm_wf_add_publisher)
     (simp_all add: rm_wf_def bloom_wf_create QUASAR_DEFAULT_NEGATIVE_SIZE_def MERIDIAN_MAX_NODES_def
       MERIDIAN_MAX_PAYLOAD_SIZE_def, simp_all add: bloom_filter_create_def)

lemma publish_to_peers_sends:
  "snd (publish_to_peers xxh mids q t (Some d) pv) =
     concat (map (\<lambda>(i, p). send_route (republish_msg xxh q t d (mv_local pv) (mids i)) p)
       (enumerate 0 (mv_peers pv)))"
proof -
  have "snd (fold (\<lambda>(i, peer) (seen, outs).
             case quasar_route_message_create (mids i) (Some t) (Some d) (q_max_hops q)
                    QUASAR_DEFAULT_NEGATIVE_SIZE QUASAR_DEFAULT_NEGATIVE_HASHES of
               None \<Rightarrow> (seen, outs)
             | Some m \<Rightarrow>
                 let seen' = snd (bloom_filter_add xxh seen (Some (mid_bytes (rm_id m))));
                     m' = quasar_route_message_add_visited xxh
                            (quasar_route_message_add_publisher m (mv_local pv)) (mv_local pv)
                 in (seen', outs @ send_route m' peer)) ips (seen, outs))
      = outs @ concat (map (\<lambda>(i, p). send_route (republish_msg xxh q t d (mv_local pv) (mids i)) p) ips)"
    for ips seen outs
    by (induction ips arbitrary: seen outs)
       (auto simp: quasar_route_message_create_def republish_msg_def Let_def)
  from this [of "enumerate 0 (mv_peers pv)" "q_seen q" "[]"] show ?thesis
    by (simp add: publish_to_peers_def)
qed

lemma publish_subscribed:
  assumes "locally_subscribed q t" "q_protocol q = Some pv"
  shows "snd (snd (quasar_publish xxh mids q (Some t) (Some d))) =
    (if q_on_message q then [Deliver t (Some d)] else [])
    @ concat (map (\<lambda>(i, p). send_route (republish_msg xxh q t d (mv_local pv) (mids i)) p)
        (enumerate 0 (mv_peers pv)))"
  using assms publish_to_peers_sends [of xxh mids q t d pv]
  by (simp add: quasar_publish_def Let_def split_def)

definition deliveries :: "effect list \<Rightarrow> effect list" where
  "deliveries outs = filter (\<lambda>e. case e of Deliver _ _ \<Rightarrow> True | _ \<Rightarrow> False) outs"

lemma deliveries_simps [simp]:
  "deliveries [] = []" "deliveries (xs @ ys) = deliveries xs @ deliveries ys"
  "deliveries (send_route m p) = []" "deliveries [Deliver t d] = [Deliver t d]"
  by (auto simp: deliveries_def send_route_def split: option.split)

lemma deliveries_Deliver [simp]: "deliveries (Deliver t d # xs) = Deliver t d # deliveries xs"
  by (simp add: deliveries_def)

lemma deliveries_concat [simp]: "deliveries (concat (map (send_route m) ps)) = []"
  by (induction ps) auto

lemma deliveries_random_walk [simp]: "deliveries (snd (random_walk xxh alpha ps msg sent)) = []"
  by (induction ps arbitrary: msg sent) (auto simp: split_def Let_def)

text \<open>What a node forwards when it is not subscribed, and to whom.\<close>

definition forwarded_msg :: "hash_fn \<Rightarrow> quasar \<Rightarrow> quasar_route_message \<Rightarrow> quasar_route_message" where
  "forwarded_msg xxh q msg =
     (quasar_route_message_add_visited xxh msg
        (case q_protocol q of None \<Rightarrow> (0, 0) | Some pv \<Rightarrow> mv_local pv))
       \<lparr>rm_hops_remaining := rm_hops_remaining msg - 1\<rparr>"

lemma forwarded_msg_carries [simp]:
  "carries (forwarded_msg xxh q msg) = carries (msg\<lparr>rm_hops_remaining := rm_hops_remaining msg - 1\<rparr>)"
  by (simp add: carries_def forwarded_msg_def fun_eq_iff)

lemma directed_target_seen [simp]: "directed_target xxh (q\<lparr>q_seen := s\<rparr>) = directed_target xxh q"
  by (simp add: directed_target_def walk_candidates_def fun_eq_iff)

lemma locally_subscribed_seen [simp]: "locally_subscribed (q\<lparr>q_seen := s\<rparr>) = locally_subscribed q"
  by (simp add: locally_subscribed_def fun_eq_iff)

lemma on_route_forward:
  assumes "\<not> bloom_filter_contains xxh (q_seen q) (Some (mid_bytes (rm_id msg)))"
    and "\<not> locally_subscribed q (rm_topic msg)"
  shows "snd (snd (snd (quasar_on_route_message xxh q msg))) =
    (if rm_hops_remaining msg = 0 then []
     else case directed_target xxh q (rm_topic msg) (map (\<lambda>p. node_key (fst p) (snd p)) (rm_pubs msg)) of
            Some target \<Rightarrow>
              (case q_protocol q of None \<Rightarrow> [] | Some _ \<Rightarrow> send_route (forwarded_msg xxh q msg) target)
          | None \<Rightarrow>
              (case q_protocol q of
                 None \<Rightarrow> []
               | Some pv \<Rightarrow> snd (random_walk xxh (q_alpha q) (mv_peers pv) (forwarded_msg xxh q msg) 0)))"
  using assms
  by (simp add: quasar_on_route_message_def Let_def forwarded_msg_def split_def split: option.split)

section \<open>Properties\<close>

text \<open>
  C2. A node acts on a message identifier at most once: in any sequence of routed
  messages it handles, a later message with the identifier of an earlier one has
  no effect (no delivery, no forwarding).
\<close>

theorem route_message_once:
  assumes "quasar_wf q" "i < j" "j < length ms" "rm_id (ms ! i) = rm_id (ms ! j)"
  shows "route_run xxh q ms ! j = []"
  using assms(2-4)
proof (induction ms arbitrary: q i j)
  case (Cons m ms)
  obtain j' where j: "j = Suc j'" using Cons.prems(1) by (cases j) auto
  let ?q = "fst (snd (quasar_on_route_message xxh q m))"
  have "route_run xxh ?q ms ! j' = []"
  proof (cases i)
    case 0
    with Cons.prems j show ?thesis
      by (intro route_run_seen [OF on_route_marks_seen]) simp_all
  next
    case (Suc i')
    with Cons.prems j show ?thesis by (intro Cons.IH [of i']) simp_all
  qed
  then show ?case by (simp add: route_run_Cons j del: route_run.simps(2))
qed simp

theorem route_message_once_witness:
  "let m = the (quasar_route_message_create \<lparr>mid_time = 1, mid_nanos = 2, mid_count = 3\<rparr> (Some [7]) (Some [8]) 5 16 3)
   in route_run (\<lambda>d s. s) (quasar_create None 5 3 64 3) [m, m] ! 1 = []"
  unfolding Let_def
  by (rule route_message_once [of _ 0]) (simp_all add: quasar_wf_create)

text \<open>
  C3. Delivery: on a message identifier it has not seen, a node invokes the message
  callback exactly once when it has a subscription with exactly the message's topic
  and a callback is set, with the topic and payload of the message, and not at all
  otherwise. The handler always succeeds.
\<close>

theorem route_message_delivery:
  assumes "\<not> bloom_filter_contains xxh (q_seen q) (Some (mid_bytes (rm_id msg)))"
  shows "fst (quasar_on_route_message xxh q msg) = 0
    \<and> deliveries (snd (snd (snd (quasar_on_route_message xxh q msg)))) =
        (if locally_subscribed q (rm_topic msg) \<and> q_on_message q
         then [Deliver (rm_topic msg) (Some (rm_data msg))] else [])"
proof -
  have sub: "locally_subscribed (q\<lparr>q_seen := s\<rparr>) t = locally_subscribed q t" for s t
    by (simp add: locally_subscribed_def)
  show ?thesis
    using assms
    by (auto simp: quasar_on_route_message_def Let_def sub deliveries_concat deliveries_random_walk
        split: option.split prod.split)
qed

theorem route_message_delivery_witness:
  "let m = the (quasar_route_message_create \<lparr>mid_time = 1, mid_nanos = 2, mid_count = 3\<rparr> (Some [7]) (Some [8]) 5 16 3);
       q = (quasar_create None 5 3 64 3)\<lparr>q_local_subs := [\<lparr>sub_topic = [7], sub_ttl = 0\<rparr>], q_on_message := True\<rparr>
   in deliveries (snd (snd (snd (quasar_on_route_message (\<lambda>d s. s) q m)))) = [Deliver [7] (Some [8])]"
proof -
  define m where "m = the (quasar_route_message_create \<lparr>mid_time = 1, mid_nanos = 2, mid_count = 3\<rparr> (Some [7]) (Some [8]) 5 16 3)"
  define q where "q = (quasar_create None 5 3 64 3)\<lparr>q_local_subs := [\<lparr>sub_topic = [7], sub_ttl = 0\<rparr>], q_on_message := True\<rparr>"
  have "\<not> bloom_filter_contains (\<lambda>d s. s) (q_seen q) (Some (mid_bytes (rm_id m)))"
    by (simp add: q_def quasar_create_def bloom_create_empty)
  from route_message_delivery [OF this] show ?thesis
    by (simp add: Let_def m_def q_def quasar_route_message_create_def locally_subscribed_def)
qed



text \<open>
  Fan-out of the random walk: at most \<open>alpha\<close> packets, to pairwise different
  connected peers, none of which the message had visited.
\<close>

theorem random_walk_fanout:
  "length (send_targets (snd (random_walk xxh alpha ps msg 0))) \<le> unat alpha
   \<and> distinct (send_targets (snd (random_walk xxh alpha ps msg 0)))
   \<and> list_all (\<lambda>p. p \<in> set ps \<and> \<not> quasar_route_message_has_visited xxh msg p)
       (send_targets (snd (random_walk xxh alpha ps msg 0)))"
  using random_walk_targets [of 0 alpha xxh ps msg] by (simp add: list_all_iff)

text \<open>
  Expiry of subscriptions: after \<open>n\<close> ticks exactly the subscriptions with a
  time to live of 0 (never expiring) or more than \<open>n\<close> are left, in order, each with
  \<open>n\<close> ticks less.
\<close>

theorem quasar_ticks_expire:
  "map (\<lambda>s. (sub_topic s, unat (sub_ttl s))) (q_local_subs (quasar_ticks xxh n q)) =
     map (\<lambda>s. (sub_topic s, unat (sub_ttl s) - n))
       (filter (\<lambda>s. sub_ttl s = 0 \<or> n < unat (sub_ttl s)) (q_local_subs q))"
  by (rule quasar_ticks_subs)

text \<open>
  Gossip replaces the sender's filter: after a gossip that decodes, the sender's
  slot holds exactly the decoded filter, the slots of all other neighbours are
  unchanged, and there is still at most one slot per neighbour.
\<close>

theorem gossip_stores_filter:
  assumes "quasar_wf q" "quasar_gossip_decode cbor_load data = Ret f"
  shows "\<exists>q'. quasar_on_gossip cbor_load q data (Some node) = Ret (0, q')
    \<and> quasar_get_neighbor_filter q' node = Some f
    \<and> (\<forall>other. other \<noteq> node \<longrightarrow> quasar_get_neighbor_filter q' other = quasar_get_neighbor_filter q other)
    \<and> distinct (map nf_key (q_neighbor_filters q'))"
proof -
  have d: "distinct (map nf_key (q_neighbor_filters q))" using assms(1) by (simp add: quasar_wf_def)
  let ?nfs = "store_neighbor_filter node f (q_neighbor_filters q)"
  have "quasar_get_neighbor_filter (q\<lparr>q_neighbor_filters := ?nfs, q_routing := r\<rparr>) k
      = (if k = node then Some f else quasar_get_neighbor_filter q k)" for k r
    unfolding get_neighbor_filter_find using nf_table.lookup_store [OF d, where k = node and e = f and k' = k] by simp
  moreover have "distinct (map nf_key ?nfs)" using d by (rule nf_table.invar_store)
  ultimately show ?thesis
    using assms(2) by (simp add: quasar_on_gossip_def split_def Let_def)
qed

theorem gossip_stores_filter_witness:
  "let f = attenuated_bloom_filter_create 1 4 1 (1 / 2) 8;
       load = (\<lambda>d. Some (CBOR_ARRAY True [cbor_build_uint8 50, cbor_build_uint32 1, attenuated_bloom_filter_encode f]));
       q = quasar_create None 5 3 64 3
   in \<exists>q'. quasar_on_gossip load q (replicate 28 0) (Some (9, 9)) = Ret (0, q')
        \<and> quasar_get_neighbor_filter q' (9, 9) = Some f"
proof -
  define f where "f = attenuated_bloom_filter_create 1 4 1 (1 / 2) 8"
  let ?load = "\<lambda>d::bytes. Some (CBOR_ARRAY True [cbor_build_uint8 50, cbor_build_uint32 1, attenuated_bloom_filter_encode f])"
  have "ebf_in_memory (elastic_bloom_filter_create 4 1 (1 / 2) 8)"
    by (simp add: ebf_in_memory_def ebf_wf_create) (simp add: elastic_bloom_filter_create_def)
  then have "abf_in_memory f" by (simp add: abf_in_memory_def f_def attenuated_bloom_filter_create_def)
  moreover have "abf_carried f = f"
    by (simp add: f_def abf_carried_def attenuated_bloom_filter_create_def ebf_carried_def elastic_bloom_filter_create_def)
  ultimately have "attenuated_bloom_filter_decode (attenuated_bloom_filter_encode f) = Ret f"
    using abf_codec.dec_enc [of f] by simp
  then have "quasar_gossip_decode ?load (replicate 28 0) = Ret f"
    by (simp add: quasar_gossip_decode_def MERIDIAN_PACKET_TYPE_QUASAR_GOSSIP_def f_def
        attenuated_bloom_filter_create_def numeral_2_eq_2)
  from gossip_stores_filter [OF _ this, of "quasar_create None 5 3 64 3" "(9, 9)"] show ?thesis
    unfolding Let_def f_def by (auto simp: quasar_wf_create)
qed

text \<open>
  Only the subscriber of a topic that publishes it itself sends one copy per
  neighbour under a different identifier each: the packet for the \<open>i\<close>-th peer
  deserializes to a message with identifier \<open>mids i\<close>. Copies of one publication
  are therefore not recognised as duplicates by a node both of them reach.
\<close>

theorem publish_copies_distinct_ids:
  assumes "locally_subscribed q t" "q_protocol q = Some pv" "length t \<le> 1400" "length d \<le> 1400"
    and "i < length (mv_peers pv)" "\<not> q_on_message q"
  shows "\<exists>buf m. snd (snd (quasar_publish xxh mids q (Some t) (Some d))) ! i = Send buf (mv_peers pv ! i)
    \<and> quasar_route_message_deserialize buf = Some m \<and> rm_id m = mids i \<and> rm_topic m = t \<and> rm_data m = d"
proof -
  let ?m = "\<lambda>i. republish_msg xxh q t d (mv_local pv) (mids i)"
  have s: "send_route (?m i) p = [Send (the (quasar_route_message_serialize (?m i))) p]" for i p
    using route_serialize_wf [OF rm_wf_republish [OF assms(3,4)]] by (simp add: send_route_def)
  have "snd (snd (quasar_publish xxh mids q (Some t) (Some d))) =
      map (\<lambda>(i, p). Send (the (quasar_route_message_serialize (?m i))) p) (enumerate 0 (mv_peers pv))"
    using assms by (simp add: publish_subscribed s split_def concat_map_singleton)
  moreover have "quasar_route_message_deserialize (the (quasar_route_message_serialize (?m i))) = Some (rm_carried (?m i))"
    using route_serialize_wf [OF rm_wf_republish [OF assms(3,4)]]
      route_deserialize_serialize [OF rm_wf_republish [OF assms(3,4)], of xxh q "mv_local pv" "mids i" _ "[]"]
    by (metis append_Nil2 option.sel)
  ultimately show ?thesis
    using assms(5) by (simp add: nth_enumerate_eq rm_carried_def)
qed

theorem publish_copies_distinct_ids_witness:
  "let q = (quasar_create (Some \<lparr>mv_local = (1, 1), mv_peers = [(2, 2), (3, 3)]\<rparr>) 5 3 64 3)
             \<lparr>q_local_subs := [\<lparr>sub_topic = [7], sub_ttl = 0\<rparr>]\<rparr>;
       outs = snd (snd (quasar_publish (\<lambda>d s. s) (\<lambda>i. \<lparr>mid_time = 0, mid_nanos = 0, mid_count = of_nat i\<rparr>) q (Some [7]) (Some [8])))
   in \<exists>buf m. outs ! 1 = Send buf (3, 3) \<and> quasar_route_message_deserialize buf = Some m \<and> mid_count (rm_id m) = 1"
  using publish_copies_distinct_ids
    [of "(quasar_create (Some \<lparr>mv_local = (1, 1), mv_peers = [(2, 2), (3, 3)]\<rparr>) 5 3 64 3)
             \<lparr>q_local_subs := [\<lparr>sub_topic = [7], sub_ttl = 0\<rparr>]\<rparr>" "[7]"
       "\<lparr>mv_local = (1, 1), mv_peers = [(2, 2), (3, 3)]\<rparr>" "[8]" 1 "\<lambda>d s. s"
       "\<lambda>i. \<lparr>mid_time = 0, mid_nanos = 0, mid_count = of_nat i\<rparr>"]
  by (auto simp: locally_subscribed_def quasar_create_def)

text \<open>
  A subscriber forwards without spending a hop: on a new message for a topic it
  is subscribed to, a node sends one packet per connected peer, all with the hop
  count it received, even when no hops remain.
\<close>

theorem subscriber_forwards_unlimited:
  assumes "\<not> bloom_filter_contains xxh (q_seen q) (Some (mid_bytes (rm_id msg)))"
    and "locally_subscribed q (rm_topic msg)" "q_protocol q = Some pv" "\<not> q_on_message q"
    and "rm_wf msg" "length (rm_pubs msg) < 256"
  shows "send_targets (snd (snd (snd (quasar_on_route_message xxh q msg)))) = mv_peers pv
    \<and> list_all (\<lambda>e. carries (msg\<lparr>rm_pubs := rm_pubs msg @ [mv_local pv]\<rparr>) e)
        (snd (snd (snd (quasar_on_route_message xxh q msg))))"
proof -
  define m where "m = quasar_route_message_add_publisher
      (quasar_route_message_add_visited xxh msg (mv_local pv)) (mv_local pv)"
  have outs: "snd (snd (snd (quasar_on_route_message xxh q msg))) = concat (map (send_route m) (mv_peers pv))"
    using assms by (simp add: quasar_on_route_message_def Let_def m_def)
  have "rm_wf m" unfolding m_def using assms(5,6)
    by (intro rm_wf_add_publisher rm_wf_add_visited) (simp_all add: MERIDIAN_MAX_NODES_def)
  then obtain buf where "quasar_route_message_serialize m = Some buf" using route_serialize_wf by blast
  then have "send_targets (concat (map (send_route m) ps)) = ps" for ps
    by (induction ps) (simp_all add: send_route_def send_targets_def)
  moreover have "carries m = carries (msg\<lparr>rm_pubs := rm_pubs msg @ [mv_local pv]\<rparr>)"
    by (simp add: m_def carries_def fun_eq_iff)
  ultimately show ?thesis
    unfolding outs list_all_iff using send_route_carries [of _ m] by auto
qed

theorem subscriber_forwards_unlimited_witness:
  "let m = the (quasar_route_message_create \<lparr>mid_time = 1, mid_nanos = 2, mid_count = 3\<rparr> (Some [7]) (Some [8]) 0 16 3);
       q = (quasar_create (Some \<lparr>mv_local = (1, 1), mv_peers = [(2, 2), (3, 3)]\<rparr>) 5 3 64 3)
             \<lparr>q_local_subs := [\<lparr>sub_topic = [7], sub_ttl = 0\<rparr>]\<rparr>
   in rm_hops_remaining m = 0
      \<and> send_targets (snd (snd (snd (quasar_on_route_message (\<lambda>d s. s) q m)))) = [(2, 2), (3, 3)]"
proof -
  define m where "m = the (quasar_route_message_create \<lparr>mid_time = 1, mid_nanos = 2, mid_count = 3\<rparr> (Some [7]) (Some [8]) 0 16 3)"
  define q where "q = (quasar_create (Some \<lparr>mv_local = (1, 1), mv_peers = [(2, 2), (3, 3)]\<rparr>) 5 3 64 3)
             \<lparr>q_local_subs := [\<lparr>sub_topic = [7], sub_ttl = 0\<rparr>]\<rparr>"
  have m: "rm_wf m" "rm_hops_remaining m = 0" "rm_topic m = [7]" "rm_pubs m = []"
    unfolding m_def by (auto simp: quasar_route_message_create_def intro!: rm_wf_create)
  have "\<not> bloom_filter_contains (\<lambda>d s. s) (q_seen q) (Some (mid_bytes (rm_id m)))"
    "locally_subscribed q (rm_topic m)" "q_protocol q = Some \<lparr>mv_local = (1, 1), mv_peers = [(2, 2), (3, 3)]\<rparr>"
    "\<not> q_on_message q"
    by (simp_all add: q_def quasar_create_def bloom_create_empty locally_subscribed_def m)
  from subscriber_forwards_unlimited [OF this m(1)] m show ?thesis
    by (simp add: Let_def m_def q_def)
qed

text \<open>
  A subscription is visible to routing: right after it the node's routing filter
  reports the topic at distance 0 (whose level must have at least two fingerprint
  bits, as the default of eight), the subscription is recorded, and the invariant
  holds.
\<close>

theorem subscribe_reported:
  assumes "quasar_wf q" "2 \<le> unat (ebf_fp_bits (abf_levels (q_routing q) ! 0))"
  shows "attenuated_bloom_filter_check xxh (q_routing (snd (quasar_subscribe xxh q (Some t) ttl))) (Some t) = Some 0
    \<and> locally_subscribed (snd (quasar_subscribe xxh q (Some t) ttl)) t
    \<and> quasar_wf (snd (quasar_subscribe xxh q (Some t) ttl))"
proof -
  have abf: "abf_wf (q_routing q)" using assms(1) by (simp add: quasar_wf_def)
  let ?f0 = "abf_levels (q_routing q) ! 0"
  let ?ds = "t # own_keys q"
  let ?f = "fold (\<lambda>d f. snd (elastic_bloom_filter_add xxh f (Some d))) ?ds ?f0"
  have "length ?ds \<le> 2" by (simp add: own_keys_def split: option.split)
  then have "elastic_bloom_filter_contains xxh ?f (Some t)"
    using assms(2) abf_wfD(3) [OF abf abf_wfD(1) [OF abf]] by (intro contains_after_adds) simp_all
  then show ?thesis
    using quasar_wf_subscribe [OF assms(1), of xxh "Some t" ttl] abf_wfD(1,2) [OF abf] abf
    by (simp add: quasar_subscribe_eq [OF abf] check_Some_iff locally_subscribed_def abf_wf_def unat_gt_0
        del: fold.simps)
qed

theorem subscribe_reported_witness:
  "attenuated_bloom_filter_check (\<lambda>d s. s)
     (q_routing (snd (quasar_subscribe (\<lambda>d s. s) (quasar_create None 5 3 64 3) (Some [7]) 0))) (Some [7]) = Some 0"
proof -
  have "2 \<le> unat (ebf_fp_bits (abf_levels (q_routing (quasar_create None 5 3 64 3)) ! 0))"
    by (simp add: quasar_create_def attenuated_bloom_filter_create_def elastic_bloom_filter_create_def
        QUASAR_DEFAULT_FP_BITS_def)
  from subscribe_reported [OF quasar_wf_create this, of "\<lambda>d s. s" "[7]" 0] show ?thesis by simp
qed

end
