(* ===== verification/Packet.thy ===== *)
theory Packet
  imports Cbor NodeId RouteMessage
begin

text \<open>
  The packets of the overlay and of the channel layer as CBOR arrays
  (\<open>src/Network/Meridian/meridian_packet.c\<close>): gossip, ping, the base header,
  responses, the relay packets, bootstrap requests and replies, and the signed
  delete and modify notices. An encoder allocates a definite array and pushes its
  items, so it returns NULL when it pushes more than it allocated; a decoder either
  returns a packet, rejects the item, or misreads it (\<open>Undef\<close>). A C string is the
  list of its bytes before the terminating zero.
\<close>

definition MERIDIAN_MAGIC_NUMBER :: u32 where "MERIDIAN_MAGIC_NUMBER = 0x0A0B0C0D"
definition MERIDIAN_MAX_RINGS :: nat where "MERIDIAN_MAX_RINGS = 10"
definition MERIDIAN_PACKET_TYPE_GOSSIP :: byte where "MERIDIAN_PACKET_TYPE_GOSSIP = 10"
definition MERIDIAN_PACKET_TYPE_PING :: byte where "MERIDIAN_PACKET_TYPE_PING = 14"
definition MERIDIAN_PACKET_TYPE_RET_RESPONSE :: byte where "MERIDIAN_PACKET_TYPE_RET_RESPONSE = 9"
definition MERIDIAN_PACKET_TYPE_ADDR_RESPONSE :: byte where "MERIDIAN_PACKET_TYPE_ADDR_RESPONSE = 31"
definition MERIDIAN_PACKET_TYPE_PUNCH_REQUEST :: byte where "MERIDIAN_PACKET_TYPE_PUNCH_REQUEST = 33"
definition MERIDIAN_PACKET_TYPE_PUNCH_SYNC :: byte where "MERIDIAN_PACKET_TYPE_PUNCH_SYNC = 34"
definition MERIDIAN_PACKET_TYPE_CHANNEL_BOOTSTRAP :: byte where "MERIDIAN_PACKET_TYPE_CHANNEL_BOOTSTRAP = 40"
definition MERIDIAN_PACKET_TYPE_CHANNEL_BOOTSTRAP_REPLY :: byte where
  "MERIDIAN_PACKET_TYPE_CHANNEL_BOOTSTRAP_REPLY = 41"
definition MERIDIAN_PACKET_TYPE_CHANNEL_DELETE_NOTICE :: byte where
  "MERIDIAN_PACKET_TYPE_CHANNEL_DELETE_NOTICE = 60"
definition MERIDIAN_PACKET_TYPE_CHANNEL_MODIFY_NOTICE :: byte where
  "MERIDIAN_PACKET_TYPE_CHANNEL_MODIFY_NOTICE = 61"

lemmas packet_type_defs =
  MERIDIAN_MAGIC_NUMBER_def MERIDIAN_PACKET_TYPE_GOSSIP_def MERIDIAN_PACKET_TYPE_PING_def
  MERIDIAN_PACKET_TYPE_RET_RESPONSE_def MERIDIAN_PACKET_TYPE_ADDR_RESPONSE_def
  MERIDIAN_PACKET_TYPE_PUNCH_REQUEST_def MERIDIAN_PACKET_TYPE_PUNCH_SYNC_def
  MERIDIAN_PACKET_TYPE_CHANNEL_BOOTSTRAP_def MERIDIAN_PACKET_TYPE_CHANNEL_BOOTSTRAP_REPLY_def
  MERIDIAN_PACKET_TYPE_CHANNEL_DELETE_NOTICE_def MERIDIAN_PACKET_TYPE_CHANNEL_MODIFY_NOTICE_def

section \<open>Header\<close>

record meridian_packet =
  mp_type :: byte
  mp_query_id :: u64
  mp_magic :: u32
  mp_rendv_addr :: u32
  mp_rendv_port :: u16

text \<open>A query identifier travels as its two halves.\<close>

definition qid_hi :: "u64 \<Rightarrow> u64" where "qid_hi q = drop_bit 32 q"
definition qid_lo :: "u64 \<Rightarrow> u64" where "qid_lo q = and q 0xFFFFFFFF"
definition qid_join :: "u64 \<Rightarrow> u64 \<Rightarrow> u64" where "qid_join hi lo = or (push_bit 32 hi) lo"

definition packet_header_items :: "meridian_packet \<Rightarrow> cbor_item list" where
  "packet_header_items p =
     [cbor_build_uint8 (mp_type p), cbor_build_uint64 (qid_hi (mp_query_id p)),
      cbor_build_uint64 (qid_lo (mp_query_id p)), cbor_build_uint32 (mp_magic p),
      cbor_build_uint32 (mp_rendv_addr p), cbor_build_uint16 (mp_rendv_port p)]"

text \<open>The six reads at the start of the decoders; none is preceded by a type check.\<close>

definition packet_header_read :: "cbor_item list \<Rightarrow> meridian_packet cres" where
  "packet_header_read items =
     cbind (cbind (cbor_at items 0) cbor_get_uint8) (\<lambda>type.
     cbind (cbind (cbor_at items 1) cbor_get_uint64) (\<lambda>qid_1.
     cbind (cbind (cbor_at items 2) cbor_get_uint64) (\<lambda>qid_2.
     cbind (cbind (cbor_at items 3) cbor_get_uint32) (\<lambda>magic.
     cbind (cbind (cbor_at items 4) cbor_get_uint32) (\<lambda>rendv_addr.
     cbind (cbind (cbor_at items 5) cbor_get_uint16) (\<lambda>rendv_port.
     Ret \<lparr>mp_type = type, mp_query_id = qid_join qid_1 qid_2, mp_magic = magic,
          mp_rendv_addr = rendv_addr, mp_rendv_port = rendv_port\<rparr>))))))"

definition meridian_packet_encode :: "meridian_packet \<Rightarrow> cbor_item option" where
  "meridian_packet_encode pkt = cbor_array_of 5 (packet_header_items pkt)"

definition meridian_packet_decode :: "cbor_item \<Rightarrow> meridian_packet cres" where
  "meridian_packet_decode item =
     cbind (cbor_definite_elems item) (\<lambda>items.
     cguard (length items \<ge> 5) (
     cbind (packet_header_read items) (\<lambda>pkt.
     cguard (mp_magic pkt = MERIDIAN_MAGIC_NUMBER) (Ret pkt))))"

section \<open>Gossip, ping and responses\<close>

record meridian_gossip_packet =
  gp_base :: meridian_packet
  gp_targets :: "meridian_node list"

definition meridian_gossip_packet_create :: meridian_gossip_packet where
  "meridian_gossip_packet_create =
     \<lparr>gp_base = \<lparr>mp_type = MERIDIAN_PACKET_TYPE_GOSSIP, mp_query_id = 0, mp_magic = MERIDIAN_MAGIC_NUMBER,
                 mp_rendv_addr = 0, mp_rendv_port = 0\<rparr>, gp_targets = []\<rparr>"

definition meridian_gossip_packet_add_target :: "meridian_gossip_packet \<Rightarrow> meridian_node \<Rightarrow> meridian_gossip_packet" where
  "meridian_gossip_packet_add_target pkt node = pkt\<lparr>gp_targets := gp_targets pkt @ [node]\<rparr>"

definition gossip_target_item :: "meridian_node \<Rightarrow> cbor_item option" where
  "gossip_target_item n =
     cbor_array_of 4 [cbor_build_uint32 (n_addr n), cbor_build_uint16 (n_port n),
                      cbor_build_uint32 (n_rendv_addr n), cbor_build_uint16 (n_rendv_port n)]"

definition meridian_gossip_encode :: "meridian_gossip_packet \<Rightarrow> cbor_item option" where
  "meridian_gossip_encode pkt =
     (case those (map gossip_target_item (gp_targets pkt)) of
        None \<Rightarrow> None
      | Some targets \<Rightarrow>
          cbor_array_of (7 + length (gp_targets pkt))
            (packet_header_items (gp_base pkt)
             @ [cbor_build_uint8 (of_nat (length (gp_targets pkt)))] @ targets))"

definition gossip_target_read :: "cbor_item \<Rightarrow> meridian_node cres" where
  "gossip_target_read it =
     cbind (cbor_definite_elems it) (\<lambda>es.
     cguard (length es = 4) (
     cbind (cbor_get_uint32 (es ! 0)) (\<lambda>addr.
     cbind (cbor_get_uint16 (es ! 1)) (\<lambda>port.
     cbind (cbor_get_uint32 (es ! 2)) (\<lambda>rendv_addr.
     cbind (cbor_get_uint16 (es ! 3)) (\<lambda>rendv_port.
     Ret (meridian_node_create_rendv addr port rendv_addr rendv_port None)))))))"

text \<open>The element count: read as a 64 bit integer, bounded by the node limit and the array.\<close>

definition packet_count_read :: "cbor_item list \<Rightarrow> nat \<Rightarrow> nat cres" where
  "packet_count_read items idx =
     cbind (cbind (cbor_at items idx) cbor_get_uint64) (\<lambda>n.
     cguard (\<not> (unat n > MERIDIAN_MAX_NODES \<or> unat n > length items - (idx + 1))) (Ret (unat n)))"

definition meridian_gossip_decode :: "cbor_item \<Rightarrow> meridian_gossip_packet cres" where
  "meridian_gossip_decode item =
     cbind (cbor_definite_elems item) (\<lambda>items.
     cguard (length items \<ge> 7) (
     cbind (packet_header_read items) (\<lambda>base.
     cguard (mp_magic base = MERIDIAN_MAGIC_NUMBER) (
     cbind (packet_count_read items 6) (\<lambda>num_targets.
     cbind (cmapM gossip_target_read (take num_targets (drop 7 items))) (\<lambda>targets.
     Ret \<lparr>gp_base = base, gp_targets = targets\<rparr>))))))"

record meridian_ping_packet =
  pp_base :: meridian_packet
  pp_nodes :: "meridian_node list"
  pp_latencies :: "u32 list"

definition meridian_ping_packet_create :: meridian_ping_packet where
  "meridian_ping_packet_create =
     \<lparr>pp_base = \<lparr>mp_type = MERIDIAN_PACKET_TYPE_PING, mp_query_id = 0, mp_magic = MERIDIAN_MAGIC_NUMBER,
                 mp_rendv_addr = 0, mp_rendv_port = 0\<rparr>, pp_nodes = [], pp_latencies = []\<rparr>"

definition meridian_ping_packet_add_node :: "meridian_ping_packet \<Rightarrow> meridian_node \<Rightarrow> u32 \<Rightarrow> meridian_ping_packet" where
  "meridian_ping_packet_add_node pkt node latency =
     pkt\<lparr>pp_nodes := pp_nodes pkt @ [node], pp_latencies := pp_latencies pkt @ [latency]\<rparr>"

definition ping_node_item :: "meridian_ping_packet \<Rightarrow> nat \<Rightarrow> cbor_item option" where
  "ping_node_item pkt i =
     cbor_array_of 3 [cbor_build_uint32 (n_addr (pp_nodes pkt ! i)), cbor_build_uint16 (n_port (pp_nodes pkt ! i)),
                      cbor_build_uint32 (pp_latencies pkt ! i)]"

definition meridian_ping_encode :: "meridian_ping_packet \<Rightarrow> cbor_item option" where
  "meridian_ping_encode pkt =
     (case those (map (ping_node_item pkt) [0..<length (pp_nodes pkt)]) of
        None \<Rightarrow> None
      | Some nodes \<Rightarrow>
          cbor_array_of (6 + length (pp_nodes pkt))
            (packet_header_items (pp_base pkt)
             @ [cbor_build_uint8 (of_nat (length (pp_nodes pkt)))] @ nodes))"

text \<open>
  The node elements of a ping and the targets of a response are read through
  \<open>cbor_item_t*\<close> where the handle is a \<open>cbor_item_t**\<close>: the pointers stored in the
  array are reinterpreted as items.
\<close>

definition latency_elem_read :: "cbor_item \<Rightarrow> (u32 \<times> u16 \<times> u32) cres" where
  "latency_elem_read it = cbind (cbor_definite_elems it) (\<lambda>es. cguard (length es = 3) Undef)"

definition meridian_ping_decode :: "cbor_item \<Rightarrow> meridian_ping_packet cres" where
  "meridian_ping_decode item =
     cbind (cbor_definite_elems item) (\<lambda>items.
     cguard (length items \<ge> 6) (
     cbind (packet_header_read items) (\<lambda>base.
     cguard (mp_magic base = MERIDIAN_MAGIC_NUMBER) (
     cbind (packet_count_read items 6) (\<lambda>num_nodes.
     cbind (cmapM latency_elem_read (take num_nodes (drop 7 items))) (\<lambda>nls.
     Ret \<lparr>pp_base = base, pp_nodes = map (\<lambda>(addr, port, _). meridian_node_create addr port None) nls,
          pp_latencies = map (\<lambda>(_, _, latency). latency) nls\<rparr>))))))"

record meridian_node_latency =
  nl_addr :: u32
  nl_port :: u16
  nl_latency_us :: u32

record meridian_ret_response =
  rr_base :: meridian_packet
  rr_closest_addr :: u32
  rr_closest_port :: u16
  rr_targets :: "meridian_node_latency list"

definition meridian_ret_response_create :: meridian_ret_response where
  "meridian_ret_response_create =
     \<lparr>rr_base = \<lparr>mp_type = MERIDIAN_PACKET_TYPE_RET_RESPONSE, mp_query_id = 0,
                 mp_magic = MERIDIAN_MAGIC_NUMBER, mp_rendv_addr = 0, mp_rendv_port = 0\<rparr>,
      rr_closest_addr = 0, rr_closest_port = 0, rr_targets = []\<rparr>"

definition meridian_ret_response_add_target ::
  "meridian_ret_response \<Rightarrow> u32 \<Rightarrow> u16 \<Rightarrow> u32 \<Rightarrow> meridian_ret_response" where
  "meridian_ret_response_add_target pkt addr port latency =
     pkt\<lparr>rr_targets := rr_targets pkt @ [\<lparr>nl_addr = addr, nl_port = port, nl_latency_us = latency\<rparr>]\<rparr>"

definition latency_item :: "meridian_node_latency \<Rightarrow> cbor_item option" where
  "latency_item nl =
     cbor_array_of 3 [cbor_build_uint32 (nl_addr nl), cbor_build_uint16 (nl_port nl),
                      cbor_build_uint32 (nl_latency_us nl)]"

definition meridian_ret_response_encode :: "meridian_ret_response \<Rightarrow> cbor_item option" where
  "meridian_ret_response_encode pkt =
     (case those (map latency_item (rr_targets pkt)) of
        None \<Rightarrow> None
      | Some targets \<Rightarrow>
          cbor_array_of (9 + length (rr_targets pkt))
            (packet_header_items (rr_base pkt)
             @ [cbor_build_uint32 (rr_closest_addr pkt), cbor_build_uint16 (rr_closest_port pkt),
                cbor_build_uint8 (of_nat (length (rr_targets pkt)))] @ targets))"

definition meridian_ret_response_decode :: "cbor_item \<Rightarrow> meridian_ret_response cres" where
  "meridian_ret_response_decode item =
     cbind (cbor_definite_elems item) (\<lambda>items.
     cguard (length items \<ge> 9) (
     cbind (packet_header_read items) (\<lambda>base.
     cbind (cbor_get_uint32 (items ! 6)) (\<lambda>closest_addr.
     cbind (cbor_get_uint16 (items ! 7)) (\<lambda>closest_port.
     cguard (mp_magic base = MERIDIAN_MAGIC_NUMBER) (
     cbind (packet_count_read items 8) (\<lambda>num_targets.
     cbind (cmapM latency_elem_read (take num_targets (drop 9 items))) (\<lambda>nls.
     Ret \<lparr>rr_base = base, rr_closest_addr = closest_addr, rr_closest_port = closest_port,
          rr_targets = map (\<lambda>(a, p, l). \<lparr>nl_addr = a, nl_port = p, nl_latency_us = l\<rparr>) nls\<rparr>))))))))"

definition meridian_node_from_latency :: "meridian_node_latency \<Rightarrow> meridian_node" where
  "meridian_node_from_latency nl = meridian_node_create (nl_addr nl) (nl_port nl) None"

section \<open>Relay packets\<close>

record meridian_addr_response =
  ar_type :: byte
  ar_query_id :: u64
  ar_reflexive_addr :: u32
  ar_reflexive_port :: u16
  ar_endpoint_id :: u32

definition meridian_addr_response_create :: "u64 \<Rightarrow> u32 \<Rightarrow> u16 \<Rightarrow> u32 \<Rightarrow> meridian_addr_response" where
  "meridian_addr_response_create query_id reflexive_addr reflexive_port endpoint_id =
     \<lparr>ar_type = MERIDIAN_PACKET_TYPE_ADDR_RESPONSE, ar_query_id = query_id,
      ar_reflexive_addr = reflexive_addr, ar_reflexive_port = reflexive_port, ar_endpoint_id = endpoint_id\<rparr>"

definition meridian_addr_response_encode :: "meridian_addr_response \<Rightarrow> cbor_item option" where
  "meridian_addr_response_encode pkt =
     cbor_array_of 6
       [cbor_build_uint8 (ar_type pkt), cbor_build_uint64 (qid_hi (ar_query_id pkt)),
        cbor_build_uint64 (qid_lo (ar_query_id pkt)), cbor_build_uint32 (ar_reflexive_addr pkt),
        cbor_build_uint16 (ar_reflexive_port pkt), cbor_build_uint32 (ar_endpoint_id pkt)]"

definition meridian_addr_response_decode :: "cbor_item \<Rightarrow> meridian_addr_response cres" where
  "meridian_addr_response_decode item =
     cbind (cbor_definite_elems item) (\<lambda>items.
     cguard (length items \<ge> 6) (
     cbind (cbor_get_uint8 (items ! 0)) (\<lambda>type.
     cbind (cbor_get_uint64 (items ! 1)) (\<lambda>qid_1.
     cbind (cbor_get_uint64 (items ! 2)) (\<lambda>qid_2.
     cbind (cbor_get_uint32 (items ! 3)) (\<lambda>reflexive_addr.
     cbind (cbor_get_uint16 (items ! 4)) (\<lambda>reflexive_port.
     cbind (cbor_get_uint32 (items ! 5)) (\<lambda>endpoint_id.
     cguard (type = MERIDIAN_PACKET_TYPE_ADDR_RESPONSE) (
     Ret \<lparr>ar_type = type, ar_query_id = qid_join qid_1 qid_2, ar_reflexive_addr = reflexive_addr,
          ar_reflexive_port = reflexive_port, ar_endpoint_id = endpoint_id\<rparr>)))))))))"

text \<open>
  Punch requests and punch synchronisations have the same layout; the fields
  \<open>target_addr\<close> and \<open>target_port\<close> of the first are \<open>from_addr\<close> and \<open>from_port\<close> of the
  second.
\<close>

record meridian_punch =
  pu_type :: byte
  pu_query_id :: u64
  pu_from_endpoint_id :: u32
  pu_addr :: u32
  pu_port :: u16

definition meridian_punch_request_create :: "u64 \<Rightarrow> u32 \<Rightarrow> u32 \<Rightarrow> u16 \<Rightarrow> meridian_punch" where
  "meridian_punch_request_create query_id from_endpoint_id target_addr target_port =
     \<lparr>pu_type = MERIDIAN_PACKET_TYPE_PUNCH_REQUEST, pu_query_id = query_id,
      pu_from_endpoint_id = from_endpoint_id, pu_addr = target_addr, pu_port = target_port\<rparr>"

definition meridian_punch_sync_create :: "u64 \<Rightarrow> u32 \<Rightarrow> u32 \<Rightarrow> u16 \<Rightarrow> meridian_punch" where
  "meridian_punch_sync_create query_id from_endpoint_id from_addr from_port =
     \<lparr>pu_type = MERIDIAN_PACKET_TYPE_PUNCH_SYNC, pu_query_id = query_id,
      pu_from_endpoint_id = from_endpoint_id, pu_addr = from_addr, pu_port = from_port\<rparr>"

definition meridian_punch_request_encode :: "meridian_punch \<Rightarrow> cbor_item option" where
  "meridian_punch_request_encode pkt =
     cbor_array_of 6
       [cbor_build_uint8 (pu_type pkt), cbor_build_uint64 (qid_hi (pu_query_id pkt)),
        cbor_build_uint64 (qid_lo (pu_query_id pkt)), cbor_build_uint32 (pu_from_endpoint_id pkt),
        cbor_build_uint32 (pu_addr pkt), cbor_build_uint16 (pu_port pkt)]"

definition meridian_punch_sync_encode :: "meridian_punch \<Rightarrow> cbor_item option" where
  "meridian_punch_sync_encode pkt =
     cbor_array_of 6
       [cbor_build_uint8 (pu_type pkt), cbor_build_uint64 (qid_hi (pu_query_id pkt)),
        cbor_build_uint64 (qid_lo (pu_query_id pkt)), cbor_build_uint32 (pu_from_endpoint_id pkt),
        cbor_build_uint32 (pu_addr pkt), cbor_build_uint16 (pu_port pkt)]"

definition punch_read :: "byte \<Rightarrow> cbor_item \<Rightarrow> meridian_punch cres" where
  "punch_read expected item =
     cbind (cbor_definite_elems item) (\<lambda>items.
     cguard (length items \<ge> 6) (
     cbind (cbor_get_uint8 (items ! 0)) (\<lambda>type.
     cbind (cbor_get_uint64 (items ! 1)) (\<lambda>qid_1.
     cbind (cbor_get_uint64 (items ! 2)) (\<lambda>qid_2.
     cbind (cbor_get_uint32 (items ! 3)) (\<lambda>from_endpoint_id.
     cbind (cbor_get_uint32 (items ! 4)) (\<lambda>addr.
     cbind (cbor_get_uint16 (items ! 5)) (\<lambda>port.
     cguard (type = expected) (
     Ret \<lparr>pu_type = type, pu_query_id = qid_join qid_1 qid_2, pu_from_endpoint_id = from_endpoint_id,
          pu_addr = addr, pu_port = port\<rparr>)))))))))"

definition meridian_punch_request_decode :: "cbor_item \<Rightarrow> meridian_punch cres" where
  "meridian_punch_request_decode = punch_read MERIDIAN_PACKET_TYPE_PUNCH_REQUEST"

definition meridian_punch_sync_decode :: "cbor_item \<Rightarrow> meridian_punch cres" where
  "meridian_punch_sync_decode = punch_read MERIDIAN_PACKET_TYPE_PUNCH_SYNC"

section \<open>Channel bootstrap\<close>

text \<open>A string copied into a buffer of \<open>n\<close> bytes: refused when it does not fit, and cut at its first zero byte.\<close>

definition c_str :: "bytes \<Rightarrow> bytes" where
  "c_str bs = takeWhile (\<lambda>b. b \<noteq> 0) bs"

definition cbor_string_into :: "nat \<Rightarrow> cbor_item \<Rightarrow> bytes cres" where
  "cbor_string_into n it = cbind (cbor_string_bytes it) (\<lambda>bs. cguard (length bs < n) (Ret (c_str bs)))"

record meridian_channel_bootstrap =
  cb_topic_id :: bytes
  cb_sender_node_id :: bytes
  cb_timestamp_us :: u64

definition meridian_channel_bootstrap_encode :: "bytes \<Rightarrow> bytes \<Rightarrow> u64 \<Rightarrow> cbor_item option" where
  "meridian_channel_bootstrap_encode topic_id sender_node_id timestamp_us =
     cbor_array_of 4
       [cbor_build_uint8 MERIDIAN_PACKET_TYPE_CHANNEL_BOOTSTRAP, cbor_build_string topic_id,
        cbor_build_string sender_node_id, cbor_build_uint64 timestamp_us]"

definition meridian_channel_bootstrap_decode :: "nat \<Rightarrow> nat \<Rightarrow> cbor_item \<Rightarrow> meridian_channel_bootstrap cres" where
  "meridian_channel_bootstrap_decode topic_buf_size node_id_buf_size item =
     cbind (cbor_definite_elems item) (\<lambda>items.
     cguard (length items \<ge> 4) (
     cguard (cbor_isa_uint (items ! 0)) (
     cbind (cbor_get_uint8 (items ! 0)) (\<lambda>type.
     cguard (type = MERIDIAN_PACKET_TYPE_CHANNEL_BOOTSTRAP) (
     cguard (cbor_isa_string (items ! 1)) (
     cbind (cbor_string_into topic_buf_size (items ! 1)) (\<lambda>topic_id.
     cguard (cbor_isa_string (items ! 2)) (
     cbind (cbor_string_into node_id_buf_size (items ! 2)) (\<lambda>sender.
     cguard (cbor_isa_uint (items ! 3)) (
     cbind (cbor_get_uint64 (items ! 3)) (\<lambda>timestamp_us.
     Ret \<lparr>cb_topic_id = topic_id, cb_sender_node_id = sender, cb_timestamp_us = timestamp_us\<rparr>)))))))))))"

record meridian_channel_bootstrap_reply =
  br_topic_id :: bytes
  br_responder_node_id :: bytes
  br_responder_addr :: u32
  br_responder_port :: u16
  br_timestamp_us :: u64
  br_seeds :: "(u32 \<times> u16) list"

definition seed_item :: "u32 \<times> u16 \<Rightarrow> cbor_item option" where
  "seed_item s = cbor_array_of 2 [cbor_build_uint32 (fst s), cbor_build_uint16 (snd s)]"

definition meridian_channel_bootstrap_reply_encode :: "meridian_channel_bootstrap_reply \<Rightarrow> cbor_item option" where
  "meridian_channel_bootstrap_reply_encode r =
     (case those (map seed_item (br_seeds r)) of
        None \<Rightarrow> None
      | Some items \<Rightarrow>
          (case cbor_array_of (length (br_seeds r)) items of
             None \<Rightarrow> None
           | Some seeds \<Rightarrow>
               cbor_array_of 7
                 [cbor_build_uint8 MERIDIAN_PACKET_TYPE_CHANNEL_BOOTSTRAP_REPLY,
                  cbor_build_string (br_topic_id r), cbor_build_string (br_responder_node_id r),
                  cbor_build_uint32 (br_responder_addr r), cbor_build_uint16 (br_responder_port r),
                  cbor_build_uint64 (br_timestamp_us r), seeds]))"

definition seed_read :: "cbor_item \<Rightarrow> (u32 \<times> u16) cres" where
  "seed_read it =
     cbind (cbor_definite_elems it) (\<lambda>pair.
     cguard (length pair \<ge> 2) (
     cguard (cbor_isa_uint (pair ! 0) \<and> cbor_isa_uint (pair ! 1)) (
     cbind (cbor_get_uint32 (pair ! 0)) (\<lambda>addr.
     cbind (cbor_get_uint16 (pair ! 1)) (\<lambda>port.
     Ret (addr, port))))))"

definition seeds_read :: "nat \<Rightarrow> cbor_item \<Rightarrow> (u32 \<times> u16) list cres" where
  "seeds_read max_seeds it =
     (if cbor_isa_array it then
        cbind (cbor_array_elems it) (\<lambda>seed_items. cmapM seed_read (take max_seeds seed_items))
      else Ret [])"

definition meridian_channel_bootstrap_reply_decode ::
  "nat \<Rightarrow> nat \<Rightarrow> nat \<Rightarrow> cbor_item \<Rightarrow> meridian_channel_bootstrap_reply cres" where
  "meridian_channel_bootstrap_reply_decode topic_buf_size node_id_buf_size max_seeds item =
     cbind (cbor_definite_elems item) (\<lambda>items.
     cguard (length items \<ge> 7) (
     cguard (cbor_isa_uint (items ! 0)) (
     cbind (cbor_get_uint8 (items ! 0)) (\<lambda>type.
     cguard (type = MERIDIAN_PACKET_TYPE_CHANNEL_BOOTSTRAP_REPLY) (
     cguard (cbor_isa_string (items ! 1)) (
     cbind (cbor_string_into topic_buf_size (items ! 1)) (\<lambda>topic_id.
     cguard (cbor_isa_string (items ! 2)) (
     cbind (cbor_string_into node_id_buf_size (items ! 2)) (\<lambda>responder.
     cguard (cbor_isa_uint (items ! 3)) (
     cbind (cbor_get_uint32 (items ! 3)) (\<lambda>addr.
     cguard (cbor_isa_uint (items ! 4)) (
     cbind (cbor_get_uint16 (items ! 4)) (\<lambda>port.
     cguard (cbor_isa_uint (items ! 5)) (
     cbind (cbor_get_uint64 (items ! 5)) (\<lambda>ts.
     cbind (seeds_read max_seeds (items ! 6)) (\<lambda>seeds.
     Ret \<lparr>br_topic_id = topic_id, br_responder_node_id = responder, br_responder_addr = addr,
          br_responder_port = port, br_timestamp_us = ts, br_seeds = seeds\<rparr>))))))))))))))))"

section \<open>Signed channel notices\<close>

definition POSEIDON_CHANNEL_NOTICE_MAX_PUBLIC_KEY :: nat where "POSEIDON_CHANNEL_NOTICE_MAX_PUBLIC_KEY = 64"
definition POSEIDON_CHANNEL_NOTICE_MAX_SIGNATURE :: nat where "POSEIDON_CHANNEL_NOTICE_MAX_SIGNATURE = 64"

record poseidon_channel_config =
  cfg_ring_sizes :: "u32 list"
  cfg_gossip_init_interval_s :: u32
  cfg_gossip_steady_interval_s :: u32
  cfg_gossip_num_init_intervals :: u32
  cfg_quasar_max_hops :: u32
  cfg_quasar_alpha :: u32
  cfg_quasar_seen_size :: u32
  cfg_quasar_seen_hashes :: u32

definition poseidon_channel_config_defaults :: poseidon_channel_config where
  "poseidon_channel_config_defaults =
     \<lparr>cfg_ring_sizes = replicate MERIDIAN_MAX_RINGS 8, cfg_gossip_init_interval_s = 5,
      cfg_gossip_steady_interval_s = 30, cfg_gossip_num_init_intervals = 6, cfg_quasar_max_hops = 5,
      cfg_quasar_alpha = 3, cfg_quasar_seen_size = 1024, cfg_quasar_seen_hashes = 3\<rparr>"

record meridian_channel_delete_notice =
  dn_type :: byte
  dn_topic_id :: bytes
  dn_node_id :: bytes
  dn_key_type :: bytes
  dn_public_key :: bytes
  dn_timestamp_us :: u64
  dn_signature :: bytes

text \<open>A modify notice has the same fields and a configuration.\<close>

record meridian_channel_modify_notice = meridian_channel_delete_notice +
  mn_config :: poseidon_channel_config

definition meridian_channel_delete_notice_encode :: "meridian_channel_delete_notice \<Rightarrow> cbor_item option" where
  "meridian_channel_delete_notice_encode notice =
     cbor_array_of 7
       [cbor_build_uint8 MERIDIAN_PACKET_TYPE_CHANNEL_DELETE_NOTICE, cbor_build_string (dn_topic_id notice),
        cbor_build_string (dn_node_id notice), cbor_build_string (dn_key_type notice),
        cbor_build_bytestring (dn_public_key notice), cbor_build_uint64 (dn_timestamp_us notice),
        cbor_build_bytestring (dn_signature notice)]"

definition meridian_channel_delete_notice_decode :: "cbor_item \<Rightarrow> meridian_channel_delete_notice cres" where
  "meridian_channel_delete_notice_decode item =
     cguard (cbor_isa_array item) (
     cbind (cbor_array_elems item) (\<lambda>items.
     cguard (length items = 7) (
     cguard (cbor_isa_uint (items ! 0) \<and> cbor_isa_string (items ! 1) \<and> cbor_isa_string (items ! 2)
             \<and> cbor_isa_string (items ! 3) \<and> cbor_isa_bytestring (items ! 4) \<and> cbor_isa_uint (items ! 5)
             \<and> cbor_isa_bytestring (items ! 6)) (
     cbind (cbor_get_uint8 (items ! 0)) (\<lambda>type.
     cbind (cbor_string_into 64 (items ! 1)) (\<lambda>topic_id.
     cbind (cbor_string_into 64 (items ! 2)) (\<lambda>node_id.
     cbind (cbor_string_into 16 (items ! 3)) (\<lambda>key_type.
     cbind (cbor_bytestring_bytes (items ! 4)) (\<lambda>public_key.
     cguard (length public_key \<le> POSEIDON_CHANNEL_NOTICE_MAX_PUBLIC_KEY) (
     cbind (cbor_get_uint64 (items ! 5)) (\<lambda>timestamp_us.
     cbind (cbor_bytestring_bytes (items ! 6)) (\<lambda>signature.
     cguard (length signature \<le> POSEIDON_CHANNEL_NOTICE_MAX_SIGNATURE) (
     Ret \<lparr>dn_type = type, dn_topic_id = topic_id, dn_node_id = node_id, dn_key_type = key_type,
          dn_public_key = public_key, dn_timestamp_us = timestamp_us, dn_signature = signature\<rparr>)))))))))))))"

text \<open>The configuration as a map from short names: \<open>r0\<close> to \<open>r9\<close>, \<open>gis\<close>, \<open>gss\<close>, \<open>gni\<close>, \<open>qmh\<close>, \<open>qa\<close>, \<open>qss\<close>, \<open>qsh\<close>.\<close>

definition key_gis :: bytes where "key_gis = [0x67, 0x69, 0x73]"
definition key_gss :: bytes where "key_gss = [0x67, 0x73, 0x73]"
definition key_gni :: bytes where "key_gni = [0x67, 0x6E, 0x69]"
definition key_qmh :: bytes where "key_qmh = [0x71, 0x6D, 0x68]"
definition key_qa :: bytes where "key_qa = [0x71, 0x61]"
definition key_qss :: bytes where "key_qss = [0x71, 0x73, 0x73]"
definition key_qsh :: bytes where "key_qsh = [0x71, 0x73, 0x68]"

lemmas key_defs = key_gis_def key_gss_def key_gni_def key_qmh_def key_qa_def key_qss_def key_qsh_def

definition ring_key :: "nat \<Rightarrow> bytes" where
  "ring_key i = [0x72, 0x30 + of_nat i]"

definition config_map_pairs :: "poseidon_channel_config \<Rightarrow> (cbor_item \<times> cbor_item) list" where
  "config_map_pairs c =
     map (\<lambda>(k, v). (cbor_build_string k, cbor_build_uint32 v))
       (map (\<lambda>i. (ring_key i, cfg_ring_sizes c ! i)) [0..<MERIDIAN_MAX_RINGS]
        @ [(key_gis, cfg_gossip_init_interval_s c), (key_gss, cfg_gossip_steady_interval_s c),
           (key_gni, cfg_gossip_num_init_intervals c), (key_qmh, cfg_quasar_max_hops c),
           (key_qa, cfg_quasar_alpha c), (key_qss, cfg_quasar_seen_size c), (key_qsh, cfg_quasar_seen_hashes c)])"

text \<open>\<open>cbor_new_definite_map\<close> with \<open>n\<close> slots, filled by \<open>cbor_map_add\<close>.\<close>

definition cbor_map_of :: "nat \<Rightarrow> (cbor_item \<times> cbor_item) list \<Rightarrow> cbor_item option" where
  "cbor_map_of n pairs = (if length pairs \<le> n then Some (CBOR_MAP True pairs) else None)"

definition meridian_channel_modify_notice_encode :: "meridian_channel_modify_notice \<Rightarrow> cbor_item option" where
  "meridian_channel_modify_notice_encode notice =
     (case cbor_map_of (8 + MERIDIAN_MAX_RINGS) (config_map_pairs (mn_config notice)) of
        None \<Rightarrow> None
      | Some config_map \<Rightarrow>
          cbor_array_of 8
            [cbor_build_uint8 MERIDIAN_PACKET_TYPE_CHANNEL_MODIFY_NOTICE, cbor_build_string (dn_topic_id notice),
             cbor_build_string (dn_node_id notice), cbor_build_string (dn_key_type notice),
             cbor_build_bytestring (dn_public_key notice), cbor_build_uint64 (dn_timestamp_us notice),
             config_map, cbor_build_bytestring (dn_signature notice)])"

definition config_set :: "bytes \<Rightarrow> u32 \<Rightarrow> poseidon_channel_config \<Rightarrow> poseidon_channel_config" where
  "config_set key v c =
     (if length key = 2 \<and> key ! 0 = 0x72 \<and> key ! 1 \<ge> 0x30 \<and> key ! 1 \<le> 0x39 then
        let idx = unat (key ! 1 - 0x30)
        in if idx < MERIDIAN_MAX_RINGS then c\<lparr>cfg_ring_sizes := (cfg_ring_sizes c)[idx := v]\<rparr> else c
      else if key = key_gis then c\<lparr>cfg_gossip_init_interval_s := v\<rparr>
      else if key = key_gss then c\<lparr>cfg_gossip_steady_interval_s := v\<rparr>
      else if key = key_gni then c\<lparr>cfg_gossip_num_init_intervals := v\<rparr>
      else if key = key_qmh then c\<lparr>cfg_quasar_max_hops := v\<rparr>
      else if key = key_qa then c\<lparr>cfg_quasar_alpha := v\<rparr>
      else if key = key_qss then c\<lparr>cfg_quasar_seen_size := v\<rparr>
      else if key = key_qsh then c\<lparr>cfg_quasar_seen_hashes := v\<rparr>
      else c)"

fun config_read :: "(cbor_item \<times> cbor_item) list \<Rightarrow> poseidon_channel_config \<Rightarrow> poseidon_channel_config cres" where
  "config_read [] c = Ret c"
| "config_read ((k, v) # ps) c =
     (if \<not> cbor_isa_string k \<or> \<not> cbor_isa_uint v then config_read ps c
      else cbind (cbor_string_bytes k) (\<lambda>key. cbind (cbor_get_uint32 v) (\<lambda>val.
           config_read ps (config_set key val c))))"

definition meridian_channel_modify_notice_decode :: "cbor_item \<Rightarrow> meridian_channel_modify_notice cres" where
  "meridian_channel_modify_notice_decode item =
     cguard (cbor_isa_array item) (
     cbind (cbor_array_elems item) (\<lambda>items.
     cguard (length items = 8) (
     cguard (cbor_isa_uint (items ! 0) \<and> cbor_isa_string (items ! 1) \<and> cbor_isa_string (items ! 2)
             \<and> cbor_isa_string (items ! 3) \<and> cbor_isa_bytestring (items ! 4) \<and> cbor_isa_uint (items ! 5)
             \<and> cbor_isa_map (items ! 6) \<and> cbor_isa_bytestring (items ! 7)) (
     cbind (cbor_get_uint8 (items ! 0)) (\<lambda>type.
     cbind (cbor_string_into 64 (items ! 1)) (\<lambda>topic_id.
     cbind (cbor_string_into 64 (items ! 2)) (\<lambda>node_id.
     cbind (cbor_string_into 16 (items ! 3)) (\<lambda>key_type.
     cbind (cbor_bytestring_bytes (items ! 4)) (\<lambda>public_key.
     cguard (length public_key \<le> POSEIDON_CHANNEL_NOTICE_MAX_PUBLIC_KEY) (
     cbind (cbor_get_uint64 (items ! 5)) (\<lambda>timestamp_us.
     cbind (cbor_map_pairs (items ! 6)) (\<lambda>pairs.
     cbind (config_read pairs poseidon_channel_config_defaults) (\<lambda>config.
     cbind (cbor_bytestring_bytes (items ! 7)) (\<lambda>signature.
     cguard (length signature \<le> POSEIDON_CHANNEL_NOTICE_MAX_SIGNATURE) (
     Ret \<lparr>dn_type = type, dn_topic_id = topic_id, dn_node_id = node_id, dn_key_type = key_type,
          dn_public_key = public_key, dn_timestamp_us = timestamp_us, dn_signature = signature,
          mn_config = config\<rparr>)))))))))))))))"

section \<open>Laws\<close>

lemma bit_low_half: "bit (0xFFFFFFFF :: int) n \<longleftrightarrow> n < 32"
proof -
  have "(0xFFFFFFFF :: int) = mask 32" by (simp add: mask_eq_exp_minus_1)
  then show ?thesis by (simp only: bit_mask_iff) (auto simp: not_le)
qed

lemma qid_join_split [simp]: "qid_join (qid_hi q) (qid_lo q) = q"
  by (rule bit_word_eqI) (auto simp: qid_join_def qid_hi_def qid_lo_def bit_simps bit_low_half)

lemma those_map_Some [simp]: "those (map (\<lambda>x. Some (f x)) xs) = Some (map f xs)"
  by (induction xs) auto

lemma packet_header_read_items [simp]:
  "packet_header_read (packet_header_items p @ its) = Ret p"
  by (simp add: packet_header_read_def packet_header_items_def)

lemma length_packet_header_items [simp]: "length (packet_header_items p) = 6"
  by (simp add: packet_header_items_def)

text \<open>Strings that fit a buffer of \<open>n\<close> bytes with their terminator.\<close>

definition c_string :: "nat \<Rightarrow> bytes \<Rightarrow> bool" where
  "c_string n bs \<longleftrightarrow> 0 \<notin> set bs \<and> length bs < n"

lemma c_str_id: "0 \<notin> set bs \<Longrightarrow> c_str bs = bs"
  by (auto simp: c_str_def takeWhile_eq_all_conv)

lemma c_str_no_zero [simp]: "0 \<notin> set (c_str bs)"
  by (auto simp: c_str_def dest: set_takeWhileD)

lemma length_c_str: "length (c_str bs) \<le> length bs"
  by (simp add: c_str_def length_takeWhile_le)

lemma cbor_string_into_build [cbor_simps, simp]:
  "c_string n bs \<Longrightarrow> cbor_string_into n (cbor_build_string bs) = Ret bs"
  by (simp add: cbor_string_into_def c_string_def c_str_id)

lemma cbor_string_into_c_string: "cbor_string_into n it = Ret bs \<Longrightarrow> c_string n bs"
  using length_c_str by (auto simp: cbor_string_into_def c_string_def intro: le_less_trans)

lemma isa_build [cbor_simps, simp]:
  "\<not> cbor_isa_array (cbor_build_string bs)" "cbor_isa_array (CBOR_ARRAY d es)"
  by (simp_all add: cbor_build_string_def)

interpretation addr_codec: codec meridian_addr_response_encode "cdecoded meridian_addr_response_decode"
  "\<lambda>p. ar_type p = MERIDIAN_PACKET_TYPE_ADDR_RESPONSE" "\<lambda>p. p"
  by unfold_locales (simp add: meridian_addr_response_encode_def meridian_addr_response_decode_def numeral_eq_Suc)

lemma punch_read_encode:
  "pu_type p = t \<Longrightarrow> cdecoded (punch_read t) (meridian_punch_request_encode p) = Ret p"
  by (simp add: meridian_punch_request_encode_def punch_read_def numeral_eq_Suc)

lemma punch_sync_encode_eq: "meridian_punch_sync_encode = meridian_punch_request_encode"
  by (simp add: fun_eq_iff meridian_punch_sync_encode_def meridian_punch_request_encode_def)

interpretation punch_request_codec: codec meridian_punch_request_encode "cdecoded meridian_punch_request_decode"
  "\<lambda>p. pu_type p = MERIDIAN_PACKET_TYPE_PUNCH_REQUEST" "\<lambda>p. p"
  by unfold_locales (simp add: meridian_punch_request_decode_def punch_read_encode)

interpretation punch_sync_codec: codec meridian_punch_sync_encode "cdecoded meridian_punch_sync_decode"
  "\<lambda>p. pu_type p = MERIDIAN_PACKET_TYPE_PUNCH_SYNC" "\<lambda>p. p"
  by unfold_locales (simp add: punch_sync_encode_eq meridian_punch_sync_decode_def punch_read_encode)

definition bootstrap_wf :: "meridian_channel_bootstrap \<Rightarrow> bool" where
  "bootstrap_wf b \<longleftrightarrow> c_string 64 (cb_topic_id b) \<and> c_string 64 (cb_sender_node_id b)"

interpretation bootstrap_codec: codec
  "\<lambda>b. meridian_channel_bootstrap_encode (cb_topic_id b) (cb_sender_node_id b) (cb_timestamp_us b)"
  "cdecoded (meridian_channel_bootstrap_decode 64 64)" bootstrap_wf "\<lambda>b. b"
  by unfold_locales (simp add: meridian_channel_bootstrap_encode_def meridian_channel_bootstrap_decode_def
      bootstrap_wf_def eval_nat_numeral)

definition reply_wf :: "meridian_channel_bootstrap_reply \<Rightarrow> bool" where
  "reply_wf r \<longleftrightarrow> c_string 64 (br_topic_id r) \<and> c_string 64 (br_responder_node_id r)"

lemma seed_read_item [simp]:
  "seed_read (CBOR_ARRAY True [cbor_build_uint32 a, cbor_build_uint16 p]) = Ret (a, p)"
  by (simp add: seed_read_def)

lemma cmapM_seed_read:
  "cmapM seed_read (map (\<lambda>s. CBOR_ARRAY True [cbor_build_uint32 (fst s), cbor_build_uint16 (snd s)]) ss) = Ret ss"
  using cmapM_map [where h = "\<lambda>s. s"] by (metis (no_types, lifting) list.map_ident prod.collapse seed_read_item)

interpretation reply_codec: codec meridian_channel_bootstrap_reply_encode
  "cdecoded (meridian_channel_bootstrap_reply_decode 64 64 16)" reply_wf
  "\<lambda>r. r\<lparr>br_seeds := take 16 (br_seeds r)\<rparr>"
  by unfold_locales
     (simp add: meridian_channel_bootstrap_reply_encode_def meridian_channel_bootstrap_reply_decode_def
       seed_item_def [abs_def] seeds_read_def reply_wf_def take_map cmapM_seed_read)

text \<open>Notices as a sender makes them: their type, strings that fit, key and signature within their buffers.\<close>

definition notice_fields_wf :: "'a meridian_channel_delete_notice_scheme \<Rightarrow> bool" where
  "notice_fields_wf n \<longleftrightarrow>
     c_string 64 (dn_topic_id n) \<and> c_string 64 (dn_node_id n) \<and> c_string 16 (dn_key_type n)
     \<and> length (dn_public_key n) \<le> POSEIDON_CHANNEL_NOTICE_MAX_PUBLIC_KEY
     \<and> length (dn_signature n) \<le> POSEIDON_CHANNEL_NOTICE_MAX_SIGNATURE"

definition delete_notice_wf :: "meridian_channel_delete_notice \<Rightarrow> bool" where
  "delete_notice_wf n \<longleftrightarrow> notice_fields_wf n \<and> dn_type n = MERIDIAN_PACKET_TYPE_CHANNEL_DELETE_NOTICE"

definition modify_notice_wf :: "meridian_channel_modify_notice \<Rightarrow> bool" where
  "modify_notice_wf n \<longleftrightarrow> notice_fields_wf n \<and> dn_type n = MERIDIAN_PACKET_TYPE_CHANNEL_MODIFY_NOTICE
     \<and> length (cfg_ring_sizes (mn_config n)) = MERIDIAN_MAX_RINGS"

interpretation delete_notice_codec: codec meridian_channel_delete_notice_encode
  "cdecoded meridian_channel_delete_notice_decode" delete_notice_wf "\<lambda>n. n"
  by unfold_locales
     (simp add: meridian_channel_delete_notice_encode_def meridian_channel_delete_notice_decode_def
       delete_notice_wf_def notice_fields_wf_def)

lemma config_read_build:
  "config_read (map (\<lambda>(k, v). (cbor_build_string k, cbor_build_uint32 v)) kvs) c
     = Ret (fold (\<lambda>(k, v). config_set k v) kvs c)"
  by (induction kvs arbitrary: c) auto

lemma config_set_ring:
  assumes "i < MERIDIAN_MAX_RINGS"
  shows "config_set (ring_key i) v c = c\<lparr>cfg_ring_sizes := (cfg_ring_sizes c)[i := v]\<rparr>"
proof -
  have i: "i < 10" using assms by (simp add: MERIDIAN_MAX_RINGS_def)
  then have u: "unat (0x30 + of_nat i :: byte) = 48 + i" "unat (of_nat i :: byte) = i"
    by (simp_all add: unat_word_ariths unat_of_nat)
  then have "0x30 \<le> (0x30 + of_nat i :: byte) \<and> (0x30 + of_nat i :: byte) \<le> 0x39"
    using i by (simp add: word_le_nat_alt)
  with u i show ?thesis by (simp add: config_set_def ring_key_def MERIDIAN_MAX_RINGS_def)
qed

lemma config_set_named [simp]:
  "config_set key_gis v c = c\<lparr>cfg_gossip_init_interval_s := v\<rparr>"
  "config_set key_gss v c = c\<lparr>cfg_gossip_steady_interval_s := v\<rparr>"
  "config_set key_gni v c = c\<lparr>cfg_gossip_num_init_intervals := v\<rparr>"
  "config_set key_qmh v c = c\<lparr>cfg_quasar_max_hops := v\<rparr>"
  "config_set key_qa v c = c\<lparr>cfg_quasar_alpha := v\<rparr>"
  "config_set key_qss v c = c\<lparr>cfg_quasar_seen_size := v\<rparr>"
  "config_set key_qsh v c = c\<lparr>cfg_quasar_seen_hashes := v\<rparr>"
  by (simp_all add: config_set_def key_defs)

lemma fold_config_rings:
  assumes "n \<le> MERIDIAN_MAX_RINGS" "length (cfg_ring_sizes c) = MERIDIAN_MAX_RINGS" "length rs = MERIDIAN_MAX_RINGS"
  shows "fold (\<lambda>(k, v). config_set k v) (map (\<lambda>i. (ring_key i, rs ! i)) [0..<n]) c
    = c\<lparr>cfg_ring_sizes := take n rs @ drop n (cfg_ring_sizes c)\<rparr>"
  using assms(1)
proof (induction n)
  case (Suc n)
  then have "(take n rs @ drop n (cfg_ring_sizes c))[n := rs ! n] = take (Suc n) rs @ drop (Suc n) (cfg_ring_sizes c)"
    using assms(2,3) by (simp add: list_update_append take_Suc_conv_app_nth upd_conv_take_nth_drop)
  with Suc show ?case by (simp add: config_set_ring)
qed simp

lemma config_read_pairs:
  assumes "length (cfg_ring_sizes c) = MERIDIAN_MAX_RINGS"
  shows "config_read (config_map_pairs c) poseidon_channel_config_defaults = Ret c"
  unfolding config_map_pairs_def config_read_build
  using assms by (simp add: fold_config_rings poseidon_channel_config_defaults_def)

interpretation modify_notice_codec: codec meridian_channel_modify_notice_encode
  "cdecoded meridian_channel_modify_notice_decode" modify_notice_wf "\<lambda>n. n"
proof
  fix n :: meridian_channel_modify_notice
  assume "modify_notice_wf n"
  moreover have "length (config_map_pairs (mn_config n)) \<le> 8 + MERIDIAN_MAX_RINGS"
    by (simp add: config_map_pairs_def)
  ultimately show "cdecoded meridian_channel_modify_notice_decode (meridian_channel_modify_notice_encode n) = Ret n"
    by (simp add: meridian_channel_modify_notice_encode_def meridian_channel_modify_notice_decode_def
        modify_notice_wf_def notice_fields_wf_def cbor_map_of_def config_read_pairs)
qed

section \<open>Properties\<close>

text \<open>
  C35. Notices survive the wire: decoding an encoded delete or modify notice gives the
  notice back, the configuration of the latter included.
\<close>

theorem notice_roundtrip:
  assumes "delete_notice_wf d" "modify_notice_wf m"
  shows "cdecoded meridian_channel_delete_notice_decode (meridian_channel_delete_notice_encode d) = Ret d
    \<and> cdecoded meridian_channel_modify_notice_decode (meridian_channel_modify_notice_encode m) = Ret m"
  using assms by (simp add: delete_notice_codec.dec_enc modify_notice_codec.dec_enc)

theorem notice_roundtrip_witness:
  "let d = \<lparr>dn_type = 60, dn_topic_id = [65], dn_node_id = [66], dn_key_type = [67], dn_public_key = [1, 2],
            dn_timestamp_us = 5, dn_signature = [3]\<rparr>;
       m = \<lparr>dn_type = 61, dn_topic_id = [65], dn_node_id = [66], dn_key_type = [67], dn_public_key = [1, 2],
            dn_timestamp_us = 5, dn_signature = [3], mn_config = poseidon_channel_config_defaults\<rparr>
   in cdecoded meridian_channel_delete_notice_decode (meridian_channel_delete_notice_encode d) = Ret d
    \<and> cdecoded meridian_channel_modify_notice_decode (meridian_channel_modify_notice_encode m) = Ret m"
  unfolding Let_def
  by (rule notice_roundtrip)
     (simp_all add: delete_notice_wf_def modify_notice_wf_def notice_fields_wf_def c_string_def packet_type_defs
       POSEIDON_CHANNEL_NOTICE_MAX_PUBLIC_KEY_def POSEIDON_CHANNEL_NOTICE_MAX_SIGNATURE_def
       poseidon_channel_config_defaults_def)

text \<open>
  Bootstrap requests and replies survive the wire; of a reply the receiver keeps
  the first sixteen seeds.
\<close>

theorem bootstrap_roundtrip:
  assumes "bootstrap_wf b" "reply_wf r"
  shows "cdecoded (meridian_channel_bootstrap_decode 64 64)
      (meridian_channel_bootstrap_encode (cb_topic_id b) (cb_sender_node_id b) (cb_timestamp_us b)) = Ret b
    \<and> cdecoded (meridian_channel_bootstrap_reply_decode 64 64 16) (meridian_channel_bootstrap_reply_encode r)
      = Ret (r\<lparr>br_seeds := take 16 (br_seeds r)\<rparr>)"
  using assms by (simp add: bootstrap_codec.dec_enc reply_codec.dec_enc)

theorem bootstrap_roundtrip_witness:
  "let r = \<lparr>br_topic_id = [65], br_responder_node_id = [66], br_responder_addr = 1, br_responder_port = 2,
            br_timestamp_us = 3, br_seeds = replicate 17 (7, 8)\<rparr>
   in cdecoded (meridian_channel_bootstrap_reply_decode 64 64 16) (meridian_channel_bootstrap_reply_encode r)
      = Ret (r\<lparr>br_seeds := replicate 16 (7, 8)\<rparr>)"
  using bootstrap_roundtrip
    [of "\<lparr>cb_topic_id = [65], cb_sender_node_id = [66], cb_timestamp_us = 0\<rparr>"
        "\<lparr>br_topic_id = [65], br_responder_node_id = [66], br_responder_addr = 1, br_responder_port = 2,
          br_timestamp_us = 3, br_seeds = replicate 17 (7, 8)\<rparr>"]
  by (simp add: bootstrap_wf_def reply_wf_def c_string_def)

text \<open>
  The relay packets survive the wire: every address response, punch request and
  punch synchronisation is recovered with all its fields, and a decoder refuses the
  packets of another type.
\<close>

theorem relay_roundtrip:
  "cdecoded meridian_addr_response_decode (meridian_addr_response_encode (meridian_addr_response_create q a p e))
     = Ret (meridian_addr_response_create q a p e)
   \<and> cdecoded meridian_punch_request_decode (meridian_punch_request_encode (meridian_punch_request_create q e a p))
     = Ret (meridian_punch_request_create q e a p)
   \<and> cdecoded meridian_punch_sync_decode (meridian_punch_sync_encode (meridian_punch_sync_create q e a p))
     = Ret (meridian_punch_sync_create q e a p)
   \<and> cdecoded meridian_punch_sync_decode (meridian_punch_request_encode (meridian_punch_request_create q e a p)) = Fail"
proof -
  have "cdecoded meridian_punch_sync_decode (meridian_punch_request_encode (meridian_punch_request_create q e a p)) = Fail"
    by (simp add: meridian_punch_request_encode_def meridian_punch_sync_decode_def punch_read_def
        meridian_punch_request_create_def packet_type_defs)
  then show ?thesis
    by (simp add: addr_codec.dec_enc punch_request_codec.dec_enc punch_sync_codec.dec_enc
        meridian_addr_response_create_def meridian_punch_request_create_def meridian_punch_sync_create_def)
qed

text \<open>
  Pings cannot be sent: \<open>meridian_ping_encode\<close> and \<open>meridian_packet_encode\<close> allocate
  one slot less than they fill and return NULL for every packet.
\<close>

theorem ping_never_encodes:
  "meridian_ping_encode ping = None \<and> meridian_packet_encode pkt = None"
  by (simp add: meridian_ping_encode_def meridian_packet_encode_def ping_node_item_def [abs_def])

text \<open>
  Gossip packets and responses cannot be received: their element count is encoded
  as an 8 bit integer and read as a 64 bit one, so the decoder reads past the item
  whenever the magic number is right.
\<close>

theorem gossip_unreadable:
  "meridian_gossip_encode g \<noteq> None \<and> meridian_ret_response_encode r \<noteq> None
   \<and> cdecoded meridian_gossip_decode (meridian_gossip_encode g)
       = (if mp_magic (gp_base g) = MERIDIAN_MAGIC_NUMBER then Undef else Fail)
   \<and> cdecoded meridian_ret_response_decode (meridian_ret_response_encode r)
       = (if mp_magic (rr_base r) = MERIDIAN_MAGIC_NUMBER then Undef else Fail)"
proof -
  have count: "packet_count_read (packet_header_items p @ cbor_build_uint8 c # its) 6 = Undef"
    "packet_count_read (packet_header_items p @ x # y # cbor_build_uint8 c # its) 8 = Undef" for p c x y its
    by (simp_all add: packet_count_read_def packet_header_items_def cbor_get_uint64_def cbor_build_uint8_def)
  have nth: "(packet_header_items p @ x # y # its) ! 6 = x" "(packet_header_items p @ x # y # its) ! 7 = y" for p x y its
    by (simp_all add: nth_append)
  show ?thesis
    by (simp add: meridian_gossip_encode_def meridian_gossip_decode_def gossip_target_item_def [abs_def]
        meridian_ret_response_encode_def meridian_ret_response_decode_def latency_item_def [abs_def] count nth)
qed

end
