(* ===== verification/Topic.thy ===== *)
theory Topic
  imports Packet
begin

text \<open>
  Topics of a channel: subtopic paths and their subscription table
  (\<open>src/Channel/subtopic.c\<close>), aliases (\<open>topic_alias.c\<close>), topic identifiers and path
  resolution (\<open>topic_id.c\<close>), and the envelope that carries a subtopic with a payload
  (\<open>channel_message.c\<close>). Strings are C strings: byte lists without a zero byte.
\<close>

section \<open>Subtopic paths\<close>

definition SUBTOPIC_MAX_PARTS :: nat where "SUBTOPIC_MAX_PARTS = 8"
definition SUBTOPIC_MAX_PART_LEN :: nat where "SUBTOPIC_MAX_PART_LEN = 64"
definition SUBTOPIC_SEPARATOR :: byte where "SUBTOPIC_SEPARATOR = 0x2F"
definition SUBTOPIC_TABLE_MAX_SUBS :: nat where "SUBTOPIC_TABLE_MAX_SUBS = 64"

text \<open>
  The loop of \<open>subtopic_parse\<close>: the segment from \<open>start\<close> to \<open>p\<close>, the text from \<open>p\<close>, and
  the parts copied so far. It returns the parts and the text from \<open>start\<close>.
\<close>

fun subtopic_scan :: "nat \<Rightarrow> bytes \<Rightarrow> bytes \<Rightarrow> bytes list \<Rightarrow> (bytes list \<times> bytes) option" where
  "subtopic_scan max_parts seg [] parts = Some (parts, seg)"
| "subtopic_scan max_parts seg (c # cs) parts =
     (if length parts \<ge> max_parts then Some (parts, seg @ c # cs)
      else if c = SUBTOPIC_SEPARATOR then
        if length seg \<ge> SUBTOPIC_MAX_PART_LEN then None
        else subtopic_scan max_parts [] cs (if length seg > 0 then parts @ [seg] else parts)
      else subtopic_scan max_parts (seg @ [c]) cs parts)"

definition subtopic_parse :: "bytes option \<Rightarrow> nat \<Rightarrow> bytes list option" where
  "subtopic_parse path max_parts =
     (if max_parts = 0 then None
      else case path of
        None \<Rightarrow> None
      | Some p \<Rightarrow>
          if p = [] then Some []
          else case subtopic_scan max_parts [] p [] of
            None \<Rightarrow> None
          | Some (parts, start) \<Rightarrow>
              if start \<noteq> [] \<and> length parts < max_parts then
                if length start \<ge> SUBTOPIC_MAX_PART_LEN then None else Some (parts @ [start])
              else Some parts)"

text \<open>The loop that drops trailing separators.\<close>

definition strip_separators :: "bytes \<Rightarrow> bytes" where
  "strip_separators s = rev (dropWhile (\<lambda>c. c = SUBTOPIC_SEPARATOR) (rev s))"

definition subtopic_matches :: "bytes option \<Rightarrow> bytes option \<Rightarrow> bool" where
  "subtopic_matches message_subtopic subscription =
     (case (message_subtopic, subscription) of
        (Some msg, Some sub) \<Rightarrow>
          if sub = [] then True
          else
            let sub_len = length (strip_separators sub)
            in if length msg < sub_len then False
               else if take sub_len msg \<noteq> take sub_len sub then False
               else if length msg = sub_len then True
               else msg ! sub_len = SUBTOPIC_SEPARATOR
      | _ \<Rightarrow> False)"

section \<open>Subtopic subscriptions\<close>

record subtopic_entry =
  se_path :: bytes
  se_ttl :: u32

type_synonym subtopic_table = "subtopic_entry list"

definition subtopic_table_create :: subtopic_table where
  "subtopic_table_create = []"

text \<open>The path buffer of an entry has room for 511 characters.\<close>

definition subtopic_path_room :: nat where
  "subtopic_path_room = SUBTOPIC_MAX_PARTS * SUBTOPIC_MAX_PART_LEN - 1"

definition subtopic_table_subscribe :: "subtopic_table \<Rightarrow> bytes option \<Rightarrow> u32 \<Rightarrow> int \<times> subtopic_table" where
  "subtopic_table_subscribe table path ttl =
     (case path of
        None \<Rightarrow> (- 1, table)
      | Some p \<Rightarrow>
          if list_ex (\<lambda>e. se_path e = p) table then
            (0, update_first (\<lambda>e. se_path e = p) (\<lambda>e. e\<lparr>se_ttl := ttl\<rparr>) table)
          else if length table \<ge> SUBTOPIC_TABLE_MAX_SUBS then (- 1, table)
          else (0, table @ [\<lparr>se_path = take subtopic_path_room p, se_ttl = ttl\<rparr>]))"

definition subtopic_table_unsubscribe :: "subtopic_table \<Rightarrow> bytes option \<Rightarrow> int \<times> subtopic_table" where
  "subtopic_table_unsubscribe table path =
     (case path of
        None \<Rightarrow> (- 1, table)
      | Some p \<Rightarrow>
          (case find_index (\<lambda>e. se_path e = p) table of
             None \<Rightarrow> (- 1, table)
           | Some i \<Rightarrow> (0, swap_remove i table)))"

definition subtopic_table_is_subscribed :: "subtopic_table \<Rightarrow> bytes option \<Rightarrow> bool" where
  "subtopic_table_is_subscribed table path =
     (case path of None \<Rightarrow> False | Some p \<Rightarrow> list_ex (\<lambda>e. se_path e = p) table)"

definition subtopic_table_should_deliver :: "subtopic_table \<Rightarrow> bytes option \<Rightarrow> bool" where
  "subtopic_table_should_deliver table message_subtopic =
     (case message_subtopic of
        None \<Rightarrow> False
      | Some m \<Rightarrow> list_ex (\<lambda>e. subtopic_matches (Some m) (Some (se_path e))) table)"

fun subtopic_table_tick :: "subtopic_table \<Rightarrow> subtopic_table" where
  "subtopic_table_tick [] = []"
| "subtopic_table_tick (e # es) =
     (if se_ttl e > 0 then
        let ttl = se_ttl e - 1
        in if ttl > 0 then e\<lparr>se_ttl := ttl\<rparr> # subtopic_table_tick es else subtopic_table_tick es
      else subtopic_table_tick es)"

section \<open>Aliases\<close>

definition TOPIC_ALIAS_MAX_NAME :: nat where "TOPIC_ALIAS_MAX_NAME = 64"
definition TOPIC_ALIAS_MAX_TOPIC :: nat where "TOPIC_ALIAS_MAX_TOPIC = 64"
definition TOPIC_ALIAS_MAX_CANDIDATES :: nat where "TOPIC_ALIAS_MAX_CANDIDATES = 8"

record topic_alias_entry =
  ta_name :: bytes
  ta_topic :: bytes

record topic_alias_registry =
  tr_entries :: "topic_alias_entry list"
  tr_capacity :: nat

definition topic_alias_registry_create :: "nat \<Rightarrow> topic_alias_registry" where
  "topic_alias_registry_create capacity =
     \<lparr>tr_entries = [], tr_capacity = (if capacity = 0 then 16 else capacity)\<rparr>"

definition topic_alias_register ::
  "topic_alias_registry \<Rightarrow> bytes option \<Rightarrow> bytes option \<Rightarrow> int \<times> topic_alias_registry" where
  "topic_alias_register reg name topic =
     (case (name, topic) of
        (Some n, Some t) \<Rightarrow>
          if length (tr_entries reg) \<ge> tr_capacity reg then (- 1, reg)
          else (0, reg\<lparr>tr_entries := tr_entries reg
                 @ [\<lparr>ta_name = take (TOPIC_ALIAS_MAX_NAME - 1) n, ta_topic = take (TOPIC_ALIAS_MAX_TOPIC - 1) t\<rparr>]\<rparr>)
      | _ \<Rightarrow> (- 1, reg))"

definition topic_alias_unregister :: "topic_alias_registry \<Rightarrow> bytes option \<Rightarrow> int \<times> topic_alias_registry" where
  "topic_alias_unregister reg name =
     (case name of
        None \<Rightarrow> (- 1, reg)
      | Some n \<Rightarrow>
          (case find_index (\<lambda>e. ta_name e = n) (tr_entries reg) of
             None \<Rightarrow> (- 1, reg)
           | Some i \<Rightarrow> (0, reg\<lparr>tr_entries := swap_remove i (tr_entries reg)\<rparr>)))"

definition topic_alias_resolve :: "topic_alias_registry \<Rightarrow> bytes option \<Rightarrow> bytes option" where
  "topic_alias_resolve reg name =
     (case name of
        None \<Rightarrow> None
      | Some n \<Rightarrow> map_option ta_topic (find (\<lambda>e. ta_name e = n) (tr_entries reg)))"

datatype topic_alias_resolve_result =
  TOPIC_ALIAS_RESOLVE_OK | TOPIC_ALIAS_RESOLVE_AMBIGUOUS | TOPIC_ALIAS_RESOLVE_NOT_FOUND

record topic_alias_resolve_out =
  ro_status :: topic_alias_resolve_result
  ro_topic :: bytes
  ro_candidates :: "bytes list"
  ro_num_candidates :: nat

text \<open>The loop of \<open>topic_alias_resolve_ex\<close>, with the output record and the match count as accumulators.\<close>

fun resolve_scan :: "bytes \<Rightarrow> topic_alias_entry list \<Rightarrow> bytes \<times> bytes list \<times> nat \<Rightarrow> bytes \<times> bytes list \<times> nat" where
  "resolve_scan name [] acc = acc"
| "resolve_scan name (e # es) (topic, candidates, match_count) =
     (if ta_name e = name then
        resolve_scan name es
          (if match_count = 0 then take (TOPIC_ALIAS_MAX_TOPIC - 1) (ta_topic e) else topic,
           if match_count < TOPIC_ALIAS_MAX_CANDIDATES then candidates @ [ta_topic e] else candidates,
           match_count + 1)
      else resolve_scan name es (topic, candidates, match_count))"

definition topic_alias_resolve_ex :: "topic_alias_registry \<Rightarrow> bytes option \<Rightarrow> topic_alias_resolve_out option" where
  "topic_alias_resolve_ex reg name =
     (case name of
        None \<Rightarrow> None
      | Some n \<Rightarrow>
          let (topic, candidates, match_count) = resolve_scan n (tr_entries reg) ([], [], 0)
          in Some \<lparr>ro_status = (if match_count = 0 then TOPIC_ALIAS_RESOLVE_NOT_FOUND
                                else if match_count = 1 then TOPIC_ALIAS_RESOLVE_OK
                                else TOPIC_ALIAS_RESOLVE_AMBIGUOUS),
                   ro_topic = topic, ro_candidates = candidates, ro_num_candidates = match_count\<rparr>)"

section \<open>Topic identifiers and paths\<close>

definition POSEIDON_TOPIC_ID_STR_MAX :: nat where "POSEIDON_TOPIC_ID_STR_MAX = 48"

record poseidon_topic_id =
  ti_bytes :: bytes
  ti_bit_depth :: u16
  ti_str :: bytes

definition topic_id_zero :: poseidon_topic_id where
  "topic_id_zero = \<lparr>ti_bytes = replicate 32 0, ti_bit_depth = 0, ti_str = []\<rparr>"

definition poseidon_topic_id_from_node_id :: "poseidon_node_id \<Rightarrow> poseidon_topic_id" where
  "poseidon_topic_id_from_node_id node_id =
     topic_id_zero\<lparr>ti_bit_depth := 256, ti_str := take (POSEIDON_TOPIC_ID_STR_MAX - 1) (nid_str node_id)\<rparr>"

text \<open>\<open>rnd\<close> are the values of the sixteen calls of \<open>rand\<close>.\<close>

definition poseidon_topic_id_generate :: "nat list \<Rightarrow> poseidon_topic_id" where
  "poseidon_topic_id_generate rnd =
     (let b0 = map (\<lambda>r. of_nat r :: byte) rnd;
          b1 = b0[6 := or (and (b0 ! 6) 0x0F) 0x40];
          b2 = b1[8 := or (and (b1 ! 8) 0x3F) 0x80]
      in \<lparr>ti_bytes = b2 @ replicate 16 0, ti_bit_depth = 128,
          ti_str = map (\<lambda>b. BASE58_ALPHABET ! (unat b mod 58)) b2\<rparr>)"

text \<open>The object is cleared before the length check, so a refused string leaves a zero identifier.\<close>

definition poseidon_topic_id_from_string :: "bytes \<Rightarrow> int \<times> poseidon_topic_id" where
  "poseidon_topic_id_from_string str =
     (if length str = 0 \<or> length str \<ge> POSEIDON_TOPIC_ID_STR_MAX then (- 1, topic_id_zero)
      else (0, topic_id_zero\<lparr>ti_bit_depth := (if length str \<ge> 32 then 256 else 128),
                             ti_str := take (POSEIDON_TOPIC_ID_STR_MAX - 1) str\<rparr>))"

record poseidon_path_resolve_result =
  pr_topic_id :: poseidon_topic_id
  pr_subtopic :: bytes
  pr_found :: bool
  pr_ambiguous :: bool

definition poseidon_resolve_path :: "topic_alias_registry \<Rightarrow> bytes \<Rightarrow> poseidon_path_resolve_result" where
  "poseidon_resolve_path aliases path =
     (let path_copy = take 511 path;
          first_component = takeWhile (\<lambda>c. c \<noteq> SUBTOPIC_SEPARATOR) path_copy;
          subtopic = take 255 (drop (length first_component + 1) path_copy);
          result = (\<lambda>s amb. \<lparr>pr_topic_id = snd (poseidon_topic_id_from_string s), pr_subtopic = subtopic,
                             pr_found = True, pr_ambiguous = amb\<rparr>)
      in case topic_alias_resolve_ex aliases (Some first_component) of
           None \<Rightarrow> result first_component False
         | Some r \<Rightarrow>
             (case ro_status r of
                TOPIC_ALIAS_RESOLVE_OK \<Rightarrow> result (ro_topic r) False
              | TOPIC_ALIAS_RESOLVE_AMBIGUOUS \<Rightarrow> result (ro_candidates r ! 0) True
              | TOPIC_ALIAS_RESOLVE_NOT_FOUND \<Rightarrow> result first_component False))"

section \<open>Message envelopes\<close>

definition channel_message_encode :: "bytes option \<Rightarrow> bytes option \<Rightarrow> cbor_item option" where
  "channel_message_encode subtopic data =
     (case (subtopic, data) of
        (Some s, Some d) \<Rightarrow> cbor_array_of 2 [cbor_build_string s, cbor_build_bytestring d]
      | _ \<Rightarrow> None)"

definition channel_message_decode :: "nat \<Rightarrow> nat \<Rightarrow> cbor_item \<Rightarrow> (bytes \<times> bytes) cres" where
  "channel_message_decode subtopic_buf_size data_buf_size item =
     cguard (cbor_isa_array item) (
     cbind (cbor_array_elems item) (\<lambda>items.
     cguard (length items = 2) (
     cguard (cbor_isa_string (items ! 0)) (
     cbind (cbor_string_into subtopic_buf_size (items ! 0)) (\<lambda>subtopic.
     cguard (cbor_isa_bytestring (items ! 1)) (
     cbind (cbor_bytestring_bytes (items ! 1)) (\<lambda>data.
     cguard (length data \<le> data_buf_size) (
     Ret (subtopic, data)))))))))"

section \<open>Paths as lists of components\<close>

text \<open>The reference notion of a path: its text split at every separator.\<close>

fun split_on :: "'a \<Rightarrow> 'a list \<Rightarrow> 'a list list" where
  "split_on s [] = [[]]"
| "split_on s (x # xs) =
     (if x = s then [] # split_on s xs else (x # hd (split_on s xs)) # tl (split_on s xs))"

lemma split_on_ne [simp]: "split_on s xs \<noteq> []"
  by (cases xs) auto

lemma split_on_append_sep: "split_on s (xs @ s # ys) = split_on s xs @ split_on s ys"
  by (induction xs) (auto simp: hd_append)

fun join_with :: "'a \<Rightarrow> 'a list list \<Rightarrow> 'a list" where
  "join_with s [] = []"
| "join_with s [x] = x"
| "join_with s (x # y # zs) = x @ s # join_with s (y # zs)"

lemma join_with_Cons: "zs \<noteq> [] \<Longrightarrow> join_with s (x # zs) = x @ s # join_with s zs"
  by (cases zs) auto

lemma join_with_hd: "zs \<noteq> [] \<Longrightarrow> join_with s ((x # hd zs) # tl zs) = x # join_with s zs"
  by (cases zs; cases "tl zs") auto

lemma join_split [simp]: "join_with s (split_on s xs) = xs"
  by (induction xs) (auto simp: join_with_Cons join_with_hd)

lemma join_with_append: "xs \<noteq> [] \<Longrightarrow> ys \<noteq> [] \<Longrightarrow> join_with s (xs @ ys) = join_with s xs @ s # join_with s ys"
  by (induction xs rule: join_with.induct [of _ s]) (auto simp: join_with_Cons)

lemma prefix_split_iff:
  "prefix (split_on s a) (split_on s b) \<longleftrightarrow> b = a \<or> (\<exists>r. b = a @ s # r)"
proof
  assume "prefix (split_on s a) (split_on s b)"
  then obtain zs where zs: "split_on s b = split_on s a @ zs" by (auto simp: prefix_def)
  then have "b = join_with s (split_on s a @ zs)" using join_split [of s b] by simp
  then show "b = a \<or> (\<exists>r. b = a @ s # r)"
    by (cases "zs = []") (auto simp: join_with_append)
qed (auto simp: split_on_append_sep)

section \<open>Parsing\<close>

text \<open>What \<open>subtopic_parse\<close> does with the result of its loop.\<close>

definition scan_finish :: "nat \<Rightarrow> (bytes list \<times> bytes) option \<Rightarrow> bytes list option" where
  "scan_finish max_parts r =
     (case r of
        None \<Rightarrow> None
      | Some (parts, start) \<Rightarrow>
          if start \<noteq> [] \<and> length parts < max_parts then
            if length start \<ge> SUBTOPIC_MAX_PART_LEN then None else Some (parts @ [start])
          else Some parts)"

definition bounded_parts :: "bytes list \<Rightarrow> bytes list \<Rightarrow> bytes list option" where
  "bounded_parts parts ps =
     (if list_all (\<lambda>s. length s < SUBTOPIC_MAX_PART_LEN) ps then Some (parts @ ps) else None)"

lemma bounded_parts_Cons:
  "bounded_parts parts (p # ps) = (if length p < SUBTOPIC_MAX_PART_LEN then bounded_parts (parts @ [p]) ps else None)"
  by (simp add: bounded_parts_def)

lemma scan_finish_eq:
  "length parts \<le> n \<Longrightarrow> scan_finish n (subtopic_scan n seg cs parts) =
     bounded_parts parts (take (n - length parts)
       (filter (\<lambda>s. s \<noteq> []) ((seg @ hd (split_on SUBTOPIC_SEPARATOR cs)) # tl (split_on SUBTOPIC_SEPARATOR cs))))"
proof (induction cs arbitrary: seg parts)
  case Nil
  then show ?case by (cases "n - length parts") (auto simp: scan_finish_def bounded_parts_def)
next
  case (Cons c cs)
  have hd_tl: "hd (split_on SUBTOPIC_SEPARATOR cs) # tl (split_on SUBTOPIC_SEPARATOR cs) = split_on SUBTOPIC_SEPARATOR cs"
    by simp
  show ?case
  proof (cases "length parts < n")
    case False
    with Cons.prems show ?thesis by (simp add: scan_finish_def bounded_parts_def)
  next
    case True
    then obtain k where k: "n - length parts = Suc k" by (metis Suc_diff_Suc)
    then have k': "n - Suc (length parts) = k" by simp
    show ?thesis
    proof (cases "c = SUBTOPIC_SEPARATOR")
      case True
      with \<open>length parts < n\<close> Cons.IH [of parts "[]"] Cons.IH [of "parts @ [seg]" "[]"] k k' hd_tl
      show ?thesis
        by (cases "seg = []") (auto simp: bounded_parts_Cons scan_finish_def SUBTOPIC_MAX_PART_LEN_def)
    next
      case False
      with \<open>length parts < n\<close> Cons.IH [of parts "seg @ [c]"] show ?thesis by simp
    qed
  qed
qed

lemma subtopic_parse_eq:
  assumes "0 < n"
  shows "subtopic_parse (Some p) n = bounded_parts [] (take n (filter (\<lambda>s. s \<noteq> []) (split_on SUBTOPIC_SEPARATOR p)))"
proof (cases "p = []")
  case True
  with assms show ?thesis by (simp add: subtopic_parse_def bounded_parts_def)
next
  case False
  have "subtopic_parse (Some p) n = scan_finish n (subtopic_scan n [] p [])"
    using False assms by (simp add: subtopic_parse_def scan_finish_def split: option.split prod.split)
  then show ?thesis by (simp add: scan_finish_eq)
qed

section \<open>Matching\<close>

lemma strip_separators_take: "strip_separators s = take (length (strip_separators s)) s"
proof -
  have "s = strip_separators s @ rev (takeWhile (\<lambda>c. c = SUBTOPIC_SEPARATOR) (rev s))"
    unfolding strip_separators_def by (metis rev_append rev_rev_ident takeWhile_dropWhile_id)
  then show ?thesis by (metis append_eq_conv_conj)
qed

lemma take_eq_iff_append: "length a \<le> length m \<Longrightarrow> take (length a) m = a \<longleftrightarrow> (\<exists>r. m = a @ r)"
  by (metis append_eq_conv_conj append_take_drop_id)

lemma subtopic_matches_iff:
  "subtopic_matches (Some m) (Some s) \<longleftrightarrow>
     s = [] \<or> m = strip_separators s \<or> (\<exists>r. m = strip_separators s @ SUBTOPIC_SEPARATOR # r)"
proof (cases "s = []")
  case False
  let ?a = "strip_separators s"
  have "subtopic_matches (Some m) (Some s) \<longleftrightarrow>
    length ?a \<le> length m \<and> take (length ?a) m = ?a \<and> (length m = length ?a \<or> m ! length ?a = SUBTOPIC_SEPARATOR)"
    using False strip_separators_take [of s] by (auto simp: subtopic_matches_def Let_def)
  also have "\<dots> \<longleftrightarrow> (\<exists>r. m = ?a @ r \<and> (r = [] \<or> r ! 0 = SUBTOPIC_SEPARATOR))"
    using take_eq_iff_append [of ?a m] by (auto simp: nth_append)
  also have "\<dots> \<longleftrightarrow> m = ?a \<or> (\<exists>r. m = ?a @ SUBTOPIC_SEPARATOR # r)"
    by (metis append_Nil2 neq_Nil_conv nth_Cons_0)
  finally show ?thesis using False by simp
qed (simp add: subtopic_matches_def)

section \<open>The subscription table\<close>

definition subtopic_table_wf :: "subtopic_table \<Rightarrow> bool" where
  "subtopic_table_wf t \<longleftrightarrow> distinct (map se_path t) \<and> length t \<le> SUBTOPIC_TABLE_MAX_SUBS"

definition subtopic_lookup :: "subtopic_table \<Rightarrow> bytes \<Rightarrow> u32 option" where
  "subtopic_lookup t p = map_option se_ttl (find (\<lambda>e. se_path e = p) t)"

lemma subtopic_lookup_None: "subtopic_lookup t p = None \<longleftrightarrow> \<not> list_ex (\<lambda>e. se_path e = p) t"
  by (auto simp: subtopic_lookup_def find_None_iff list_ex_iff)

lemma subtopic_table_wf_subscribe [wf_intros]:
  assumes "subtopic_table_wf t" "length p \<le> subtopic_path_room"
  shows "subtopic_table_wf (snd (subtopic_table_subscribe t (Some p) ttl))"
  using assms by (auto simp: subtopic_table_wf_def subtopic_table_subscribe_def map_update_first list_ex_iff)

interpretation subtopics: bounded_table subtopic_table_wf subtopic_lookup length SUBTOPIC_TABLE_MAX_SUBS
  "\<lambda>p. length p \<le> subtopic_path_room" "\<lambda>_ ttl. ttl" "\<lambda>p ttl t. subtopic_table_subscribe t (Some p) ttl"
proof
  fix t :: subtopic_table and p :: bytes and ttl :: u32
  assume t: "subtopic_table_wf t" and p: "length p \<le> subtopic_path_room"
  show "subtopic_table_wf (snd (subtopic_table_subscribe t (Some p) ttl))"
    using t p by (rule subtopic_table_wf_subscribe)
  show "fst (subtopic_table_subscribe t (Some p) ttl) = 0
    \<and> subtopic_lookup (snd (subtopic_table_subscribe t (Some p) ttl)) = (subtopic_lookup t)(p \<mapsto> ttl)"
    if c: "subtopic_lookup t p \<noteq> None \<or> length t < SUBTOPIC_TABLE_MAX_SUBS"
  proof (cases "list_ex (\<lambda>e. se_path e = p) t")
    case True
    then have "find (\<lambda>e. se_path e = p) t \<noteq> None" by (auto simp: find_None_iff list_ex_iff)
    with True show ?thesis
      by (auto simp: subtopic_table_subscribe_def subtopic_lookup_def fun_eq_iff
          find_update_first_same find_update_first_other)
  next
    case False
    then have "find (\<lambda>e. se_path e = p) t = None" by (auto simp: find_None_iff list_ex_iff)
    with False c p show ?thesis
      by (auto simp: subtopic_table_subscribe_def subtopic_lookup_def fun_eq_iff find_append
          split: option.split)
  qed
  show "subtopic_table_subscribe t (Some p) ttl = (- 1, t)"
    if "subtopic_lookup t p = None" "SUBTOPIC_TABLE_MAX_SUBS \<le> length t"
    using that by (simp add: subtopic_table_subscribe_def subtopic_lookup_None)
qed (simp add: subtopic_table_wf_def)

lemma subtopic_unsubscribe_lookup:
  assumes "subtopic_table_wf t"
  shows "subtopic_table_wf (snd (subtopic_table_unsubscribe t (Some p)))"
    "set (snd (subtopic_table_unsubscribe t (Some p))) = {e \<in> set t. se_path e \<noteq> p}"
proof -
  have d: "distinct (map se_path t)" using assms by (simp add: subtopic_table_wf_def)
  have "subtopic_table_wf (snd (subtopic_table_unsubscribe t (Some p)))
    \<and> set (snd (subtopic_table_unsubscribe t (Some p))) = {e \<in> set t. se_path e \<noteq> p}"
  proof (cases "find_index (\<lambda>e. se_path e = p) t")
    case None
    then have "\<forall>e \<in> set t. se_path e \<noteq> p" by (auto simp: find_index_None_iff list_ex_iff)
    with None assms show ?thesis by (auto simp: subtopic_table_unsubscribe_def)
  next
    case (Some i)
    then have i: "i < length t" "se_path (t ! i) = p" by (auto dest: find_index_SomeD)
    then have ne: "t \<noteq> []" by auto
    have "distinct (map se_path (swap_remove i t))"
      unfolding map_swap_remove [OF ne] using d i by (intro set_swap_remove) simp_all
    moreover have "set (swap_remove i t) = set t - {t ! i}"
      using d i by (intro set_swap_remove) (auto simp: distinct_map)
    moreover have "\<forall>e \<in> set t. se_path e = p \<longrightarrow> e = t ! i"
      using d i by (metis distinct_map inj_onD nth_mem)
    ultimately show ?thesis
      using assms i Some length_swap_remove [OF ne, of i]
      by (auto simp: subtopic_table_unsubscribe_def subtopic_table_wf_def)
  qed
  then show "subtopic_table_wf (snd (subtopic_table_unsubscribe t (Some p)))"
    "set (snd (subtopic_table_unsubscribe t (Some p))) = {e \<in> set t. se_path e \<noteq> p}" by auto
qed

lemma u32_gt_one_iff: "1 < (x::u32) \<longleftrightarrow> x \<noteq> 0 \<and> x \<noteq> 1"
proof -
  have "1 < x \<longleftrightarrow> unat x \<noteq> unat (0::u32) \<and> unat x \<noteq> unat (1::u32)" by (auto simp: word_less_nat_alt)
  then show ?thesis unfolding unat_eq_unat_iff .
qed

lemma subtopic_tick_eq:
  "subtopic_table_tick t = map (\<lambda>e. e\<lparr>se_ttl := se_ttl e - 1\<rparr>) (filter (\<lambda>e. 1 < se_ttl e) t)"
  by (induction t) (auto simp: Let_def u32_gt_one_iff word_gt_0)

lemma subtopic_table_wf_tick [wf_intros]: "subtopic_table_wf t \<Longrightarrow> subtopic_table_wf (subtopic_table_tick t)"
proof -
  assume t: "subtopic_table_wf t"
  have "map se_path (subtopic_table_tick t) = map se_path (filter (\<lambda>e. 1 < se_ttl e) t)"
    by (simp add: subtopic_tick_eq)
  moreover from this have "length (subtopic_table_tick t) \<le> length t" by (metis length_filter_le length_map)
  ultimately show ?thesis using t by (simp add: subtopic_table_wf_def distinct_map_filter)
qed

lemma subtopic_ticks_eq:
  "(subtopic_table_tick ^^ Suc n) t =
     map (\<lambda>e. e\<lparr>se_ttl := se_ttl e - of_nat (Suc n)\<rparr>) (filter (\<lambda>e. Suc n < unat (se_ttl e)) t)"
proof (induction n)
  case 0
  show ?case by (simp add: subtopic_tick_eq word_less_nat_alt)
next
  case (Suc n)
  have "1 < w - of_nat (Suc n) \<longleftrightarrow> Suc (Suc n) < unat w" if "Suc n < unat w" for w :: u32
  proof -
    have "unat (w - of_nat (Suc n)) = unat w - Suc n"
    proof -
      have "unat (of_nat (Suc n) :: u32) = Suc n"
        using that unat_u32_less [of w] by (intro unat_of_nat_u32) simp
      with that show ?thesis by (subst unat_sub) (simp_all add: word_le_nat_alt)
    qed
    then show ?thesis by (simp add: word_less_nat_alt) linarith
  qed
  then have "filter (\<lambda>e. 1 < se_ttl e - of_nat (Suc n)) (filter (\<lambda>e. Suc n < unat (se_ttl e)) t)
    = filter (\<lambda>e. Suc (Suc n) < unat (se_ttl e)) t"
    by (auto simp: filter_filter intro!: filter_cong)
  then have f: "filter (\<lambda>e. 1 < se_ttl e) (map (\<lambda>e. e\<lparr>se_ttl := se_ttl e - of_nat (Suc n)\<rparr>)
      (filter (\<lambda>e. Suc n < unat (se_ttl e)) t))
    = map (\<lambda>e. e\<lparr>se_ttl := se_ttl e - of_nat (Suc n)\<rparr>) (filter (\<lambda>e. Suc (Suc n) < unat (se_ttl e)) t)"
    by (simp add: filter_map comp_def)
  have "(subtopic_table_tick ^^ Suc (Suc n)) t = subtopic_table_tick ((subtopic_table_tick ^^ Suc n) t)" by simp
  also have "\<dots> = map (\<lambda>e. e\<lparr>se_ttl := se_ttl e - of_nat (Suc (Suc n))\<rparr>)
      (filter (\<lambda>e. Suc (Suc n) < unat (se_ttl e)) t)"
    unfolding Suc.IH subtopic_tick_eq f by (simp add: comp_def algebra_simps)
  finally show ?case .
qed

section \<open>Aliases and paths\<close>

lemma resolve_scan_eq:
  "resolve_scan n es (topic, cs, k) =
     (let ms = map ta_topic (filter (\<lambda>e. ta_name e = n) es)
      in (if k = 0 \<and> ms \<noteq> [] then take (TOPIC_ALIAS_MAX_TOPIC - 1) (hd ms) else topic,
          cs @ take (TOPIC_ALIAS_MAX_CANDIDATES - k) ms, k + length ms))"
proof (induction es arbitrary: topic cs k)
  case (Cons e es)
  then show ?case by (auto simp: Let_def not_less take_Cons')
qed simp

lemma topic_alias_resolve_ex_eq:
  "topic_alias_resolve_ex reg (Some n) =
     (let ms = map ta_topic (filter (\<lambda>e. ta_name e = n) (tr_entries reg))
      in Some \<lparr>ro_status = (case ms of [] \<Rightarrow> TOPIC_ALIAS_RESOLVE_NOT_FOUND | [_] \<Rightarrow> TOPIC_ALIAS_RESOLVE_OK
                                     | _ \<Rightarrow> TOPIC_ALIAS_RESOLVE_AMBIGUOUS),
               ro_topic = (case ms of [] \<Rightarrow> [] | m # _ \<Rightarrow> take (TOPIC_ALIAS_MAX_TOPIC - 1) m),
               ro_candidates = take TOPIC_ALIAS_MAX_CANDIDATES ms, ro_num_candidates = length ms\<rparr>)"
  by (cases "filter (\<lambda>e. ta_name e = n) (tr_entries reg)";
      cases "tl (filter (\<lambda>e. ta_name e = n) (tr_entries reg))")
     (simp_all add: topic_alias_resolve_ex_def resolve_scan_eq Let_def)

interpretation message_codec: codec "\<lambda>(s, d). channel_message_encode (Some s) (Some d)"
  "cdecoded (channel_message_decode 256 4096)" "\<lambda>(s, d). c_string 256 s \<and> length d \<le> 4096" "\<lambda>x. x"
  by unfold_locales (auto simp: channel_message_encode_def channel_message_decode_def)

section \<open>Properties\<close>

text \<open>
  Parsing a path gives its non-empty components: the first \<open>max_parts\<close> of them, or an
  error exactly when one of these does not fit its buffer.
\<close>

theorem subtopic_parse_splits:
  "subtopic_parse (Some path) (Suc n) =
     (let ps = take (Suc n) (filter (\<lambda>s. s \<noteq> []) (split_on SUBTOPIC_SEPARATOR path))
      in if list_all (\<lambda>s. length s < SUBTOPIC_MAX_PART_LEN) ps then Some ps else None)"
  by (simp add: subtopic_parse_eq bounded_parts_def)

text \<open>
  Matching is the prefix order on components: a message is for a subscription exactly
  when the subscription is empty or its components (without trailing separators) are an
  initial part of the components of the subtopic of the message.
\<close>

theorem subtopic_matches_components:
  "subtopic_matches (Some m) (Some s) \<longleftrightarrow>
     s = [] \<or> prefix (split_on SUBTOPIC_SEPARATOR (strip_separators s)) (split_on SUBTOPIC_SEPARATOR m)"
  by (simp add: subtopic_matches_iff prefix_split_iff)

text \<open>
  After \<open>n\<close> rounds exactly the entries with a longer time to live remain, with \<open>n\<close>
  less; in particular an entry with time to live 0 is dropped by the first round.
\<close>

theorem subtopic_ticks_expire:
  "(subtopic_table_tick ^^ Suc n) t =
     map (\<lambda>e. e\<lparr>se_ttl := se_ttl e - of_nat (Suc n)\<rparr>) (filter (\<lambda>e. Suc n < unat (se_ttl e)) t)"
  by (rule subtopic_ticks_eq)

text \<open>
  A full subscription table refuses new paths without a change; otherwise a
  subscription succeeds, sets the time to live of its path and of no other, and keeps
  the table well-formed.
\<close>

theorem subtopic_subscribe_table:
  assumes "subtopic_table_wf t" "length p \<le> subtopic_path_room"
  shows "subtopic_table_wf (snd (subtopic_table_subscribe t (Some p) ttl))
    \<and> (if \<not> subtopic_table_is_subscribed t (Some p) \<and> length t = SUBTOPIC_TABLE_MAX_SUBS
       then subtopic_table_subscribe t (Some p) ttl = (- 1, t)
       else fst (subtopic_table_subscribe t (Some p) ttl) = 0
         \<and> subtopic_lookup (snd (subtopic_table_subscribe t (Some p) ttl)) = (subtopic_lookup t)(p \<mapsto> ttl))"
  using subtopics.store_ok [OF assms, of ttl] subtopics.store_full [OF assms, of ttl]
    subtopics.used_le [OF assms(1)] subtopic_table_wf_subscribe [OF assms]
  by (auto simp: subtopic_table_is_subscribed_def subtopic_lookup_None)

theorem subtopic_subscribe_table_witness:
  "subtopic_lookup (snd (subtopic_table_subscribe [\<lparr>se_path = [97], se_ttl = 3\<rparr>] (Some [98]) 7)) [98] = Some 7"
  using subtopic_subscribe_table [of "[\<lparr>se_path = [97], se_ttl = 3\<rparr>]" "[98]" 7]
  by (simp add: subtopic_table_wf_def SUBTOPIC_TABLE_MAX_SUBS_def subtopic_path_room_def
      SUBTOPIC_MAX_PARTS_def SUBTOPIC_MAX_PART_LEN_def subtopic_table_is_subscribed_def)

text \<open>
  Resolving a path replaces its first component by the topic of its alias, whatever
  the registry holds otherwise: the only alias of that name if there is one, the oldest
  of several (reported as ambiguous), and the component itself as a raw identifier if
  there is none.
\<close>

theorem resolve_path_alias:
  assumes "SUBTOPIC_SEPARATOR \<notin> set name" "length name + length sub < 511" "length sub \<le> 255"
    and "ms = map ta_topic (filter (\<lambda>e. ta_name e = name) (tr_entries reg))"
    and "list_all (\<lambda>m. length m < TOPIC_ALIAS_MAX_TOPIC) ms"
  shows "poseidon_resolve_path reg (name @ SUBTOPIC_SEPARATOR # sub) =
    \<lparr>pr_topic_id = snd (poseidon_topic_id_from_string (case ms of [] \<Rightarrow> name | m # _ \<Rightarrow> m)),
     pr_subtopic = sub, pr_found = True, pr_ambiguous = (1 < length ms)\<rparr>"
proof -
  let ?path = "name @ SUBTOPIC_SEPARATOR # sub"
  have copy: "take 511 ?path = ?path" using assms(2) by simp
  have first: "takeWhile (\<lambda>c. c \<noteq> SUBTOPIC_SEPARATOR) ?path = name"
    using assms(1) by (subst takeWhile_append2) auto
  have sub: "take 255 (drop (length name + 1) ?path) = sub" using assms(3) by simp
  show ?thesis
    using assms(5) unfolding poseidon_resolve_path_def copy first sub topic_alias_resolve_ex_eq assms(4) [symmetric] Let_def
    by (auto simp: TOPIC_ALIAS_MAX_CANDIDATES_def TOPIC_ALIAS_MAX_TOPIC_def split: list.split)
qed

theorem resolve_path_alias_witness:
  "poseidon_resolve_path
     \<lparr>tr_entries = [\<lparr>ta_name = [97], ta_topic = [84]\<rparr>, \<lparr>ta_name = [98], ta_topic = [85]\<rparr>], tr_capacity = 32\<rparr>
     ([97] @ SUBTOPIC_SEPARATOR # [120]) =
   \<lparr>pr_topic_id = snd (poseidon_topic_id_from_string [84]), pr_subtopic = [120], pr_found = True,
    pr_ambiguous = False\<rparr>"
  by (subst resolve_path_alias [where ms = "[[84]]"])
     (simp_all add: SUBTOPIC_SEPARATOR_def TOPIC_ALIAS_MAX_TOPIC_def)

text \<open>
  A path whose first component is no alias and too long for an identifier is
  reported as found, with the zero identifier.
\<close>

theorem resolve_path_accepts_invalid:
  assumes "SUBTOPIC_SEPARATOR \<notin> set name" "POSEIDON_TOPIC_ID_STR_MAX \<le> length name" "length name < 511"
    and "\<forall>e \<in> set (tr_entries reg). ta_name e \<noteq> name"
  shows "poseidon_resolve_path reg name =
    \<lparr>pr_topic_id = topic_id_zero, pr_subtopic = [], pr_found = True, pr_ambiguous = False\<rparr>"
proof -
  have copy: "take 511 name = name" and first: "takeWhile (\<lambda>c. c \<noteq> SUBTOPIC_SEPARATOR) name = name"
    using assms(1,3) by (auto simp: takeWhile_eq_all_conv)
  have ms: "filter (\<lambda>e. ta_name e = name) (tr_entries reg) = []" using assms(4) by (simp add: filter_empty_conv)
  show ?thesis
    using assms(2)
    by (simp add: poseidon_resolve_path_def copy first topic_alias_resolve_ex_eq ms poseidon_topic_id_from_string_def)
qed

theorem resolve_path_accepts_invalid_witness:
  "pr_found (poseidon_resolve_path (topic_alias_registry_create 32) (replicate 60 65))
   \<and> pr_topic_id (poseidon_resolve_path (topic_alias_registry_create 32) (replicate 60 65)) = topic_id_zero"
  using resolve_path_accepts_invalid [of "replicate 60 65" "topic_alias_registry_create 32"]
  by (simp add: SUBTOPIC_SEPARATOR_def POSEIDON_TOPIC_ID_STR_MAX_def topic_alias_registry_create_def)

end
