(* ===== verification/LibCbor.thy ===== *)
theory LibCbor
  imports Cbor Wire
begin

text \<open>
  The CBOR library the program links (\<open>deps/libcbor/src\<close>): the encoders of item
  heads, the recursive serialiser with its size prediction, the streaming decoder
  that turns the next head into one callback, the builder that assembles items from
  callbacks on a stack, and \<open>cbor_load\<close>, the loop over both. The main result is the
  round trip: loading what was serialised gives the item back and ignores what
  follows it.

  \<open>malloc\<close> is a parameter that tells whether an allocation of a number of bytes
  succeeds; it is consulted where the size depends on the input.
\<close>

section \<open>Heads\<close>

definition cbor_encode_uint8 :: "byte \<Rightarrow> byte \<Rightarrow> bytes" where
  "cbor_encode_uint8 v offset = (if v \<le> 23 then [v + offset] else [0x18 + offset, v])"

definition cbor_encode_uint16 :: "u16 \<Rightarrow> byte \<Rightarrow> bytes" where
  "cbor_encode_uint16 v offset = (0x19 + offset) # htons_bytes v"

definition cbor_encode_uint32 :: "u32 \<Rightarrow> byte \<Rightarrow> bytes" where
  "cbor_encode_uint32 v offset = (0x1A + offset) # htonl_bytes v"

definition cbor_encode_uint64 :: "u64 \<Rightarrow> byte \<Rightarrow> bytes" where
  "cbor_encode_uint64 v offset = (0x1B + offset) # write_uint64 v"

definition cbor_encode_uint :: "u64 \<Rightarrow> byte \<Rightarrow> bytes" where
  "cbor_encode_uint v offset =
     (if v \<le> 0xFFFF then
        if v \<le> 0xFF then cbor_encode_uint8 (ucast v) offset else cbor_encode_uint16 (ucast v) offset
      else if v \<le> 0xFFFFFFFF then cbor_encode_uint32 (ucast v) offset
      else cbor_encode_uint64 v offset)"

text \<open>An integer item is written at the width it is held in.\<close>

definition cbor_encode_int :: "cbor_int_width \<Rightarrow> u64 \<Rightarrow> byte \<Rightarrow> bytes" where
  "cbor_encode_int w v offset =
     (case w of
        CBOR_INT_8 \<Rightarrow> cbor_encode_uint8 (ucast v) offset
      | CBOR_INT_16 \<Rightarrow> cbor_encode_uint16 (ucast v) offset
      | CBOR_INT_32 \<Rightarrow> cbor_encode_uint32 (ucast v) offset
      | CBOR_INT_64 \<Rightarrow> cbor_encode_uint64 v offset)"

text \<open>
  Floating point numbers on their bit patterns. \<open>float_is_nan\<close> and \<open>double_is_nan\<close> are
  \<open>isnan\<close>; the encoders replace every not-a-number by the quiet one.
\<close>

definition float_is_nan :: "u32 \<Rightarrow> bool" where
  "float_is_nan b \<longleftrightarrow> and b 0x7F800000 = 0x7F800000 \<and> and b 0x7FFFFF \<noteq> 0"

definition double_is_nan :: "u64 \<Rightarrow> bool" where
  "double_is_nan b \<longleftrightarrow> and b 0x7FF0000000000000 = 0x7FF0000000000000 \<and> and b 0xFFFFFFFFFFFFF \<noteq> 0"

definition cbor_encode_half :: "u32 \<Rightarrow> bytes" where
  "cbor_encode_half v =
     (let exp = (ucast (drop_bit 23 (and v 0x7F800000)) :: byte);
          mant = and v 0x7FFFFF;
          sign = (ucast (drop_bit 16 (and v 0x80000000)) :: u16);
          res =
            (if exp = 0xFF then if float_is_nan v then 0x7E00 else or sign 0x7C00
             else if exp = 0 then or sign (ucast (drop_bit 13 mant))
             else
               let logical_exp = int (unat exp) - 127
               in if logical_exp < - 24 then 0
                  else if logical_exp < - 14 then
                    or sign (ucast (push_bit (nat (24 + logical_exp)) (1::u32))
                             + ucast (drop_bit 1 (drop_bit (nat (- logical_exp - 2)) mant + 1)))
                  else
                    ucast (or (drop_bit 16 (and v 0x80000000))
                              (or (push_bit 10 (word_of_int (logical_exp mod 256) + 15)) (drop_bit 13 mant))))
      in cbor_encode_uint16 res 0xE0)"

definition cbor_encode_single :: "u32 \<Rightarrow> bytes" where
  "cbor_encode_single v = cbor_encode_uint32 (if float_is_nan v then 0x7FC00000 else v) 0xE0"

definition cbor_encode_double :: "u64 \<Rightarrow> bytes" where
  "cbor_encode_double v = cbor_encode_uint64 (if double_is_nan v then 0x7FF8000000000000 else v) 0xE0"

section \<open>The format\<close>

text \<open>
  The bytes of an item, without regard to buffers: the reference the serialiser is
  compared with.
\<close>

abbreviation cbor_items_measure :: "cbor_item list \<Rightarrow> nat" where
  "cbor_items_measure \<equiv> size_list size"

abbreviation cbor_pairs_measure :: "(cbor_item \<times> cbor_item) list \<Rightarrow> nat" where
  "cbor_pairs_measure \<equiv> size_list (size_prod size size)"

abbreviation cbor_measure :: "cbor_item + cbor_item list + (cbor_item \<times> cbor_item) list \<Rightarrow> nat" where
  "cbor_measure \<equiv> case_sum size (case_sum cbor_items_measure cbor_pairs_measure)"

function cbor_encoding :: "cbor_item \<Rightarrow> bytes"
  and cbor_items_encoding :: "cbor_item list \<Rightarrow> bytes"
  and cbor_pairs_encoding :: "(cbor_item \<times> cbor_item) list \<Rightarrow> bytes" where
  "cbor_encoding (CBOR_UINT w v) = cbor_encode_int w v 0x00"
| "cbor_encoding (CBOR_NEGINT w v) = cbor_encode_int w v 0x20"
| "cbor_encoding (CBOR_BYTESTRING bs) = cbor_encode_uint (of_nat (length bs)) 0x40 @ bs"
| "cbor_encoding (CBOR_BYTESTRING_CHUNKS cs) =
     [0x5F] @ concat (map (\<lambda>c. cbor_encode_uint (of_nat (length c)) 0x40 @ c) cs) @ [0xFF]"
| "cbor_encoding (CBOR_STRING bs) = cbor_encode_uint (of_nat (length bs)) 0x60 @ bs"
| "cbor_encoding (CBOR_STRING_CHUNKS cs) =
     [0x7F] @ concat (map (\<lambda>c. cbor_encode_uint (of_nat (length c)) 0x60 @ c) cs) @ [0xFF]"
| "cbor_encoding (CBOR_ARRAY definite es) =
     (if definite then cbor_encode_uint (of_nat (length es)) 0x80 @ cbor_items_encoding es
      else [0x9F] @ cbor_items_encoding es @ [0xFF])"
| "cbor_encoding (CBOR_MAP definite ps) =
     (if definite then cbor_encode_uint (of_nat (length ps)) 0xA0 @ cbor_pairs_encoding ps
      else [0xBF] @ cbor_pairs_encoding ps @ [0xFF])"
| "cbor_encoding (CBOR_TAG v it) = cbor_encode_uint v 0xC0 @ cbor_encoding it"
| "cbor_encoding (CBOR_FLOAT_CTRL w v) =
     (case w of
        CBOR_FLOAT_0 \<Rightarrow> cbor_encode_uint8 (ucast v) 0xE0
      | CBOR_FLOAT_16 \<Rightarrow> cbor_encode_half (ucast v)
      | CBOR_FLOAT_32 \<Rightarrow> cbor_encode_single (ucast v)
      | CBOR_FLOAT_64 \<Rightarrow> cbor_encode_double v)"
| "cbor_items_encoding [] = []"
| "cbor_items_encoding (it # its) = cbor_encoding it @ cbor_items_encoding its"
| "cbor_pairs_encoding [] = []"
| "cbor_pairs_encoding ((k, v) # ps) = cbor_encoding k @ cbor_encoding v @ cbor_pairs_encoding ps"
  by pat_completeness auto

termination
  by (relation "measure cbor_measure") auto

section \<open>Serialisation\<close>

text \<open>
  The serialiser writes into a buffer with \<open>room\<close> bytes left and returns 0, here
  \<open>None\<close>, as soon as something does not fit. \<open>cbor_emit\<close> is the test every encoder
  makes before it writes, \<open>cbor_then\<close> the accumulation of \<open>written\<close>.
\<close>

definition cbor_emit :: "bytes \<Rightarrow> nat \<Rightarrow> bytes option" where
  "cbor_emit bs room = (if length bs \<le> room then Some bs else None)"

definition cbor_then :: "bytes option \<Rightarrow> nat \<Rightarrow> (nat \<Rightarrow> bytes option) \<Rightarrow> bytes option" where
  "cbor_then r room k =
     (case r of
        None \<Rightarrow> None
      | Some bs \<Rightarrow> (case k (room - length bs) of None \<Rightarrow> None | Some cs \<Rightarrow> Some (bs @ cs)))"

definition cbor_serialize_int :: "cbor_int_width \<Rightarrow> u64 \<Rightarrow> byte \<Rightarrow> nat \<Rightarrow> bytes option" where
  "cbor_serialize_int w v offset room = cbor_emit (cbor_encode_int w v offset) room"

definition cbor_serialize_definite :: "byte \<Rightarrow> bytes \<Rightarrow> nat \<Rightarrow> bytes option" where
  "cbor_serialize_definite offset bs room =
     cbor_then (cbor_emit (cbor_encode_uint (of_nat (length bs)) offset) room) room (cbor_emit bs)"

fun cbor_serialize_chunks :: "byte \<Rightarrow> bytes list \<Rightarrow> nat \<Rightarrow> bytes option" where
  "cbor_serialize_chunks offset [] room = cbor_emit [0xFF] room"
| "cbor_serialize_chunks offset (c # cs) room =
     cbor_then (cbor_serialize_definite offset c room) room (cbor_serialize_chunks offset cs)"

definition cbor_serialize_float_ctrl :: "cbor_float_width \<Rightarrow> u64 \<Rightarrow> nat \<Rightarrow> bytes option" where
  "cbor_serialize_float_ctrl w v room =
     (case w of
        CBOR_FLOAT_0 \<Rightarrow> cbor_emit (cbor_encode_uint8 (ucast v) 0xE0) room
      | CBOR_FLOAT_16 \<Rightarrow> cbor_emit (cbor_encode_half (ucast v)) room
      | CBOR_FLOAT_32 \<Rightarrow> cbor_emit (cbor_encode_single (ucast v)) room
      | CBOR_FLOAT_64 \<Rightarrow> cbor_emit (cbor_encode_double v) room)"

function cbor_serialize :: "cbor_item \<Rightarrow> nat \<Rightarrow> bytes option"
  and cbor_serialize_array :: "bool \<Rightarrow> cbor_item list \<Rightarrow> nat \<Rightarrow> bytes option"
  and cbor_serialize_map :: "bool \<Rightarrow> (cbor_item \<times> cbor_item) list \<Rightarrow> nat \<Rightarrow> bytes option" where
  "cbor_serialize (CBOR_UINT w v) room = cbor_serialize_int w v 0x00 room"
| "cbor_serialize (CBOR_NEGINT w v) room = cbor_serialize_int w v 0x20 room"
| "cbor_serialize (CBOR_BYTESTRING bs) room = cbor_serialize_definite 0x40 bs room"
| "cbor_serialize (CBOR_BYTESTRING_CHUNKS cs) room =
     cbor_then (cbor_emit [0x5F] room) room (cbor_serialize_chunks 0x40 cs)"
| "cbor_serialize (CBOR_STRING bs) room = cbor_serialize_definite 0x60 bs room"
| "cbor_serialize (CBOR_STRING_CHUNKS cs) room =
     cbor_then (cbor_emit [0x7F] room) room (cbor_serialize_chunks 0x60 cs)"
| "cbor_serialize (CBOR_ARRAY definite es) room =
     cbor_then (cbor_emit (if definite then cbor_encode_uint (of_nat (length es)) 0x80 else [0x9F]) room)
       room (\<lambda>room. cbor_serialize_array definite es room)"
| "cbor_serialize (CBOR_MAP definite ps) room =
     cbor_then (cbor_emit (if definite then cbor_encode_uint (of_nat (length ps)) 0xA0 else [0xBF]) room)
       room (\<lambda>room. cbor_serialize_map definite ps room)"
| "cbor_serialize (CBOR_TAG v it) room =
     cbor_then (cbor_emit (cbor_encode_uint v 0xC0) room) room (\<lambda>room. cbor_serialize it room)"
| "cbor_serialize (CBOR_FLOAT_CTRL w v) room = cbor_serialize_float_ctrl w v room"
| "cbor_serialize_array definite [] room = (if definite then Some [] else cbor_emit [0xFF] room)"
| "cbor_serialize_array definite (it # its) room =
     cbor_then (cbor_serialize it room) room (\<lambda>room. cbor_serialize_array definite its room)"
| "cbor_serialize_map definite [] room = (if definite then Some [] else cbor_emit [0xFF] room)"
| "cbor_serialize_map definite ((k, v) # ps) room =
     cbor_then (cbor_serialize k room) room (\<lambda>room.
       cbor_then (cbor_serialize v room) room (\<lambda>room. cbor_serialize_map definite ps room))"
  by pat_completeness auto

termination
  by (relation "measure (case_sum (size \<circ> fst)
       (case_sum (cbor_items_measure \<circ> fst \<circ> snd) (cbor_pairs_measure \<circ> fst \<circ> snd)))") auto

text \<open>The predicted size; 0 signals that it does not fit \<open>size_t\<close>.\<close>

definition cbor_encoded_header_size :: "u64 \<Rightarrow> nat" where
  "cbor_encoded_header_size n =
     (if n \<le> 23 then 1 else if n \<le> 0xFF then 2 else if n \<le> 0xFFFF then 3 else if n \<le> 0xFFFFFFFF then 5 else 9)"

definition cbor_safe_signaling_add :: "nat \<Rightarrow> nat \<Rightarrow> nat" where
  "cbor_safe_signaling_add a b = (if a = 0 \<or> b = 0 then 0 else if a + b < 2 ^ 64 then a + b else 0)"

definition cbor_string_size :: "bytes \<Rightarrow> nat" where
  "cbor_string_size bs =
     (let header_size = cbor_encoded_header_size (of_nat (length bs))
      in if length bs = 0 then header_size else cbor_safe_signaling_add header_size (length bs))"

definition cbor_int_size :: "cbor_int_width \<Rightarrow> u64 \<Rightarrow> nat" where
  "cbor_int_size w v =
     (case w of
        CBOR_INT_8 \<Rightarrow> if (ucast v :: byte) \<le> 23 then 1 else 2
      | CBOR_INT_16 \<Rightarrow> 3 | CBOR_INT_32 \<Rightarrow> 5 | CBOR_INT_64 \<Rightarrow> 9)"

function cbor_serialized_size :: "cbor_item \<Rightarrow> nat"
  and cbor_items_size :: "cbor_item list \<Rightarrow> nat \<Rightarrow> nat"
  and cbor_pairs_size :: "(cbor_item \<times> cbor_item) list \<Rightarrow> nat \<Rightarrow> nat" where
  "cbor_serialized_size (CBOR_UINT w v) = cbor_int_size w v"
| "cbor_serialized_size (CBOR_NEGINT w v) = cbor_int_size w v"
| "cbor_serialized_size (CBOR_BYTESTRING bs) = cbor_string_size bs"
| "cbor_serialized_size (CBOR_BYTESTRING_CHUNKS cs) = fold (\<lambda>c n. cbor_safe_signaling_add n (cbor_string_size c)) cs 2"
| "cbor_serialized_size (CBOR_STRING bs) = cbor_string_size bs"
| "cbor_serialized_size (CBOR_STRING_CHUNKS cs) = fold (\<lambda>c n. cbor_safe_signaling_add n (cbor_string_size c)) cs 2"
| "cbor_serialized_size (CBOR_ARRAY definite es) =
     cbor_items_size es (if definite then cbor_encoded_header_size (of_nat (length es)) else 2)"
| "cbor_serialized_size (CBOR_MAP definite ps) =
     cbor_pairs_size ps (if definite then cbor_encoded_header_size (of_nat (length ps)) else 2)"
| "cbor_serialized_size (CBOR_TAG v it) = cbor_safe_signaling_add (cbor_encoded_header_size v) (cbor_serialized_size it)"
| "cbor_serialized_size (CBOR_FLOAT_CTRL w v) =
     (case w of
        CBOR_FLOAT_0 \<Rightarrow> cbor_encoded_header_size (ucast (ucast v :: byte))
      | CBOR_FLOAT_16 \<Rightarrow> 3 | CBOR_FLOAT_32 \<Rightarrow> 5 | CBOR_FLOAT_64 \<Rightarrow> 9)"
| "cbor_items_size [] n = n"
| "cbor_items_size (it # its) n = cbor_items_size its (cbor_safe_signaling_add n (cbor_serialized_size it))"
| "cbor_pairs_size [] n = n"
| "cbor_pairs_size ((k, v) # ps) n =
     cbor_pairs_size ps (cbor_safe_signaling_add n
       (cbor_safe_signaling_add (cbor_serialized_size k) (cbor_serialized_size v)))"
  by pat_completeness auto

termination
  by (relation "measure (case_sum size (case_sum (cbor_items_measure \<circ> fst) (cbor_pairs_measure \<circ> fst)))") auto

definition cbor_serialize_alloc :: "(nat \<Rightarrow> bool) \<Rightarrow> cbor_item \<Rightarrow> bytes option" where
  "cbor_serialize_alloc malloc it =
     (let serialized_size = cbor_serialized_size it
      in if serialized_size = 0 then None
         else if \<not> malloc serialized_size then None
         else cbor_serialize it serialized_size)"

section \<open>The streaming decoder\<close>

text \<open>
  One call of \<open>cbor_stream_decode\<close> reads the next head, and the contents of a
  definite string, and invokes one callback, here an event. The 256 cases of its
  switch are the eight major types (the upper three bits) with the additional
  information (the lower five bits).
\<close>

datatype 'a cbor_decoded = Decoded 'a bytes | CBOR_DECODER_NEDATA | CBOR_DECODER_ERROR

fun cbor_decoded_bind :: "'a cbor_decoded \<Rightarrow> ('a \<Rightarrow> bytes \<Rightarrow> 'b cbor_decoded) \<Rightarrow> 'b cbor_decoded" where
  "cbor_decoded_bind (Decoded x rest) k = k x rest"
| "cbor_decoded_bind CBOR_DECODER_NEDATA k = CBOR_DECODER_NEDATA"
| "cbor_decoded_bind CBOR_DECODER_ERROR k = CBOR_DECODER_ERROR"

datatype cbor_event =
    Ev_item cbor_item
  | Ev_byte_string bytes
  | Ev_byte_string_start
  | Ev_string bytes
  | Ev_string_start
  | Ev_array_start u64
  | Ev_indef_array_start
  | Ev_map_start u64
  | Ev_indef_map_start
  | Ev_tag u64
  | Ev_indef_break

definition claim_bytes :: "nat \<Rightarrow> bytes \<Rightarrow> bytes cbor_decoded" where
  "claim_bytes required source =
     (if required > length source then CBOR_DECODER_NEDATA
      else Decoded (take required source) (drop required source))"

definition cbor_load_uint8 :: "bytes \<Rightarrow> byte" where
  "cbor_load_uint8 source = source ! 0"

definition cbor_load_uint16 :: "bytes \<Rightarrow> u16" where
  "cbor_load_uint16 source = ntohs_bytes source"

definition cbor_load_uint32 :: "bytes \<Rightarrow> u32" where
  "cbor_load_uint32 source = ntohl_bytes source"

definition cbor_load_uint64 :: "bytes \<Rightarrow> u64" where
  "cbor_load_uint64 source = read_uint64 source"

text \<open>\<open>ldexp n e\<close> as a \<open>float\<close>, for a result that is normal and exact.\<close>

fun cbor_highest_bit :: "nat \<Rightarrow> nat" where
  "cbor_highest_bit n = (if n = 0 then 0 else Suc (cbor_highest_bit (n div 2)))"

declare cbor_highest_bit.simps [simp del]

definition float_ldexp :: "nat \<Rightarrow> int \<Rightarrow> u32" where
  "float_ldexp n e =
     (if n = 0 then 0
      else let k = cbor_highest_bit n - 1
           in push_bit 23 (word_of_int (int k + e + 127)) + push_bit (23 - k) (of_nat (n - 2 ^ k)))"

definition cbor_decode_half :: "u16 \<Rightarrow> u32" where
  "cbor_decode_half half =
     (let exp = unat (and (drop_bit 10 half) 0x1F);
          mant = unat (and half 0x3FF);
          val = (if exp = 0 then float_ldexp mant (- 24)
                 else if exp \<noteq> 31 then float_ldexp (mant + 1024) (int exp - 25)
                 else if mant = 0 then 0x7F800000 else 0x7FC00000)
      in if and half 0x8000 \<noteq> 0 then xor 0x80000000 val else val)"

text \<open>The argument of a head: embedded, or in the one, two, four or eight bytes after it.\<close>

definition cbor_argument :: "byte \<Rightarrow> bytes \<Rightarrow> (cbor_int_width \<times> u64) cbor_decoded" where
  "cbor_argument info rest =
     (if info \<le> 0x17 then Decoded (CBOR_INT_8, ucast info) rest
      else if info = 0x18 then
        cbor_decoded_bind (claim_bytes 1 rest) (\<lambda>bs. Decoded (CBOR_INT_8, ucast (cbor_load_uint8 bs)))
      else if info = 0x19 then
        cbor_decoded_bind (claim_bytes 2 rest) (\<lambda>bs. Decoded (CBOR_INT_16, ucast (cbor_load_uint16 bs)))
      else if info = 0x1A then
        cbor_decoded_bind (claim_bytes 4 rest) (\<lambda>bs. Decoded (CBOR_INT_32, ucast (cbor_load_uint32 bs)))
      else if info = 0x1B then
        cbor_decoded_bind (claim_bytes 8 rest) (\<lambda>bs. Decoded (CBOR_INT_64, cbor_load_uint64 bs))
      else CBOR_DECODER_ERROR)"

definition cbor_decode_uint :: "byte \<Rightarrow> bytes \<Rightarrow> cbor_event cbor_decoded" where
  "cbor_decode_uint mtb rest =
     cbor_decoded_bind (cbor_argument mtb rest) (\<lambda>(w, v). Decoded (Ev_item (CBOR_UINT w v)))"

definition cbor_decode_negint :: "byte \<Rightarrow> bytes \<Rightarrow> cbor_event cbor_decoded" where
  "cbor_decode_negint mtb rest =
     cbor_decoded_bind (cbor_argument (mtb - 0x20) rest) (\<lambda>(w, v). Decoded (Ev_item (CBOR_NEGINT w v)))"

definition cbor_decode_bytestring :: "byte \<Rightarrow> bytes \<Rightarrow> cbor_event cbor_decoded" where
  "cbor_decode_bytestring mtb rest =
     (if mtb = 0x5F then Decoded Ev_byte_string_start rest
      else cbor_decoded_bind (cbor_argument (mtb - 0x40) rest) (\<lambda>(w, v) rest.
             cbor_decoded_bind (claim_bytes (unat v) rest) (\<lambda>data. Decoded (Ev_byte_string data))))"

definition cbor_decode_string :: "byte \<Rightarrow> bytes \<Rightarrow> cbor_event cbor_decoded" where
  "cbor_decode_string mtb rest =
     (if mtb = 0x7F then Decoded Ev_string_start rest
      else cbor_decoded_bind (cbor_argument (mtb - 0x60) rest) (\<lambda>(w, v) rest.
             cbor_decoded_bind (claim_bytes (unat v) rest) (\<lambda>data. Decoded (Ev_string data))))"

definition cbor_decode_array :: "byte \<Rightarrow> bytes \<Rightarrow> cbor_event cbor_decoded" where
  "cbor_decode_array mtb rest =
     (if mtb = 0x9F then Decoded Ev_indef_array_start rest
      else cbor_decoded_bind (cbor_argument (mtb - 0x80) rest) (\<lambda>(w, v). Decoded (Ev_array_start v)))"

definition cbor_decode_map :: "byte \<Rightarrow> bytes \<Rightarrow> cbor_event cbor_decoded" where
  "cbor_decode_map mtb rest =
     (if mtb = 0xBF then Decoded Ev_indef_map_start rest
      else cbor_decoded_bind (cbor_argument (mtb - 0xA0) rest) (\<lambda>(w, v). Decoded (Ev_map_start v)))"

definition cbor_decode_tag :: "byte \<Rightarrow> bytes \<Rightarrow> cbor_event cbor_decoded" where
  "cbor_decode_tag mtb rest =
     cbor_decoded_bind (cbor_argument (mtb - 0xC0) rest) (\<lambda>(w, v). Decoded (Ev_tag v))"

definition cbor_decode_float_ctrl :: "byte \<Rightarrow> bytes \<Rightarrow> cbor_event cbor_decoded" where
  "cbor_decode_float_ctrl mtb rest =
     (if mtb \<le> 0xF3 then CBOR_DECODER_ERROR
      else if mtb = 0xF4 then Decoded (Ev_item (CBOR_FLOAT_CTRL CBOR_FLOAT_0 20)) rest
      else if mtb = 0xF5 then Decoded (Ev_item (CBOR_FLOAT_CTRL CBOR_FLOAT_0 21)) rest
      else if mtb = 0xF6 then Decoded (Ev_item (CBOR_FLOAT_CTRL CBOR_FLOAT_0 22)) rest
      else if mtb = 0xF7 then Decoded (Ev_item (CBOR_FLOAT_CTRL CBOR_FLOAT_0 23)) rest
      else if mtb = 0xF9 then
        cbor_decoded_bind (claim_bytes 2 rest)
          (\<lambda>bs. Decoded (Ev_item (CBOR_FLOAT_CTRL CBOR_FLOAT_16 (ucast (cbor_decode_half (cbor_load_uint16 bs))))))
      else if mtb = 0xFA then
        cbor_decoded_bind (claim_bytes 4 rest)
          (\<lambda>bs. Decoded (Ev_item (CBOR_FLOAT_CTRL CBOR_FLOAT_32 (ucast (cbor_load_uint32 bs)))))
      else if mtb = 0xFB then
        cbor_decoded_bind (claim_bytes 8 rest)
          (\<lambda>bs. Decoded (Ev_item (CBOR_FLOAT_CTRL CBOR_FLOAT_64 (cbor_load_uint64 bs))))
      else if mtb = 0xFF then Decoded Ev_indef_break rest
      else CBOR_DECODER_ERROR)"

fun cbor_stream_decode :: "bytes \<Rightarrow> cbor_event cbor_decoded" where
  "cbor_stream_decode [] = CBOR_DECODER_NEDATA"
| "cbor_stream_decode (mtb # rest) =
     (if mtb \<le> 0x1F then cbor_decode_uint mtb rest
      else if mtb \<le> 0x3F then cbor_decode_negint mtb rest
      else if mtb \<le> 0x5F then cbor_decode_bytestring mtb rest
      else if mtb \<le> 0x7F then cbor_decode_string mtb rest
      else if mtb \<le> 0x9F then cbor_decode_array mtb rest
      else if mtb \<le> 0xBF then cbor_decode_map mtb rest
      else if mtb \<le> 0xDF then cbor_decode_tag mtb rest
      else cbor_decode_float_ctrl mtb rest)"

section \<open>Building items\<close>

text \<open>
  The stack of unfinished items. An array has the number of elements it still lacks;
  a map that number of keys and values, and the key that waits for its value.
  Indefinite items count nothing.
\<close>

datatype cbor_frame =
    Frame_array bool "cbor_item list" nat
  | Frame_map bool "(cbor_item \<times> cbor_item) list" "cbor_item option" nat
  | Frame_tag u64
  | Frame_bytes "bytes list"
  | Frame_string "bytes list"

datatype cbor_context =
    Root cbor_item
  | Stack "cbor_frame list"
  | Creation_failed
  | Syntax_error

definition CBOR_MAX_STACK_SIZE :: nat where "CBOR_MAX_STACK_SIZE = 2048"

definition CBOR_BUFFER_GROWTH :: nat where "CBOR_BUFFER_GROWTH = 2"

definition cbor_safe_to_multiply :: "nat \<Rightarrow> nat \<Rightarrow> bool" where
  "cbor_safe_to_multiply a b \<longleftrightarrow>
     a \<le> 1 \<or> b \<le> 1 \<or> cbor_highest_bit a + cbor_highest_bit b \<le> 64"

definition cbor_alloc_multiple :: "(nat \<Rightarrow> bool) \<Rightarrow> nat \<Rightarrow> nat \<Rightarrow> bool" where
  "cbor_alloc_multiple malloc item_size item_count \<longleftrightarrow>
     cbor_safe_to_multiply item_size item_count \<and> malloc (item_size * item_count)"

text \<open>
  The capacity an indefinite item with \<open>n\<close> entries has: it starts at 0 and grows to 1
  and then by the growth factor when the next entry does not fit.
\<close>

fun cbor_allocated :: "nat \<Rightarrow> nat" where
  "cbor_allocated 0 = 0"
| "cbor_allocated (Suc n) =
     (let allocated = cbor_allocated n
      in if n < allocated then allocated else if allocated = 0 then 1 else CBOR_BUFFER_GROWTH * allocated)"

definition cbor_grow :: "(nat \<Rightarrow> bool) \<Rightarrow> nat \<Rightarrow> nat \<Rightarrow> bool" where
  "cbor_grow malloc item_size n \<longleftrightarrow>
     n < cbor_allocated n
     \<or> cbor_safe_to_multiply CBOR_BUFFER_GROWTH (cbor_allocated n)
       \<and> cbor_alloc_multiple malloc item_size (cbor_allocated (Suc n))"

definition sizeof_item_ptr :: nat where "sizeof_item_ptr = 8"

definition sizeof_cbor_pair :: nat where "sizeof_cbor_pair = 16"

definition cbor_stack_push :: "cbor_frame list \<Rightarrow> cbor_frame \<Rightarrow> cbor_context" where
  "cbor_stack_push st frame =
     (if length st = CBOR_MAX_STACK_SIZE then Creation_failed else Stack (frame # st))"

fun cbor_builder_append :: "(nat \<Rightarrow> bool) \<Rightarrow> cbor_item \<Rightarrow> cbor_frame list \<Rightarrow> cbor_context" where
  "cbor_builder_append malloc it [] = Root it"
| "cbor_builder_append malloc it (Frame_array True es n # st) =
     (if n = 0 then Creation_failed
      else if n = 1 then cbor_builder_append malloc (CBOR_ARRAY True (es @ [it])) st
      else Stack (Frame_array True (es @ [it]) (n - 1) # st))"
| "cbor_builder_append malloc it (Frame_array False es n # st) =
     (if cbor_grow malloc sizeof_item_ptr (length es) then Stack (Frame_array False (es @ [it]) n # st)
      else Creation_failed)"
| "cbor_builder_append malloc it (Frame_map True ps None n # st) =
     (if n = 0 then Creation_failed else Stack (Frame_map True ps (Some it) (n - 1) # st))"
| "cbor_builder_append malloc it (Frame_map True ps (Some k) n # st) =
     (if n \<le> 1 then cbor_builder_append malloc (CBOR_MAP True (ps @ [(k, it)])) st
      else Stack (Frame_map True (ps @ [(k, it)]) None (n - 1) # st))"
| "cbor_builder_append malloc it (Frame_map False ps None n # st) =
     (if cbor_grow malloc sizeof_cbor_pair (length ps) then Stack (Frame_map False ps (Some it) n # st)
      else Creation_failed)"
| "cbor_builder_append malloc it (Frame_map False ps (Some k) n # st) =
     Stack (Frame_map False (ps @ [(k, it)]) None n # st)"
| "cbor_builder_append malloc it (Frame_tag v # st) = cbor_builder_append malloc (CBOR_TAG v it) st"
| "cbor_builder_append malloc it (Frame_bytes cs # st) = Syntax_error"
| "cbor_builder_append malloc it (Frame_string cs # st) = Syntax_error"

fun cbor_builder_byte_string :: "(nat \<Rightarrow> bool) \<Rightarrow> bytes \<Rightarrow> cbor_frame list \<Rightarrow> cbor_context" where
  "cbor_builder_byte_string malloc data st =
     (if \<not> malloc (length data) then Creation_failed
      else case st of
        Frame_bytes cs # st' \<Rightarrow>
          if cbor_grow malloc sizeof_item_ptr (length cs) then Stack (Frame_bytes (cs @ [data]) # st')
          else Creation_failed
      | _ \<Rightarrow> cbor_builder_append malloc (CBOR_BYTESTRING data) st)"

fun cbor_builder_string :: "(nat \<Rightarrow> bool) \<Rightarrow> bytes \<Rightarrow> cbor_frame list \<Rightarrow> cbor_context" where
  "cbor_builder_string malloc data st =
     (if \<not> malloc (length data) then Creation_failed
      else case st of
        Frame_string cs # st' \<Rightarrow>
          if cbor_grow malloc sizeof_item_ptr (length cs) then Stack (Frame_string (cs @ [data]) # st')
          else Creation_failed
      | _ \<Rightarrow> cbor_builder_append malloc (CBOR_STRING data) st)"

definition cbor_builder_array_start :: "(nat \<Rightarrow> bool) \<Rightarrow> u64 \<Rightarrow> cbor_frame list \<Rightarrow> cbor_context" where
  "cbor_builder_array_start malloc n st =
     (if \<not> cbor_alloc_multiple malloc sizeof_item_ptr (unat n) then Creation_failed
      else if n > 0 then cbor_stack_push st (Frame_array True [] (unat n))
      else cbor_builder_append malloc (CBOR_ARRAY True []) st)"

definition cbor_builder_map_start :: "(nat \<Rightarrow> bool) \<Rightarrow> u64 \<Rightarrow> cbor_frame list \<Rightarrow> cbor_context" where
  "cbor_builder_map_start malloc n st =
     (if \<not> cbor_alloc_multiple malloc sizeof_cbor_pair (unat n) then Creation_failed
      else if n > 0 then cbor_stack_push st (Frame_map True [] None (unat (n * 2)))
      else cbor_builder_append malloc (CBOR_MAP True []) st)"

fun cbor_builder_indef_break :: "(nat \<Rightarrow> bool) \<Rightarrow> cbor_frame list \<Rightarrow> cbor_context" where
  "cbor_builder_indef_break malloc (Frame_array False es n # st) = cbor_builder_append malloc (CBOR_ARRAY False es) st"
| "cbor_builder_indef_break malloc (Frame_map False ps None n # st) = cbor_builder_append malloc (CBOR_MAP False ps) st"
| "cbor_builder_indef_break malloc (Frame_bytes cs # st) = cbor_builder_append malloc (CBOR_BYTESTRING_CHUNKS cs) st"
| "cbor_builder_indef_break malloc (Frame_string cs # st) = cbor_builder_append malloc (CBOR_STRING_CHUNKS cs) st"
| "cbor_builder_indef_break malloc _ = Syntax_error"

fun cbor_builder :: "(nat \<Rightarrow> bool) \<Rightarrow> cbor_event \<Rightarrow> cbor_frame list \<Rightarrow> cbor_context" where
  "cbor_builder malloc (Ev_item it) st = cbor_builder_append malloc it st"
| "cbor_builder malloc (Ev_byte_string data) st = cbor_builder_byte_string malloc data st"
| "cbor_builder malloc Ev_byte_string_start st = cbor_stack_push st (Frame_bytes [])"
| "cbor_builder malloc (Ev_string data) st = cbor_builder_string malloc data st"
| "cbor_builder malloc Ev_string_start st = cbor_stack_push st (Frame_string [])"
| "cbor_builder malloc (Ev_array_start n) st = cbor_builder_array_start malloc n st"
| "cbor_builder malloc Ev_indef_array_start st = cbor_stack_push st (Frame_array False [] 0)"
| "cbor_builder malloc (Ev_map_start n) st = cbor_builder_map_start malloc n st"
| "cbor_builder malloc Ev_indef_map_start st = cbor_stack_push st (Frame_map False [] None 0)"
| "cbor_builder malloc (Ev_tag v) st = cbor_stack_push st (Frame_tag v)"
| "cbor_builder malloc Ev_indef_break st = cbor_builder_indef_break malloc st"

datatype cbor_error =
    CBOR_ERR_NODATA | CBOR_ERR_NOTENOUGHDATA | CBOR_ERR_MALFORMATED | CBOR_ERR_MEMERROR | CBOR_ERR_SYNTAXERROR

lemma claim_bytes_append [simp]: "length bs = n \<Longrightarrow> claim_bytes n (bs @ rest) = Decoded bs rest"
  by (simp add: claim_bytes_def)

lemma claim_bytes_shrinks: "claim_bytes n source = Decoded bs rest \<Longrightarrow> length rest \<le> length source"
  by (auto simp: claim_bytes_def split: if_splits)

lemma cbor_decoded_bind_Decoded [simp]:
  "cbor_decoded_bind m k = Decoded y rest \<longleftrightarrow> (\<exists>x source. m = Decoded x source \<and> k x source = Decoded y rest)"
  by (cases m) auto

lemma cbor_argument_shrinks: "cbor_argument info source = Decoded x rest \<Longrightarrow> length rest \<le> length source"
  by (auto simp: cbor_argument_def dest: claim_bytes_shrinks split: if_splits)

lemmas cbor_decode_defs =
  cbor_decode_uint_def cbor_decode_negint_def cbor_decode_bytestring_def cbor_decode_string_def
  cbor_decode_array_def cbor_decode_map_def cbor_decode_tag_def cbor_decode_float_ctrl_def

lemma cbor_decode_shrinks:
  "cbor_decode_uint mtb source = Decoded ev rest \<Longrightarrow> length rest \<le> length source"
  "cbor_decode_negint mtb source = Decoded ev rest \<Longrightarrow> length rest \<le> length source"
  "cbor_decode_bytestring mtb source = Decoded ev rest \<Longrightarrow> length rest \<le> length source"
  "cbor_decode_string mtb source = Decoded ev rest \<Longrightarrow> length rest \<le> length source"
  "cbor_decode_array mtb source = Decoded ev rest \<Longrightarrow> length rest \<le> length source"
  "cbor_decode_map mtb source = Decoded ev rest \<Longrightarrow> length rest \<le> length source"
  "cbor_decode_tag mtb source = Decoded ev rest \<Longrightarrow> length rest \<le> length source"
  "cbor_decode_float_ctrl mtb source = Decoded ev rest \<Longrightarrow> length rest \<le> length source"
  by (auto simp: cbor_decode_defs split: if_splits
      dest: cbor_argument_shrinks claim_bytes_shrinks intro: order_trans)

lemma cbor_stream_decode_shrinks:
  "cbor_stream_decode source = Decoded ev rest \<Longrightarrow> length rest < length source"
  by (cases source) (auto simp: less_Suc_eq_le dest: cbor_decode_shrinks split: if_splits)

text \<open>The loop of \<open>cbor_load\<close>: every round consumes at least the byte of a head.\<close>

function cbor_load_loop :: "(nat \<Rightarrow> bool) \<Rightarrow> cbor_frame list \<Rightarrow> bytes \<Rightarrow> cbor_error + cbor_item \<times> bytes" where
  "cbor_load_loop malloc st source =
     (case cbor_stream_decode source of
        CBOR_DECODER_NEDATA \<Rightarrow> Inl CBOR_ERR_NOTENOUGHDATA
      | CBOR_DECODER_ERROR \<Rightarrow> Inl CBOR_ERR_MALFORMATED
      | Decoded ev rest \<Rightarrow>
          (case cbor_builder malloc ev st of
             Creation_failed \<Rightarrow> Inl CBOR_ERR_MEMERROR
           | Syntax_error \<Rightarrow> Inl CBOR_ERR_SYNTAXERROR
           | Root it \<Rightarrow> Inr (it, rest)
           | Stack st' \<Rightarrow> cbor_load_loop malloc st' rest))"
  by pat_completeness auto

termination
  by (relation "measure (\<lambda>(malloc, st, source). length source)") (auto dest: cbor_stream_decode_shrinks)

declare cbor_load_loop.simps [simp del]

text \<open>\<open>result.read\<close> is the number of bytes the item took.\<close>

definition cbor_load :: "(nat \<Rightarrow> bool) \<Rightarrow> bytes \<Rightarrow> cbor_error + cbor_item \<times> nat" where
  "cbor_load malloc source =
     (if source = [] then Inl CBOR_ERR_NODATA
      else case cbor_load_loop malloc [] source of
        Inl e \<Rightarrow> Inl e
      | Inr (it, rest) \<Rightarrow> Inr (it, length source - length rest))"

section \<open>Serialisation writes the format\<close>

lemma cbor_then_emit:
  assumes "k (room - length bs) = cbor_emit cs (room - length bs)"
  shows "cbor_then (cbor_emit bs room) room k = cbor_emit (bs @ cs) room"
  using assms by (auto simp: cbor_then_def cbor_emit_def)

lemma cbor_serialize_definite_emit:
  "cbor_serialize_definite offset bs room = cbor_emit (cbor_encode_uint (of_nat (length bs)) offset @ bs) room"
  unfolding cbor_serialize_definite_def by (rule cbor_then_emit) simp

lemma cbor_serialize_chunks_emit:
  "cbor_serialize_chunks offset cs room =
     cbor_emit (concat (map (\<lambda>c. cbor_encode_uint (of_nat (length c)) offset @ c) cs) @ [0xFF]) room"
  by (induction cs arbitrary: room)
    (simp_all add: cbor_serialize_definite_emit cbor_then_emit del: append_assoc add: append_assoc [symmetric])

lemma cbor_emit_Nil [simp]: "cbor_emit [] room = Some []"
  by (simp add: cbor_emit_def)

lemma cbor_serialize_emit:
  "cbor_serialize it room = cbor_emit (cbor_encoding it) room"
  "cbor_serialize_array d its room = cbor_emit (cbor_items_encoding its @ (if d then [] else [0xFF])) room"
  "cbor_serialize_map d ps room = cbor_emit (cbor_pairs_encoding ps @ (if d then [] else [0xFF])) room"
proof (induction it and its and ps arbitrary: room and d room and d room
    rule: cbor_encoding_cbor_items_encoding_cbor_pairs_encoding.induct)
qed (auto simp: cbor_serialize_int_def cbor_serialize_definite_emit cbor_serialize_chunks_emit
    cbor_serialize_float_ctrl_def cbor_then_emit split: cbor_float_width.split)

section \<open>The predicted size is exact\<close>

lemma ucast_byte_le_23: "v \<le> 0xFF \<Longrightarrow> (ucast (v::u64) :: byte) \<le> 23 \<longleftrightarrow> v \<le> 23"
  by (simp add: word_le_nat_alt unsigned_ucast_eq take_bit_nat_def)

lemma length_cbor_encode_uint: "length (cbor_encode_uint v offset) = cbor_encoded_header_size v"
proof -
  have "v \<le> 23 \<Longrightarrow> v \<le> 0xFF" "v \<le> 0xFF \<Longrightarrow> v \<le> 0xFFFF" "v \<le> 0xFFFF \<Longrightarrow> v \<le> 0xFFFFFFFF"
    by (auto elim: order_trans)
  then show ?thesis
    by (auto simp: cbor_encode_uint_def cbor_encoded_header_size_def cbor_encode_uint8_def
        cbor_encode_uint16_def cbor_encode_uint32_def cbor_encode_uint64_def ucast_byte_le_23)
qed

lemma length_cbor_encode_int: "length (cbor_encode_int w v offset) = cbor_int_size w v"
  by (cases w) (simp_all add: cbor_encode_int_def cbor_int_size_def cbor_encode_uint8_def
      cbor_encode_uint16_def cbor_encode_uint32_def cbor_encode_uint64_def)

lemma length_cbor_encode_ctrl:
  "length (cbor_encode_uint8 b offset) = cbor_encoded_header_size (ucast b)"
proof -
  have b: "unat b < 256"
    using unsigned_less [of b] by simp
  then have "(ucast b :: u64) \<le> 0xFF"
    by (simp add: word_le_nat_alt unsigned_ucast_eq take_bit_nat_def)
  moreover have "(ucast b :: u64) \<le> 23 \<longleftrightarrow> b \<le> 23"
    using b by (simp add: word_le_nat_alt unsigned_ucast_eq take_bit_nat_def)
  ultimately show ?thesis
    by (simp add: cbor_encode_uint8_def cbor_encoded_header_size_def)
qed

lemma cbor_encoded_header_size_bounds [simp]:
  "0 < cbor_encoded_header_size v" "cbor_encoded_header_size v < 2 ^ 64"
  by (simp_all add: cbor_encoded_header_size_def)

text \<open>A size that does not fit \<open>size_t\<close> is reported as 0.\<close>

definition signalled :: "nat \<Rightarrow> nat" where
  "signalled n = (if n < 2 ^ 64 then n else 0)"

lemma signalled_small: "n < 2 ^ 64 \<Longrightarrow> signalled n = n"
  by (simp add: signalled_def)

lemma signalled_header [simp]: "signalled (cbor_encoded_header_size v) = cbor_encoded_header_size v"
  by (rule signalled_small) (rule cbor_encoded_header_size_bounds)

lemma cbor_safe_signaling_add_signalled:
  "0 < a \<Longrightarrow> 0 < b \<Longrightarrow> cbor_safe_signaling_add (signalled a) (signalled b) = signalled (a + b)"
  by (auto simp: cbor_safe_signaling_add_def signalled_def)

lemma cbor_string_size_signalled:
  "cbor_string_size bs = signalled (length (cbor_encode_uint (of_nat (length bs)) offset @ bs))"
proof (cases "bs = []")
  case True
  then show ?thesis
    by (simp add: cbor_string_size_def length_cbor_encode_uint signalled_small)
next
  case False
  then have "cbor_safe_signaling_add h (length bs) = signalled (h + length bs)" if "0 < h" "h < 2 ^ 64" for h
    using that by (auto simp: cbor_safe_signaling_add_def signalled_def)
  from this [OF cbor_encoded_header_size_bounds] False show ?thesis
    by (simp add: cbor_string_size_def length_cbor_encode_uint)
qed

lemma cbor_chunks_size_signalled:
  "0 < n \<Longrightarrow> fold (\<lambda>c n. cbor_safe_signaling_add n (cbor_string_size c)) cs (signalled n) =
     signalled (n + length (concat (map (\<lambda>c. cbor_encode_uint (of_nat (length c)) offset @ c) cs)))"
proof (induction cs arbitrary: n)
  case (Cons c cs)
  have "cbor_safe_signaling_add (signalled n) (cbor_string_size c) =
      signalled (n + length (cbor_encode_uint (of_nat (length c)) offset @ c))"
    unfolding cbor_string_size_signalled [of c offset]
    by (rule cbor_safe_signaling_add_signalled) (use Cons.prems in \<open>simp_all add: length_cbor_encode_uint\<close>)
  then show ?case
    using Cons by (simp add: add.assoc)
qed simp

lemma cbor_encoding_nonempty: "cbor_encoding it \<noteq> []"
  by (cases it) (auto simp: cbor_encode_int_def cbor_encode_uint_def cbor_encode_uint8_def cbor_encode_uint16_def
      cbor_encode_uint32_def cbor_encode_uint64_def cbor_encode_half_def cbor_encode_single_def
      cbor_encode_double_def Let_def split: cbor_int_width.splits cbor_float_width.splits)

lemma length_cbor_encode_float:
  "length (cbor_encode_half h) = 3" "length (cbor_encode_single s) = 5" "length (cbor_encode_double d) = 9"
  by (simp_all add: cbor_encode_half_def cbor_encode_single_def cbor_encode_double_def
      cbor_encode_uint16_def cbor_encode_uint32_def cbor_encode_uint64_def Let_def)

lemma cbor_int_size_signalled: "cbor_int_size w v = signalled (cbor_int_size w v)"
  by (cases w) (simp_all add: cbor_int_size_def signalled_def)

lemma cbor_serialized_size_signalled:
  "cbor_serialized_size it = signalled (length (cbor_encoding it))"
  "0 < n \<Longrightarrow> cbor_items_size its (signalled n) = signalled (n + length (cbor_items_encoding its))"
  "0 < n \<Longrightarrow> cbor_pairs_size ps (signalled n) = signalled (n + length (cbor_pairs_encoding ps))"
proof (induction it and its and ps arbitrary: and n and n
    rule: cbor_encoding_cbor_items_encoding_cbor_pairs_encoding.induct)
  case (4 cs)
  then show ?case
    using cbor_chunks_size_signalled [of 2 cs "0x40"] by (simp add: signalled_small)
next
  case (6 cs)
  then show ?case
    using cbor_chunks_size_signalled [of 2 cs "0x60"] by (simp add: signalled_small)
next
  case (7 d es)
  then show ?case
    using "7.IH" [of "if d then cbor_encoded_header_size (of_nat (length es)) else 2"]
    by (simp add: length_cbor_encode_uint signalled_small)
next
  case (8 d ps)
  then show ?case
    using "8.IH" [of "if d then cbor_encoded_header_size (of_nat (length ps)) else 2"]
    by (simp add: length_cbor_encode_uint signalled_small)
next
  case (9 v it)
  have "cbor_safe_signaling_add (signalled (cbor_encoded_header_size v)) (signalled (length (cbor_encoding it))) =
      signalled (cbor_encoded_header_size v + length (cbor_encoding it))"
    by (rule cbor_safe_signaling_add_signalled) (simp_all add: cbor_encoding_nonempty)
  with 9 show ?case
    by (simp add: length_cbor_encode_uint signalled_small)
next
  case (12 it its)
  have "cbor_safe_signaling_add (signalled n) (signalled (length (cbor_encoding it))) =
      signalled (n + length (cbor_encoding it))"
    by (rule cbor_safe_signaling_add_signalled) (use "12.prems" in \<open>simp_all add: cbor_encoding_nonempty\<close>)
  with 12 show ?case
    by (simp add: add.assoc)
next
  case (14 k v ps)
  have "cbor_safe_signaling_add (signalled (length (cbor_encoding k))) (signalled (length (cbor_encoding v))) =
      signalled (length (cbor_encoding k) + length (cbor_encoding v))"
    by (rule cbor_safe_signaling_add_signalled) (simp_all add: cbor_encoding_nonempty)
  moreover have "cbor_safe_signaling_add (signalled n) (signalled (length (cbor_encoding k) + length (cbor_encoding v))) =
      signalled (n + (length (cbor_encoding k) + length (cbor_encoding v)))"
    by (rule cbor_safe_signaling_add_signalled) (use "14.prems" in \<open>simp_all add: cbor_encoding_nonempty\<close>)
  ultimately show ?case
    using 14 by (simp add: add.assoc)
qed (simp_all add: length_cbor_encode_int cbor_int_size_signalled [symmetric] cbor_string_size_signalled [symmetric]
    length_cbor_encode_ctrl length_cbor_encode_float signalled_small del: length_append
    split: cbor_float_width.split)

lemma cbor_serialize_alloc_eq:
  "cbor_serialize_alloc malloc it =
     (if length (cbor_encoding it) < 2 ^ 64 \<and> malloc (length (cbor_encoding it))
      then Some (cbor_encoding it) else None)"
  using cbor_encoding_nonempty [of it]
  by (simp add: cbor_serialize_alloc_def cbor_serialized_size_signalled cbor_serialize_emit cbor_emit_def
      signalled_def)

text \<open>
  \<open>cbor_serialize_alloc\<close> is exact: the buffer it allocates has exactly the size of
  the encoding, so the serialiser never runs out of room in it; it gives the encoding
  of the item unless that does not fit \<open>size_t\<close> or the allocation fails.
\<close>

theorem serialize_alloc_exact:
  "cbor_serialize_alloc malloc it =
     (if length (cbor_encoding it) < 2 ^ 64 \<and> malloc (length (cbor_encoding it))
      then Some (cbor_encoding it) else None)"
  by (rule cbor_serialize_alloc_eq)

section \<open>Loading what was serialised\<close>

text \<open>
  Items the loader can build again: integers fit the width they are held in, control
  values are the four that have a meaning, floating point numbers are of single or
  double width and a not-a-number is the quiet one, and every allocation whose size
  depends on the item succeeds.
\<close>

definition cbor_int_fits :: "cbor_int_width \<Rightarrow> u64 \<Rightarrow> bool" where
  "cbor_int_fits w v \<longleftrightarrow>
     (case w of CBOR_INT_8 \<Rightarrow> v \<le> 0xFF | CBOR_INT_16 \<Rightarrow> v \<le> 0xFFFF | CBOR_INT_32 \<Rightarrow> v \<le> 0xFFFFFFFF | CBOR_INT_64 \<Rightarrow> True)"

definition cbor_float_fits :: "cbor_float_width \<Rightarrow> u64 \<Rightarrow> bool" where
  "cbor_float_fits w v \<longleftrightarrow>
     (case w of
        CBOR_FLOAT_0 \<Rightarrow> v \<in> {20, 21, 22, 23}
      | CBOR_FLOAT_16 \<Rightarrow> False
      | CBOR_FLOAT_32 \<Rightarrow> v \<le> 0xFFFFFFFF \<and> (float_is_nan (ucast v) \<longrightarrow> v = 0x7FC00000)
      | CBOR_FLOAT_64 \<Rightarrow> double_is_nan v \<longrightarrow> v = 0x7FF8000000000000)"

definition cbor_string_fits :: "(nat \<Rightarrow> bool) \<Rightarrow> bytes \<Rightarrow> bool" where
  "cbor_string_fits malloc bs \<longleftrightarrow> length bs < 2 ^ 64 \<and> malloc (length bs)"

primrec cbor_grows :: "(nat \<Rightarrow> bool) \<Rightarrow> nat \<Rightarrow> nat \<Rightarrow> nat \<Rightarrow> bool" where
  "cbor_grows malloc item_size n 0 \<longleftrightarrow> True"
| "cbor_grows malloc item_size n (Suc m) \<longleftrightarrow> cbor_grow malloc item_size n \<and> cbor_grows malloc item_size (Suc n) m"

definition cbor_entries_fit :: "(nat \<Rightarrow> bool) \<Rightarrow> bool \<Rightarrow> nat \<Rightarrow> nat \<Rightarrow> bool" where
  "cbor_entries_fit malloc definite item_size n \<longleftrightarrow>
     (if definite then n < 2 ^ 64 \<and> cbor_alloc_multiple malloc item_size n
      else cbor_grows malloc item_size 0 n)"

function cbor_loadable :: "(nat \<Rightarrow> bool) \<Rightarrow> cbor_item \<Rightarrow> bool"
  and cbor_items_loadable :: "(nat \<Rightarrow> bool) \<Rightarrow> cbor_item list \<Rightarrow> bool"
  and cbor_pairs_loadable :: "(nat \<Rightarrow> bool) \<Rightarrow> (cbor_item \<times> cbor_item) list \<Rightarrow> bool" where
  "cbor_loadable malloc (CBOR_UINT w v) = cbor_int_fits w v"
| "cbor_loadable malloc (CBOR_NEGINT w v) = cbor_int_fits w v"
| "cbor_loadable malloc (CBOR_BYTESTRING bs) = cbor_string_fits malloc bs"
| "cbor_loadable malloc (CBOR_BYTESTRING_CHUNKS cs) =
     (list_all (cbor_string_fits malloc) cs \<and> cbor_entries_fit malloc False sizeof_item_ptr (length cs))"
| "cbor_loadable malloc (CBOR_STRING bs) = cbor_string_fits malloc bs"
| "cbor_loadable malloc (CBOR_STRING_CHUNKS cs) =
     (list_all (cbor_string_fits malloc) cs \<and> cbor_entries_fit malloc False sizeof_item_ptr (length cs))"
| "cbor_loadable malloc (CBOR_ARRAY definite es) =
     (cbor_entries_fit malloc definite sizeof_item_ptr (length es) \<and> cbor_items_loadable malloc es)"
| "cbor_loadable malloc (CBOR_MAP definite ps) =
     (cbor_entries_fit malloc definite sizeof_cbor_pair (length ps) \<and> cbor_pairs_loadable malloc ps)"
| "cbor_loadable malloc (CBOR_TAG v it) = cbor_loadable malloc it"
| "cbor_loadable malloc (CBOR_FLOAT_CTRL w v) = cbor_float_fits w v"
| "cbor_items_loadable malloc [] = True"
| "cbor_items_loadable malloc (it # its) = (cbor_loadable malloc it \<and> cbor_items_loadable malloc its)"
| "cbor_pairs_loadable malloc [] = True"
| "cbor_pairs_loadable malloc ((k, v) # ps) =
     (cbor_loadable malloc k \<and> cbor_loadable malloc v \<and> cbor_pairs_loadable malloc ps)"
  by pat_completeness auto

termination
  by (relation "measure (case_sum (size \<circ> snd) (case_sum (cbor_items_measure \<circ> snd) (cbor_pairs_measure \<circ> snd)))") auto

text \<open>The frames an item needs above the stack it is built on.\<close>

function cbor_depth :: "cbor_item \<Rightarrow> nat"
  and cbor_items_depth :: "cbor_item list \<Rightarrow> nat"
  and cbor_pairs_depth :: "(cbor_item \<times> cbor_item) list \<Rightarrow> nat" where
  "cbor_depth (CBOR_UINT w v) = 0"
| "cbor_depth (CBOR_NEGINT w v) = 0"
| "cbor_depth (CBOR_BYTESTRING bs) = 0"
| "cbor_depth (CBOR_BYTESTRING_CHUNKS cs) = 1"
| "cbor_depth (CBOR_STRING bs) = 0"
| "cbor_depth (CBOR_STRING_CHUNKS cs) = 1"
| "cbor_depth (CBOR_ARRAY definite es) = (if definite \<and> es = [] then 0 else Suc (cbor_items_depth es))"
| "cbor_depth (CBOR_MAP definite ps) = (if definite \<and> ps = [] then 0 else Suc (cbor_pairs_depth ps))"
| "cbor_depth (CBOR_TAG v it) = Suc (cbor_depth it)"
| "cbor_depth (CBOR_FLOAT_CTRL w v) = 0"
| "cbor_items_depth [] = 0"
| "cbor_items_depth (it # its) = max (cbor_depth it) (cbor_items_depth its)"
| "cbor_pairs_depth [] = 0"
| "cbor_pairs_depth ((k, v) # ps) = max (max (cbor_depth k) (cbor_depth v)) (cbor_pairs_depth ps)"
  by pat_completeness auto

termination
  by (relation "measure cbor_measure") auto

subsection \<open>Heads\<close>

lemma ucast_down_up:
  "v \<le> 0xFF \<Longrightarrow> ucast (ucast (v::u64) :: byte) = v"
  "v \<le> 0xFFFF \<Longrightarrow> ucast (ucast (v::u64) :: u16) = v"
  "v \<le> 0xFFFFFFFF \<Longrightarrow> ucast (ucast (v::u64) :: u32) = v"
  by (simp_all add: unat_eq_unat_iff [symmetric] word_le_nat_alt unsigned_ucast_eq unsigned_take_bit_eq take_bit_nat_def)

lemma cbor_argument_encode_uint8:
  obtains info tl where "\<And>offset. cbor_encode_uint8 b offset = (info + offset) # tl" "info \<le> 0x1B"
    "\<And>rest. cbor_argument info (tl @ rest) = Decoded (CBOR_INT_8, ucast b) rest"
proof (cases "b \<le> 23")
  case True
  then have "b \<le> 0x1B"
    by (rule order_trans) simp
  with True show ?thesis
    by (intro that [of b "[]"]) (simp_all add: cbor_encode_uint8_def cbor_argument_def)
next
  case False
  then show ?thesis
    by (intro that [of "0x18" "[b]"])
      (simp_all add: cbor_encode_uint8_def cbor_argument_def claim_bytes_def cbor_load_uint8_def)
qed

lemma cbor_argument_encode_wide:
  "cbor_argument 0x19 (htons_bytes h @ rest) = Decoded (CBOR_INT_16, ucast h) rest"
  "cbor_argument 0x1A (htonl_bytes w @ rest) = Decoded (CBOR_INT_32, ucast w) rest"
  "cbor_argument 0x1B (write_uint64 v @ rest) = Decoded (CBOR_INT_64, v) rest"
  by (simp_all add: cbor_argument_def cbor_load_uint16_def cbor_load_uint32_def cbor_load_uint64_def)

lemmas cbor_encode_wide_defs = cbor_encode_uint16_def cbor_encode_uint32_def cbor_encode_uint64_def

lemma cbor_argument_encode_int:
  assumes "cbor_int_fits w v"
  obtains info tl where "\<And>offset. cbor_encode_int w v offset = (info + offset) # tl" "info \<le> 0x1B"
    "\<And>rest. cbor_argument info (tl @ rest) = Decoded (w, v) rest"
proof (cases w)
  case CBOR_INT_8
  obtain info tl where "\<And>offset. cbor_encode_uint8 (ucast v) offset = (info + offset) # tl" "info \<le> 0x1B"
      "\<And>rest. cbor_argument info (tl @ rest) = Decoded (CBOR_INT_8, ucast (ucast v :: byte)) rest"
    using cbor_argument_encode_uint8 [of "ucast v"] by blast
  with CBOR_INT_8 assms show ?thesis
    by (intro that) (auto simp: cbor_encode_int_def cbor_int_fits_def ucast_down_up)
next
  case CBOR_INT_16
  with assms show ?thesis
    by (intro that [of "0x19" "htons_bytes (ucast v)"])
      (simp_all add: cbor_encode_int_def cbor_encode_wide_defs cbor_argument_encode_wide cbor_int_fits_def ucast_down_up)
next
  case CBOR_INT_32
  with assms show ?thesis
    by (intro that [of "0x1A" "htonl_bytes (ucast v)"])
      (simp_all add: cbor_encode_int_def cbor_encode_wide_defs cbor_argument_encode_wide cbor_int_fits_def ucast_down_up)
next
  case CBOR_INT_64
  then show ?thesis
    by (intro that [of "0x1B" "write_uint64 v"])
      (simp_all add: cbor_encode_int_def cbor_encode_wide_defs cbor_argument_encode_wide)
qed

text \<open>The shortest head is the head of an integer item of the least width that fits.\<close>

lemma cbor_encode_uint_int:
  obtains w where "cbor_int_fits w v" "\<And>offset. cbor_encode_uint v offset = cbor_encode_int w v offset"
proof (cases "v \<le> 0xFFFF")
  case True
  show ?thesis
  proof (cases "v \<le> 0xFF")
    case True
    with \<open>v \<le> 0xFFFF\<close> show ?thesis
      by (intro that [of CBOR_INT_8]) (simp_all add: cbor_int_fits_def cbor_encode_uint_def cbor_encode_int_def)
  next
    case False
    with True show ?thesis
      by (intro that [of CBOR_INT_16]) (simp_all add: cbor_int_fits_def cbor_encode_uint_def cbor_encode_int_def)
  qed
next
  case wide: False
  show ?thesis
  proof (cases "v \<le> 0xFFFFFFFF")
    case True
    with wide show ?thesis
      by (intro that [of CBOR_INT_32]) (simp_all add: cbor_int_fits_def cbor_encode_uint_def cbor_encode_int_def)
  next
    case False
    with wide show ?thesis
      by (intro that [of CBOR_INT_64]) (simp_all add: cbor_int_fits_def cbor_encode_uint_def cbor_encode_int_def)
  qed
qed

lemma cbor_stream_decode_major:
  assumes "info \<le> (0x1B::byte)"
  shows "cbor_stream_decode (info # rest) = cbor_decode_uint info rest"
    "cbor_stream_decode ((info + 0x20) # rest) = cbor_decode_negint (info + 0x20) rest"
    "cbor_stream_decode ((info + 0x40) # rest) = cbor_decode_bytestring (info + 0x40) rest \<and> info + 0x40 \<noteq> 0x5F"
    "cbor_stream_decode ((info + 0x60) # rest) = cbor_decode_string (info + 0x60) rest \<and> info + 0x60 \<noteq> 0x7F"
    "cbor_stream_decode ((info + 0x80) # rest) = cbor_decode_array (info + 0x80) rest \<and> info + 0x80 \<noteq> 0x9F"
    "cbor_stream_decode ((info + 0xA0) # rest) = cbor_decode_map (info + 0xA0) rest \<and> info + 0xA0 \<noteq> 0xBF"
    "cbor_stream_decode ((info + 0xC0) # rest) = cbor_decode_tag (info + 0xC0) rest"
proof -
  have "unat info \<le> 27"
    using assms by (simp add: word_le_nat_alt)
  then show "cbor_stream_decode (info # rest) = cbor_decode_uint info rest"
    "cbor_stream_decode ((info + 0x20) # rest) = cbor_decode_negint (info + 0x20) rest"
    "cbor_stream_decode ((info + 0x40) # rest) = cbor_decode_bytestring (info + 0x40) rest \<and> info + 0x40 \<noteq> 0x5F"
    "cbor_stream_decode ((info + 0x60) # rest) = cbor_decode_string (info + 0x60) rest \<and> info + 0x60 \<noteq> 0x7F"
    "cbor_stream_decode ((info + 0x80) # rest) = cbor_decode_array (info + 0x80) rest \<and> info + 0x80 \<noteq> 0x9F"
    "cbor_stream_decode ((info + 0xA0) # rest) = cbor_decode_map (info + 0xA0) rest \<and> info + 0xA0 \<noteq> 0xBF"
    "cbor_stream_decode ((info + 0xC0) # rest) = cbor_decode_tag (info + 0xC0) rest"
    by (simp_all add: word_le_nat_alt unat_word_ariths unat_eq_unat_iff [symmetric])
qed

lemma cbor_stream_decode_int:
  assumes "cbor_int_fits w v"
  shows "cbor_stream_decode (cbor_encode_int w v 0x00 @ rest) = Decoded (Ev_item (CBOR_UINT w v)) rest"
    "cbor_stream_decode (cbor_encode_int w v 0x20 @ rest) = Decoded (Ev_item (CBOR_NEGINT w v)) rest"
    "cbor_stream_decode (cbor_encode_int w v 0x80 @ rest) = Decoded (Ev_array_start v) rest"
    "cbor_stream_decode (cbor_encode_int w v 0xA0 @ rest) = Decoded (Ev_map_start v) rest"
    "cbor_stream_decode (cbor_encode_int w v 0xC0 @ rest) = Decoded (Ev_tag v) rest"
proof -
  obtain info tl where head: "\<And>offset. cbor_encode_int w v offset = (info + offset) # tl" "info \<le> 0x1B"
    and arg: "\<And>rest. cbor_argument info (tl @ rest) = Decoded (w, v) rest"
    using cbor_argument_encode_int [OF assms] by blast
  note simps = cbor_stream_decode_major [OF head(2)] arg cbor_decode_defs
  show "cbor_stream_decode (cbor_encode_int w v 0x00 @ rest) = Decoded (Ev_item (CBOR_UINT w v)) rest"
    "cbor_stream_decode (cbor_encode_int w v 0x20 @ rest) = Decoded (Ev_item (CBOR_NEGINT w v)) rest"
    "cbor_stream_decode (cbor_encode_int w v 0x80 @ rest) = Decoded (Ev_array_start v) rest"
    "cbor_stream_decode (cbor_encode_int w v 0xA0 @ rest) = Decoded (Ev_map_start v) rest"
    "cbor_stream_decode (cbor_encode_int w v 0xC0 @ rest) = Decoded (Ev_tag v) rest"
    unfolding head(1) append_Cons by (simp_all add: simps del: cbor_stream_decode.simps)
qed

lemma cbor_stream_decode_uint:
  "cbor_stream_decode (cbor_encode_uint v 0x80 @ rest) = Decoded (Ev_array_start v) rest"
  "cbor_stream_decode (cbor_encode_uint v 0xA0 @ rest) = Decoded (Ev_map_start v) rest"
  "cbor_stream_decode (cbor_encode_uint v 0xC0 @ rest) = Decoded (Ev_tag v) rest"
  by (rule cbor_encode_uint_int [of v], simp add: cbor_stream_decode_int)+

lemma cbor_stream_decode_definite:
  assumes "length bs < 2 ^ 64"
  shows "cbor_stream_decode (cbor_encode_uint (of_nat (length bs)) 0x40 @ bs @ rest) = Decoded (Ev_byte_string bs) rest"
    "cbor_stream_decode (cbor_encode_uint (of_nat (length bs)) 0x60 @ bs @ rest) = Decoded (Ev_string bs) rest"
proof -
  obtain w where w: "cbor_int_fits w (of_nat (length bs))"
      "\<And>offset. cbor_encode_uint (of_nat (length bs)) offset = cbor_encode_int w (of_nat (length bs)) offset"
    using cbor_encode_uint_int [of "of_nat (length bs)"] by blast
  obtain info tl where head: "\<And>offset. cbor_encode_int w (of_nat (length bs)) offset = (info + offset) # tl" "info \<le> 0x1B"
    and arg: "\<And>rest. cbor_argument info (tl @ rest) = Decoded (w, of_nat (length bs)) rest"
    using cbor_argument_encode_int [OF w(1)] by blast
  have len: "unat (of_nat (length bs) :: u64) = length bs"
    using assms by (rule unat_of_nat_u64)
  note simps = cbor_stream_decode_major [OF head(2)] arg cbor_decode_defs len
  show "cbor_stream_decode (cbor_encode_uint (of_nat (length bs)) 0x40 @ bs @ rest) = Decoded (Ev_byte_string bs) rest"
    "cbor_stream_decode (cbor_encode_uint (of_nat (length bs)) 0x60 @ bs @ rest) = Decoded (Ev_string bs) rest"
    unfolding w(2) head(1) append_Cons by (simp_all add: simps del: cbor_stream_decode.simps)
qed

lemma cbor_stream_decode_marks:
  "cbor_stream_decode (0x5F # rest) = Decoded Ev_byte_string_start rest"
  "cbor_stream_decode (0x7F # rest) = Decoded Ev_string_start rest"
  "cbor_stream_decode (0x9F # rest) = Decoded Ev_indef_array_start rest"
  "cbor_stream_decode (0xBF # rest) = Decoded Ev_indef_map_start rest"
  "cbor_stream_decode (0xFF # rest) = Decoded Ev_indef_break rest"
  by (simp_all add: cbor_decode_defs)

lemma cbor_stream_decode_float:
  assumes "cbor_float_fits w v"
  shows "cbor_stream_decode (cbor_encoding (CBOR_FLOAT_CTRL w v) @ rest) = Decoded (Ev_item (CBOR_FLOAT_CTRL w v)) rest"
proof (cases w)
  case CBOR_FLOAT_0
  with assms have "v = 20 \<or> v = 21 \<or> v = 22 \<or> v = 23"
    by (simp add: cbor_float_fits_def)
  with CBOR_FLOAT_0 show ?thesis
    by (elim disjE) (simp_all add: cbor_encode_uint8_def cbor_decode_float_ctrl_def)
next
  case CBOR_FLOAT_16
  with assms show ?thesis
    by (simp add: cbor_float_fits_def)
next
  case CBOR_FLOAT_32
  with assms have fits: "v \<le> 0xFFFFFFFF" "float_is_nan (ucast v) \<longrightarrow> v = 0x7FC00000"
    by (simp_all add: cbor_float_fits_def)
  have "ucast (if float_is_nan (ucast v) then 0x7FC00000 else ucast v :: u32) = v"
  proof (cases "float_is_nan (ucast v)")
    case True
    with fits show ?thesis
      by simp
  next
    case False
    with ucast_down_up(3) [OF fits(1)] show ?thesis
      by (simp only: if_False)
  qed
  with CBOR_FLOAT_32 show ?thesis
    by (simp add: cbor_encode_single_def cbor_encode_uint32_def cbor_decode_float_ctrl_def cbor_load_uint32_def)
next
  case CBOR_FLOAT_64
  with assms show ?thesis
    by (simp add: cbor_float_fits_def cbor_encode_double_def cbor_encode_uint64_def cbor_decode_float_ctrl_def
        cbor_load_uint64_def)
qed

declare cbor_stream_decode.simps [simp del]

subsection \<open>The loop\<close>

text \<open>How the loop goes on after a callback.\<close>

fun cbor_proceed :: "(nat \<Rightarrow> bool) \<Rightarrow> cbor_context \<Rightarrow> bytes \<Rightarrow> cbor_error + cbor_item \<times> bytes" where
  "cbor_proceed malloc Creation_failed rest = Inl CBOR_ERR_MEMERROR"
| "cbor_proceed malloc Syntax_error rest = Inl CBOR_ERR_SYNTAXERROR"
| "cbor_proceed malloc (Root it) rest = Inr (it, rest)"
| "cbor_proceed malloc (Stack st) rest = cbor_load_loop malloc st rest"

lemma cbor_load_loop_step:
  "cbor_stream_decode source = Decoded ev rest \<Longrightarrow>
     cbor_load_loop malloc st source = cbor_proceed malloc (cbor_builder malloc ev st) rest"
  by (subst cbor_load_loop.simps) (simp split: cbor_context.split)

text \<open>A stack that takes any item on top: no string is being collected from chunks.\<close>

fun cbor_open :: "cbor_frame list \<Rightarrow> bool" where
  "cbor_open (Frame_bytes _ # _) = False"
| "cbor_open (Frame_string _ # _) = False"
| "cbor_open _ = True"

lemma cbor_builder_string_open:
  assumes "cbor_open st" "cbor_string_fits malloc bs"
  shows "cbor_builder_byte_string malloc bs st = cbor_builder_append malloc (CBOR_BYTESTRING bs) st"
    "cbor_builder_string malloc bs st = cbor_builder_append malloc (CBOR_STRING bs) st"
  using assms by (auto simp: cbor_string_fits_def split: list.split cbor_frame.split)

lemma cbor_load_loop_chunks:
  assumes "list_all (cbor_string_fits malloc) cs"
    "cbor_grows malloc sizeof_item_ptr (length acc) (length cs)"
  shows "cbor_load_loop malloc (Frame_bytes acc # st)
      (concat (map (\<lambda>c. cbor_encode_uint (of_nat (length c)) 0x40 @ c) cs) @ 0xFF # rest) =
      cbor_proceed malloc (cbor_builder_append malloc (CBOR_BYTESTRING_CHUNKS (acc @ cs)) st) rest"
    "cbor_load_loop malloc (Frame_string acc # st)
      (concat (map (\<lambda>c. cbor_encode_uint (of_nat (length c)) 0x60 @ c) cs) @ 0xFF # rest) =
      cbor_proceed malloc (cbor_builder_append malloc (CBOR_STRING_CHUNKS (acc @ cs)) st) rest"
  using assms
proof (induction cs arbitrary: acc)
  case Nil
  {
    case 1
    show ?case
      by (simp add: cbor_load_loop_step [OF cbor_stream_decode_marks(5)])
  next
    case 2
    show ?case
      by (simp add: cbor_load_loop_step [OF cbor_stream_decode_marks(5)])
  }
next
  case (Cons c cs)
  {
    case 1
    with Cons.IH(1) [of "acc @ [c]"] show ?case
      by (simp add: cbor_load_loop_step [OF cbor_stream_decode_definite(1)] cbor_string_fits_def)
  next
    case 2
    with Cons.IH(2) [of "acc @ [c]"] show ?case
      by (simp add: cbor_load_loop_step [OF cbor_stream_decode_definite(2)] cbor_string_fits_def)
  }
qed

lemma less_cbor_highest_bit: "n < 2 ^ cbor_highest_bit n"
proof (induction n rule: cbor_highest_bit.induct)
  case (1 n)
  show ?case
  proof (cases "n = 0")
    case False
    with 1 have "n div 2 < 2 ^ cbor_highest_bit (n div 2)"
      by simp
    with False show ?thesis
      by (subst cbor_highest_bit.simps) simp
  qed (simp add: cbor_highest_bit.simps)
qed

text \<open>A map that can be allocated has so few entries that twice their number does not wrap around.\<close>

lemma cbor_map_subitems:
  assumes "cbor_entries_fit malloc True sizeof_cbor_pair n"
  shows "unat (of_nat n * 2 :: u64) = 2 * n"
proof (cases "n \<le> 1")
  case True
  then consider "n = 0" | "n = 1"
    by linarith
  then show ?thesis
    by cases simp_all
next
  case False
  have "cbor_highest_bit 16 = 5"
    by (simp add: cbor_highest_bit.simps)
  with assms False have "cbor_highest_bit n \<le> 59"
    by (simp add: cbor_entries_fit_def cbor_alloc_multiple_def cbor_safe_to_multiply_def sizeof_cbor_pair_def)
  then have "(2::nat) ^ cbor_highest_bit n \<le> 2 ^ 59"
    by (rule power_increasing) simp
  with less_cbor_highest_bit [of n] have "n < 2 ^ 59"
    by (rule less_le_trans)
  then show ?thesis
    by (simp add: unat_word_ariths unat_of_nat_u64)
qed

lemma cbor_builder_start:
  assumes "length st < CBOR_MAX_STACK_SIZE" "0 < n"
  shows "cbor_entries_fit malloc True sizeof_item_ptr n \<Longrightarrow>
      cbor_builder_array_start malloc (of_nat n) st = Stack (Frame_array True [] n # st)"
    "cbor_entries_fit malloc True sizeof_cbor_pair n \<Longrightarrow>
      cbor_builder_map_start malloc (of_nat n) st = Stack (Frame_map True [] None (2 * n) # st)"
proof -
  have pos: "0 < (of_nat n :: u64)" and len: "unat (of_nat n :: u64) = n" if "n < 2 ^ 64"
    using unat_of_nat_u64 [OF that] assms(2) by (auto simp: word_less_nat_alt)
  show "cbor_entries_fit malloc True sizeof_item_ptr n \<Longrightarrow>
      cbor_builder_array_start malloc (of_nat n) st = Stack (Frame_array True [] n # st)"
    using pos len assms by (simp add: cbor_builder_array_start_def cbor_entries_fit_def cbor_stack_push_def)
  assume fit: "cbor_entries_fit malloc True sizeof_cbor_pair n"
  with pos len assms cbor_map_subitems [OF fit]
  show "cbor_builder_map_start malloc (of_nat n) st = Stack (Frame_map True [] None (2 * n) # st)"
    by (simp add: cbor_builder_map_start_def cbor_entries_fit_def cbor_stack_push_def)
qed

lemma cbor_builder_start_empty:
  "cbor_entries_fit malloc True sizeof_item_ptr 0 \<Longrightarrow>
     cbor_builder_array_start malloc 0 st = cbor_builder_append malloc (CBOR_ARRAY True []) st"
  "cbor_entries_fit malloc True sizeof_cbor_pair 0 \<Longrightarrow>
     cbor_builder_map_start malloc 0 st = cbor_builder_append malloc (CBOR_MAP True []) st"
  by (simp_all add: cbor_builder_array_start_def cbor_builder_map_start_def cbor_entries_fit_def)

text \<open>
  Loading the encoding of an item has the effect of appending the item to the stack;
  loading the encodings of the entries of an array or map that is open finishes it.
\<close>

definition loads_item :: "(nat \<Rightarrow> bool) \<Rightarrow> cbor_item \<Rightarrow> bool" where
  "loads_item malloc it \<longleftrightarrow>
     (\<forall>st rest. cbor_loadable malloc it \<and> cbor_open st \<and> length st + cbor_depth it \<le> CBOR_MAX_STACK_SIZE \<longrightarrow>
        cbor_load_loop malloc st (cbor_encoding it @ rest) =
        cbor_proceed malloc (cbor_builder_append malloc it st) rest)"

definition loads_items :: "(nat \<Rightarrow> bool) \<Rightarrow> cbor_item list \<Rightarrow> bool" where
  "loads_items malloc its \<longleftrightarrow>
     (\<forall>acc st rest. cbor_items_loadable malloc its \<and> length st + cbor_items_depth its < CBOR_MAX_STACK_SIZE \<longrightarrow>
        (its \<noteq> [] \<longrightarrow>
           cbor_load_loop malloc (Frame_array True acc (length its) # st) (cbor_items_encoding its @ rest) =
           cbor_proceed malloc (cbor_builder_append malloc (CBOR_ARRAY True (acc @ its)) st) rest) \<and>
        (cbor_grows malloc sizeof_item_ptr (length acc) (length its) \<longrightarrow>
           cbor_load_loop malloc (Frame_array False acc 0 # st) (cbor_items_encoding its @ 0xFF # rest) =
           cbor_proceed malloc (cbor_builder_append malloc (CBOR_ARRAY False (acc @ its)) st) rest))"

definition loads_pairs :: "(nat \<Rightarrow> bool) \<Rightarrow> (cbor_item \<times> cbor_item) list \<Rightarrow> bool" where
  "loads_pairs malloc ps \<longleftrightarrow>
     (\<forall>acc st rest. cbor_pairs_loadable malloc ps \<and> length st + cbor_pairs_depth ps < CBOR_MAX_STACK_SIZE \<longrightarrow>
        (ps \<noteq> [] \<longrightarrow>
           cbor_load_loop malloc (Frame_map True acc None (2 * length ps) # st) (cbor_pairs_encoding ps @ rest) =
           cbor_proceed malloc (cbor_builder_append malloc (CBOR_MAP True (acc @ ps)) st) rest) \<and>
        (cbor_grows malloc sizeof_cbor_pair (length acc) (length ps) \<longrightarrow>
           cbor_load_loop malloc (Frame_map False acc None 0 # st) (cbor_pairs_encoding ps @ 0xFF # rest) =
           cbor_proceed malloc (cbor_builder_append malloc (CBOR_MAP False (acc @ ps)) st) rest))"

lemma loads_itemD:
  "loads_item malloc it \<Longrightarrow> cbor_loadable malloc it \<Longrightarrow> cbor_open st \<Longrightarrow>
     length st + cbor_depth it \<le> CBOR_MAX_STACK_SIZE \<Longrightarrow>
     cbor_load_loop malloc st (cbor_encoding it @ rest) = cbor_proceed malloc (cbor_builder_append malloc it st) rest"
  by (simp add: loads_item_def)

lemma loads_itemsD:
  assumes "loads_items malloc its" "cbor_items_loadable malloc its" "length st + cbor_items_depth its < CBOR_MAX_STACK_SIZE"
  shows "its \<noteq> [] \<Longrightarrow>
      cbor_load_loop malloc (Frame_array True acc (length its) # st) (cbor_items_encoding its @ rest) =
      cbor_proceed malloc (cbor_builder_append malloc (CBOR_ARRAY True (acc @ its)) st) rest"
    "cbor_grows malloc sizeof_item_ptr (length acc) (length its) \<Longrightarrow>
      cbor_load_loop malloc (Frame_array False acc 0 # st) (cbor_items_encoding its @ 0xFF # rest) =
      cbor_proceed malloc (cbor_builder_append malloc (CBOR_ARRAY False (acc @ its)) st) rest"
  using assms by (simp_all add: loads_items_def)

lemma loads_pairsD:
  assumes "loads_pairs malloc ps" "cbor_pairs_loadable malloc ps" "length st + cbor_pairs_depth ps < CBOR_MAX_STACK_SIZE"
  shows "ps \<noteq> [] \<Longrightarrow>
      cbor_load_loop malloc (Frame_map True acc None (2 * length ps) # st) (cbor_pairs_encoding ps @ rest) =
      cbor_proceed malloc (cbor_builder_append malloc (CBOR_MAP True (acc @ ps)) st) rest"
    "cbor_grows malloc sizeof_cbor_pair (length acc) (length ps) \<Longrightarrow>
      cbor_load_loop malloc (Frame_map False acc None 0 # st) (cbor_pairs_encoding ps @ 0xFF # rest) =
      cbor_proceed malloc (cbor_builder_append malloc (CBOR_MAP False (acc @ ps)) st) rest"
  using assms by (simp_all add: loads_pairs_def)

lemma loads_items_Nil: "loads_items malloc []"
  by (simp add: loads_items_def cbor_load_loop_step [OF cbor_stream_decode_marks(5)])

lemma loads_pairs_Nil: "loads_pairs malloc []"
  by (simp add: loads_pairs_def cbor_load_loop_step [OF cbor_stream_decode_marks(5)])

lemma loads_items_Cons:
  assumes it: "loads_item malloc it" and its: "loads_items malloc its"
  shows "loads_items malloc (it # its)"
  unfolding loads_items_def
proof (intro allI impI conjI)
  fix acc and st :: "cbor_frame list" and rest
  assume *: "cbor_items_loadable malloc (it # its) \<and> length st + cbor_items_depth (it # its) < CBOR_MAX_STACK_SIZE"
  then have step: "cbor_load_loop malloc (fr # st) (cbor_encoding it @ rest') =
      cbor_proceed malloc (cbor_builder_append malloc it (fr # st)) rest'" if "cbor_open (fr # st)" for fr rest'
    using that by (intro loads_itemD [OF it]) auto
  from * have room: "length st + cbor_items_depth its < CBOR_MAX_STACK_SIZE"
    by auto
  show "cbor_load_loop malloc (Frame_array True acc (length (it # its)) # st) (cbor_items_encoding (it # its) @ rest) =
      cbor_proceed malloc (cbor_builder_append malloc (CBOR_ARRAY True (acc @ it # its)) st) rest"
  proof (cases "its = []")
    case True
    then show ?thesis
      by (simp add: step)
  next
    case False
    with loads_itemsD(1) [OF its, of st "acc @ [it]" rest] * room show ?thesis
      by (simp add: step)
  qed
  show "cbor_load_loop malloc (Frame_array False acc 0 # st) (cbor_items_encoding (it # its) @ 0xFF # rest) =
      cbor_proceed malloc (cbor_builder_append malloc (CBOR_ARRAY False (acc @ it # its)) st) rest"
    if "cbor_grows malloc sizeof_item_ptr (length acc) (length (it # its))"
    using loads_itemsD(2) [OF its, of st "acc @ [it]" rest] * room that by (simp add: step)
qed

lemma loads_pairs_Cons:
  assumes k: "loads_item malloc k" and v: "loads_item malloc v" and ps: "loads_pairs malloc ps"
  shows "loads_pairs malloc ((k, v) # ps)"
  unfolding loads_pairs_def
proof (intro allI impI conjI)
  fix acc and st :: "cbor_frame list" and rest
  assume *: "cbor_pairs_loadable malloc ((k, v) # ps) \<and> length st + cbor_pairs_depth ((k, v) # ps) < CBOR_MAX_STACK_SIZE"
  then have step: "cbor_load_loop malloc (fr # st) (cbor_encoding it @ rest') =
      cbor_proceed malloc (cbor_builder_append malloc it (fr # st)) rest'"
    if "it = k \<or> it = v" "cbor_open (fr # st)" for fr rest' it
    using that k v by (intro loads_itemD) auto
  from * have room: "length st + cbor_pairs_depth ps < CBOR_MAX_STACK_SIZE"
    by auto
  show "cbor_load_loop malloc (Frame_map True acc None (2 * length ((k, v) # ps)) # st)
        (cbor_pairs_encoding ((k, v) # ps) @ rest) =
      cbor_proceed malloc (cbor_builder_append malloc (CBOR_MAP True (acc @ (k, v) # ps)) st) rest"
  proof (cases "ps = []")
    case True
    then show ?thesis
      by (simp add: step)
  next
    case False
    with loads_pairsD(1) [OF ps, of st "acc @ [(k, v)]" rest] * room show ?thesis
      by (simp add: step)
  qed
  show "cbor_load_loop malloc (Frame_map False acc None 0 # st) (cbor_pairs_encoding ((k, v) # ps) @ 0xFF # rest) =
      cbor_proceed malloc (cbor_builder_append malloc (CBOR_MAP False (acc @ (k, v) # ps)) st) rest"
    if "cbor_grows malloc sizeof_cbor_pair (length acc) (length ((k, v) # ps))"
    using loads_pairsD(2) [OF ps, of st "acc @ [(k, v)]" rest] * room that by (simp add: step)
qed

lemma loads_array:
  assumes "loads_items malloc es"
  shows "loads_item malloc (CBOR_ARRAY d es)"
  unfolding loads_item_def
proof (intro allI impI)
  fix st rest
  assume *: "cbor_loadable malloc (CBOR_ARRAY d es) \<and> cbor_open st
    \<and> length st + cbor_depth (CBOR_ARRAY d es) \<le> CBOR_MAX_STACK_SIZE"
  show "cbor_load_loop malloc st (cbor_encoding (CBOR_ARRAY d es) @ rest) =
      cbor_proceed malloc (cbor_builder_append malloc (CBOR_ARRAY d es) st) rest"
  proof (cases "d \<and> es = []")
    case True
    with * show ?thesis
      by (simp add: cbor_load_loop_step [OF cbor_stream_decode_uint(1)] cbor_builder_start_empty)
  next
    case False
    with * assms show ?thesis
      by (cases d) (auto simp: cbor_load_loop_step [OF cbor_stream_decode_uint(1)]
          cbor_load_loop_step [OF cbor_stream_decode_marks(3)] cbor_builder_start cbor_stack_push_def
          loads_items_def cbor_entries_fit_def [of _ False])
  qed
qed

lemma loads_map:
  assumes "loads_pairs malloc ps"
  shows "loads_item malloc (CBOR_MAP d ps)"
  unfolding loads_item_def
proof (intro allI impI)
  fix st rest
  assume *: "cbor_loadable malloc (CBOR_MAP d ps) \<and> cbor_open st
    \<and> length st + cbor_depth (CBOR_MAP d ps) \<le> CBOR_MAX_STACK_SIZE"
  show "cbor_load_loop malloc st (cbor_encoding (CBOR_MAP d ps) @ rest) =
      cbor_proceed malloc (cbor_builder_append malloc (CBOR_MAP d ps) st) rest"
  proof (cases "d \<and> ps = []")
    case True
    with * show ?thesis
      by (simp add: cbor_load_loop_step [OF cbor_stream_decode_uint(2)] cbor_builder_start_empty)
  next
    case False
    with * assms show ?thesis
      by (cases d) (auto simp: cbor_load_loop_step [OF cbor_stream_decode_uint(2)]
          cbor_load_loop_step [OF cbor_stream_decode_marks(4)] cbor_builder_start cbor_stack_push_def
          loads_pairs_def cbor_entries_fit_def [of _ False])
  qed
qed

lemma loads_tag:
  assumes "loads_item malloc it"
  shows "loads_item malloc (CBOR_TAG v it)"
  using assms by (auto simp: loads_item_def cbor_load_loop_step [OF cbor_stream_decode_uint(3)] cbor_stack_push_def)

lemma loads_leaf:
  "loads_item malloc (CBOR_UINT w v)" "loads_item malloc (CBOR_NEGINT w v)"
  "loads_item malloc (CBOR_FLOAT_CTRL fw v)" "loads_item malloc (CBOR_BYTESTRING bs)" "loads_item malloc (CBOR_STRING bs)"
  using cbor_builder_string_open
  by (simp_all add: loads_item_def cbor_load_loop_step [OF cbor_stream_decode_int(1)]
      cbor_load_loop_step [OF cbor_stream_decode_int(2)] cbor_load_loop_step [OF cbor_stream_decode_float]
      cbor_load_loop_step [OF cbor_stream_decode_definite(1)] cbor_load_loop_step [OF cbor_stream_decode_definite(2)]
      cbor_string_fits_def del: cbor_builder_byte_string.simps cbor_builder_string.simps cbor_encoding.simps(10))

lemma loads_chunks: "loads_item malloc (CBOR_BYTESTRING_CHUNKS cs)" "loads_item malloc (CBOR_STRING_CHUNKS cs)"
  using cbor_load_loop_chunks [of malloc cs "[]"]
  by (simp_all add: loads_item_def cbor_load_loop_step [OF cbor_stream_decode_marks(1)]
      cbor_load_loop_step [OF cbor_stream_decode_marks(2)] cbor_stack_push_def cbor_entries_fit_def)

lemma cbor_loads:
  "loads_item malloc it" "loads_items malloc its" "loads_pairs malloc ps"
  by (induction it and its and ps rule: cbor_encoding_cbor_items_encoding_cbor_pairs_encoding.induct)
    (blast intro: loads_leaf loads_chunks loads_array loads_map loads_tag
      loads_items_Nil loads_items_Cons loads_pairs_Nil loads_pairs_Cons)+

lemma cbor_load_encoding:
  assumes "cbor_loadable malloc it" "cbor_depth it \<le> CBOR_MAX_STACK_SIZE"
  shows "cbor_load malloc (cbor_encoding it @ rest) = Inr (it, length (cbor_encoding it))"
proof -
  have "cbor_load_loop malloc [] (cbor_encoding it @ rest) = Inr (it, rest)"
    using loads_itemD [OF cbor_loads(1) assms(1), of "[]" rest] assms(2) by simp
  then show ?thesis
    using cbor_encoding_nonempty [of it] by (simp add: cbor_load_def)
qed

text \<open>
  C16. Loading what was serialised gives the item back: for every item the loader can
  represent, nested at most as deep as its stack, \<open>cbor_load\<close> on the bytes that
  \<open>cbor_serialize_alloc\<close> produced, followed by anything, returns the item and the
  number of bytes it took.
\<close>

theorem cbor_load_serialize:
  assumes "cbor_loadable malloc it" "cbor_depth it \<le> CBOR_MAX_STACK_SIZE"
    and "cbor_serialize_alloc malloc it = Some bs"
  shows "cbor_load malloc (bs @ rest) = Inr (it, length bs)"
  using assms by (auto simp: cbor_serialize_alloc_eq cbor_load_encoding split: if_splits)

theorem cbor_load_serialize_witness:
  "cbor_load (\<lambda>_. True)
     ([0x82, 0x18, 0x64, 0x9F, 0x41, 0x07, 0xFF] @ [0x00]) =
     Inr (CBOR_ARRAY True [CBOR_UINT CBOR_INT_8 100, CBOR_ARRAY False [CBOR_BYTESTRING [7]]], 7)"
  using cbor_load_serialize [of "\<lambda>_. True"
      "CBOR_ARRAY True [CBOR_UINT CBOR_INT_8 100, CBOR_ARRAY False [CBOR_BYTESTRING [7]]]"
      "[0x82, 0x18, 0x64, 0x9F, 0x41, 0x07, 0xFF]" "[0x00]"]
  by (simp add: cbor_serialize_alloc_def cbor_serialized_size_signalled cbor_serialize_emit cbor_emit_def
      signalled_def cbor_encode_int_def cbor_encode_uint_def cbor_encode_uint8_def cbor_entries_fit_def
      cbor_alloc_multiple_def cbor_safe_to_multiply_def cbor_highest_bit.simps cbor_grow_def CBOR_BUFFER_GROWTH_def
      sizeof_item_ptr_def cbor_int_fits_def cbor_string_fits_def CBOR_MAX_STACK_SIZE_def)

section \<open>What can be loaded\<close>

text \<open>
  The type invariant of items: a number fits the width it is held in, a control value
  is one of the four assigned ones.
\<close>

definition cbor_ctrl_typed :: "cbor_float_width \<Rightarrow> u64 \<Rightarrow> bool" where
  "cbor_ctrl_typed w v \<longleftrightarrow>
     (case w of
        CBOR_FLOAT_0 \<Rightarrow> v \<in> {20, 21, 22, 23}
      | CBOR_FLOAT_16 \<Rightarrow> v \<le> 0xFFFFFFFF
      | CBOR_FLOAT_32 \<Rightarrow> v \<le> 0xFFFFFFFF
      | CBOR_FLOAT_64 \<Rightarrow> True)"

function cbor_typed :: "cbor_item \<Rightarrow> bool"
  and cbor_items_typed :: "cbor_item list \<Rightarrow> bool"
  and cbor_pairs_typed :: "(cbor_item \<times> cbor_item) list \<Rightarrow> bool" where
  "cbor_typed (CBOR_UINT w v) = cbor_int_fits w v"
| "cbor_typed (CBOR_NEGINT w v) = cbor_int_fits w v"
| "cbor_typed (CBOR_BYTESTRING bs) = True"
| "cbor_typed (CBOR_BYTESTRING_CHUNKS cs) = True"
| "cbor_typed (CBOR_STRING bs) = True"
| "cbor_typed (CBOR_STRING_CHUNKS cs) = True"
| "cbor_typed (CBOR_ARRAY definite es) = cbor_items_typed es"
| "cbor_typed (CBOR_MAP definite ps) = cbor_pairs_typed ps"
| "cbor_typed (CBOR_TAG v it) = cbor_typed it"
| "cbor_typed (CBOR_FLOAT_CTRL w v) = cbor_ctrl_typed w v"
| "cbor_items_typed [] = True"
| "cbor_items_typed (it # its) = (cbor_typed it \<and> cbor_items_typed its)"
| "cbor_pairs_typed [] = True"
| "cbor_pairs_typed ((k, v) # ps) = (cbor_typed k \<and> cbor_typed v \<and> cbor_pairs_typed ps)"
  by pat_completeness auto

termination
  by (relation "measure cbor_measure") auto

lemma cbor_items_append [simp]:
  "cbor_items_typed (xs @ ys) \<longleftrightarrow> cbor_items_typed xs \<and> cbor_items_typed ys"
  "cbor_items_depth (xs @ ys) = max (cbor_items_depth xs) (cbor_items_depth ys)"
  by (induction xs) auto

lemma cbor_pairs_append [simp]:
  "cbor_pairs_typed (ps @ qs) \<longleftrightarrow> cbor_pairs_typed ps \<and> cbor_pairs_typed qs"
  "cbor_pairs_depth (ps @ qs) = max (cbor_pairs_depth ps) (cbor_pairs_depth qs)"
  by (induction ps) auto

text \<open>The frames of the stack leave to their contents the depth that is left above them.\<close>

definition cbor_within :: "nat \<Rightarrow> cbor_item \<Rightarrow> bool" where
  "cbor_within d it \<longleftrightarrow> cbor_typed it \<and> cbor_depth it \<le> d"

fun cbor_frame_within :: "nat \<Rightarrow> cbor_frame \<Rightarrow> bool" where
  "cbor_frame_within d (Frame_array _ es _) \<longleftrightarrow> cbor_items_typed es \<and> cbor_items_depth es \<le> d"
| "cbor_frame_within d (Frame_map _ ps key _) \<longleftrightarrow>
     cbor_pairs_typed ps \<and> cbor_pairs_depth ps \<le> d \<and> (case key of None \<Rightarrow> True | Some k \<Rightarrow> cbor_within d k)"
| "cbor_frame_within d _ \<longleftrightarrow> True"

fun cbor_stack_within :: "cbor_frame list \<Rightarrow> bool" where
  "cbor_stack_within [] \<longleftrightarrow> True"
| "cbor_stack_within (fr # st) \<longleftrightarrow>
     length st < CBOR_MAX_STACK_SIZE
     \<and> cbor_frame_within (CBOR_MAX_STACK_SIZE - Suc (length st)) fr \<and> cbor_stack_within st"

fun cbor_context_within :: "cbor_context \<Rightarrow> bool" where
  "cbor_context_within (Root it) \<longleftrightarrow> cbor_within CBOR_MAX_STACK_SIZE it"
| "cbor_context_within (Stack st) \<longleftrightarrow> cbor_stack_within st"
| "cbor_context_within _ \<longleftrightarrow> True"

lemma cbor_builder_append_within:
  "cbor_stack_within st \<Longrightarrow> cbor_within (CBOR_MAX_STACK_SIZE - length st) it \<Longrightarrow>
     cbor_context_within (cbor_builder_append malloc it st)"
  by (induction malloc it st rule: cbor_builder_append.induct) (auto simp: cbor_within_def)

lemma cbor_stack_within_length: "cbor_stack_within st \<Longrightarrow> length st \<le> CBOR_MAX_STACK_SIZE"
  by (cases st) auto

lemma cbor_stack_push_within:
  assumes "cbor_stack_within st" "cbor_frame_within 0 fr" 
    "\<And>d. cbor_frame_within 0 fr \<Longrightarrow> cbor_frame_within d fr"
  shows "cbor_context_within (cbor_stack_push st fr)"
  using assms cbor_stack_within_length [OF assms(1)] by (simp add: cbor_stack_push_def)

lemma cbor_builder_indef_break_within:
  "cbor_stack_within st \<Longrightarrow> cbor_context_within (cbor_builder_indef_break malloc st)"
  by (induction malloc st rule: cbor_builder_indef_break.induct)
    (auto intro!: cbor_builder_append_within simp: cbor_within_def)

lemma cbor_builder_string_within:
  assumes "cbor_stack_within st"
  shows "cbor_context_within (cbor_builder_byte_string malloc bs st)"
    "cbor_context_within (cbor_builder_string malloc bs st)"
  using assms by (auto intro!: cbor_builder_append_within simp: cbor_within_def split: list.split cbor_frame.split)

fun cbor_event_typed :: "cbor_event \<Rightarrow> bool" where
  "cbor_event_typed (Ev_item it) \<longleftrightarrow> cbor_typed it \<and> cbor_depth it = 0"
| "cbor_event_typed _ \<longleftrightarrow> True"

lemma cbor_builder_within:
  assumes "cbor_stack_within st" "cbor_event_typed ev"
  shows "cbor_context_within (cbor_builder malloc ev st)"
  using assms
  by (cases ev)
    (auto intro!: cbor_builder_append_within cbor_stack_push_within
      cbor_builder_indef_break_within cbor_builder_string_within
      simp: cbor_within_def cbor_builder_array_start_def cbor_builder_map_start_def
      simp del: cbor_builder_byte_string.simps cbor_builder_string.simps)

lemma ucast_up_bound:
  "(ucast (b::byte) :: u64) \<le> 0xFF" "(ucast (h::u16) :: u64) \<le> 0xFFFF" "(ucast (q::u32) :: u64) \<le> 0xFFFFFFFF"
proof -
  have "unat b < 256" "unat h < 65536" "unat q < 4294967296"
    using unsigned_less [of b] unsigned_less [of h] unsigned_less [of q] by simp_all
  then show "(ucast b :: u64) \<le> 0xFF" "(ucast h :: u64) \<le> 0xFFFF" "(ucast q :: u64) \<le> 0xFFFFFFFF"
    by (simp_all add: word_le_nat_alt unsigned_ucast_eq take_bit_nat_def)
qed

lemma cbor_argument_typed: "cbor_argument info source = Decoded (w, v) rest \<Longrightarrow> cbor_int_fits w v"
  by (auto simp: cbor_argument_def cbor_int_fits_def ucast_up_bound split: if_splits)

lemma cbor_stream_decode_typed:
  "cbor_stream_decode source = Decoded ev rest \<Longrightarrow> cbor_event_typed ev"
proof (cases source)
  case (Cons mtb tl)
  assume dec: "cbor_stream_decode source = Decoded ev rest"
  then consider "cbor_decode_uint mtb tl = Decoded ev rest" | "cbor_decode_negint mtb tl = Decoded ev rest"
    | "cbor_decode_bytestring mtb tl = Decoded ev rest" | "cbor_decode_string mtb tl = Decoded ev rest"
    | "cbor_decode_array mtb tl = Decoded ev rest" | "cbor_decode_map mtb tl = Decoded ev rest"
    | "cbor_decode_tag mtb tl = Decoded ev rest" | "cbor_decode_float_ctrl mtb tl = Decoded ev rest"
    using Cons by (auto simp: cbor_stream_decode.simps split: if_splits)
  then show ?thesis
    by cases (auto simp: cbor_decode_defs cbor_ctrl_typed_def ucast_up_bound dest: cbor_argument_typed split: if_splits)
qed (simp add: cbor_stream_decode.simps)

lemma cbor_load_loop_within:
  "cbor_stack_within st \<Longrightarrow> cbor_load_loop malloc st source = Inr (it, rest) \<Longrightarrow>
     cbor_within CBOR_MAX_STACK_SIZE it \<and> length rest < length source"
proof (induction malloc st source rule: cbor_load_loop.induct)
  case (1 malloc st source)
  then obtain ev tl where dec: "cbor_stream_decode source = Decoded ev tl"
    by (subst (asm) (2) cbor_load_loop.simps) (auto split: cbor_decoded.splits)
  have run: "cbor_proceed malloc (cbor_builder malloc ev st) tl = Inr (it, rest)"
    using "1.prems"(2) by (simp add: cbor_load_loop_step [OF dec])
  have ok: "cbor_context_within (cbor_builder malloc ev st)"
    using "1.prems"(1) cbor_stream_decode_typed [OF dec] by (rule cbor_builder_within)
  show ?case
  proof (cases "cbor_builder malloc ev st")
    case (Stack st')
    with "1.IH" [OF dec Stack] run ok cbor_stream_decode_shrinks [OF dec] show ?thesis
      by simp
  qed (use run ok cbor_stream_decode_shrinks [OF dec] in auto)
qed

text \<open>
  C26. Whatever bytes arrive, an item that \<open>cbor_load\<close> accepts is well typed: every
  number fits the width it claims, control values are assigned ones, and the nesting
  stays within the loader's stack; the read position lies inside the source and past
  its beginning.
\<close>

theorem cbor_load_typed:
  assumes "cbor_load malloc source = Inr (it, n)"
  shows "cbor_typed it \<and> cbor_depth it \<le> CBOR_MAX_STACK_SIZE \<and> 0 < n \<and> n \<le> length source"
proof -
  obtain rest where "cbor_load_loop malloc [] source = Inr (it, rest)" "n = length source - length rest"
    using assms by (auto simp: cbor_load_def split: if_splits sum.splits)
  with cbor_load_loop_within [of "[]" malloc source it rest] show ?thesis
    by (auto simp: cbor_within_def)
qed

theorem cbor_load_typed_witness:
  "cbor_typed (CBOR_UINT CBOR_INT_8 100) \<and> cbor_depth (CBOR_UINT CBOR_INT_8 100) \<le> CBOR_MAX_STACK_SIZE
   \<and> 0 < (2::nat) \<and> 2 \<le> length [0x18, 0x64, 0x00 :: byte]"
  by (rule cbor_load_typed [of "\<lambda>_. True"])
    (simp add: cbor_load_def cbor_load_loop.simps cbor_stream_decode.simps cbor_decode_uint_def cbor_argument_def
      claim_bytes_def cbor_load_uint8_def)

end
