(* ===== verification/Channel.thy ===== *)
theory Channel
  imports KeyPair Quasar Topic LibCbor
begin

text \<open>
  Channels (\<open>src/Channel/channel.c\<close>): a key pair and the identity derived from it, a
  Quasar overlay, the subtopic subscriptions and the topic aliases. The Meridian
  protocol object of a channel is the view that its overlay holds; calls to it, like
  invocations of the application's callback, are effects. The callback
  \<open>channel_quasar_message_handler\<close> that the overlay invokes is \<open>channel_deliver\<close>, once
  the intercept callback (which only the dial channel has, see \<open>ChannelManager\<close>) has
  declined the packet.
\<close>

definition POSEIDON_CHANNEL_MAX_NAME :: nat where "POSEIDON_CHANNEL_MAX_NAME = 64"

datatype poseidon_channel_state =
    POSEIDON_CHANNEL_STATE_INIT
  | POSEIDON_CHANNEL_STATE_BOOTSTRAPPING
  | POSEIDON_CHANNEL_STATE_RUNNING
  | POSEIDON_CHANNEL_STATE_SHUTTING_DOWN
  | POSEIDON_CHANNEL_STATE_DELETED

record poseidon_channel =
  ch_state :: poseidon_channel_state
  ch_key_pair :: poseidon_key_pair
  ch_node_id :: poseidon_node_id
  ch_name :: bytes
  ch_config :: poseidon_channel_config
  ch_quasar :: quasar
  ch_listen_port :: u16
  ch_is_dial :: bool
  ch_owns_key_pair :: bool
  ch_subtopic_subs :: subtopic_table
  ch_aliases :: topic_alias_registry
  ch_message_cb :: bool
  ch_intercept_cb :: bool

datatype channel_effect =
    Net effect
  | Message bytes bytes "bytes option"
  | Protocol_start
  | Protocol_stop
  | Protocol_gossip
  | Add_seed u32 u16
  | Connect u32 u16

section \<open>Lifecycle\<close>

text \<open>
  What creating a channel gets from outside: a generated Ed25519 key, whether the TLS
  files could be written, and the protocol object, None when its creation failed.
\<close>

record channel_env =
  ce_fresh_key :: "poseidon_key_pair option"
  ce_tls_ok :: bool
  ce_protocol :: "meridian_view option"

definition poseidon_channel_create ::
  "openssl \<Rightarrow> (bytes \<Rightarrow> bytes option) \<Rightarrow> channel_env \<Rightarrow> poseidon_key_pair option \<Rightarrow> bytes option \<Rightarrow> u16
     \<Rightarrow> poseidon_channel_config \<Rightarrow> poseidon_channel option" where
  "poseidon_channel_create ssl blake3 env key_pair name listen_port config =
     (case (case key_pair of None \<Rightarrow> ce_fresh_key env | Some kp \<Rightarrow> Some kp) of
        None \<Rightarrow> None
      | Some kp \<Rightarrow>
          (case poseidon_key_pair_get_public_key ssl kp of
             None \<Rightarrow> None
           | Some pub_key \<Rightarrow>
               (case poseidon_node_id_from_public_key blake3 pub_key of
                  None \<Rightarrow> None
                | Some nid \<Rightarrow>
                    if \<not> ce_tls_ok env then None
                    else case ce_protocol env of
                      None \<Rightarrow> None
                    | Some protocol \<Rightarrow>
                        Some \<lparr>ch_state = POSEIDON_CHANNEL_STATE_INIT, ch_key_pair = kp, ch_node_id = nid,
                              ch_name = (case name of None \<Rightarrow> [] | Some s \<Rightarrow> take (POSEIDON_CHANNEL_MAX_NAME - 1) s),
                              ch_config = config,
                              ch_quasar = quasar_create (Some protocol) (cfg_quasar_max_hops config)
                                            (cfg_quasar_alpha config) 4096 3,
                              ch_listen_port = listen_port, ch_is_dial = False,
                              ch_owns_key_pair = (key_pair = None),
                              ch_subtopic_subs = subtopic_table_create,
                              ch_aliases = topic_alias_registry_create 32,
                              ch_message_cb = False, ch_intercept_cb = False\<rparr>)))"

text \<open>\<open>rc\<close> is the status of \<open>meridian_protocol_start\<close> and \<open>meridian_protocol_stop\<close>.\<close>

definition poseidon_channel_start ::
  "int \<Rightarrow> poseidon_channel \<Rightarrow> (u32 \<times> u16) list \<Rightarrow> int \<times> poseidon_channel \<times> channel_effect list" where
  "poseidon_channel_start rc channel seed_nodes =
     (if rc \<noteq> 0 then (- 1, channel\<lparr>ch_state := POSEIDON_CHANNEL_STATE_BOOTSTRAPPING\<rparr>, [Protocol_start])
      else (0, channel\<lparr>ch_state := POSEIDON_CHANNEL_STATE_RUNNING\<rparr>,
            Protocol_start # map (\<lambda>(addr, port). Add_seed addr port) seed_nodes))"

definition poseidon_channel_stop :: "int \<Rightarrow> poseidon_channel \<Rightarrow> int \<times> poseidon_channel \<times> channel_effect list" where
  "poseidon_channel_stop rc channel = (rc, channel\<lparr>ch_state := POSEIDON_CHANNEL_STATE_INIT\<rparr>, [Protocol_stop])"

definition poseidon_channel_get_topic :: "poseidon_channel \<Rightarrow> bytes" where
  "poseidon_channel_get_topic channel = nid_str (ch_node_id channel)"

section \<open>Messages\<close>

definition cbor_load_item :: "(nat \<Rightarrow> bool) \<Rightarrow> bytes \<Rightarrow> cbor_item option" where
  "cbor_load_item malloc data = (case cbor_load malloc data of Inl _ \<Rightarrow> None | Inr (item, _) \<Rightarrow> Some item)"

definition channel_deliver ::
  "(nat \<Rightarrow> bool) \<Rightarrow> poseidon_channel \<Rightarrow> bytes \<Rightarrow> bytes option \<Rightarrow> channel_effect list cres" where
  "channel_deliver malloc channel topic data =
     (if \<not> ch_message_cb channel then Ret []
      else case cbor_load_item malloc (case data of None \<Rightarrow> [] | Some d \<Rightarrow> d) of
        None \<Rightarrow> Ret [Message topic [] data]
      | Some item \<Rightarrow>
          (case channel_message_decode 256 4096 item of
             Undef \<Rightarrow> Undef
           | Fail \<Rightarrow> Ret [Message topic [] data]
           | Ret (subtopic, payload) \<Rightarrow>
               if subtopic_table_should_deliver (ch_subtopic_subs channel) (Some subtopic)
               then Ret [Message topic subtopic (Some payload)] else Ret []))"

text \<open>The effects of the overlay, with its callback run in place.\<close>

definition channel_effect_of ::
  "(nat \<Rightarrow> bool) \<Rightarrow> poseidon_channel \<Rightarrow> effect \<Rightarrow> channel_effect list cres" where
  "channel_effect_of malloc channel e =
     (case e of Deliver topic data \<Rightarrow> channel_deliver malloc channel topic data | _ \<Rightarrow> Ret [Net e])"

definition channel_effects ::
  "(nat \<Rightarrow> bool) \<Rightarrow> poseidon_channel \<Rightarrow> effect list \<Rightarrow> channel_effect list cres" where
  "channel_effects malloc channel es = cbind (cmapM (channel_effect_of malloc channel) es) (\<lambda>ess. Ret (concat ess))"

definition poseidon_channel_subscribe ::
  "hash_fn \<Rightarrow> poseidon_channel \<Rightarrow> bytes option \<Rightarrow> u32 \<Rightarrow> int \<times> poseidon_channel" where
  "poseidon_channel_subscribe xxh channel topic ttl =
     (let (rc, q) = quasar_subscribe xxh (ch_quasar channel) topic ttl in (rc, channel\<lparr>ch_quasar := q\<rparr>))"

definition poseidon_channel_unsubscribe ::
  "hash_fn \<Rightarrow> poseidon_channel \<Rightarrow> bytes option \<Rightarrow> int \<times> poseidon_channel" where
  "poseidon_channel_unsubscribe xxh channel topic =
     (let (rc, q) = quasar_unsubscribe xxh (ch_quasar channel) topic in (rc, channel\<lparr>ch_quasar := q\<rparr>))"

definition poseidon_channel_publish ::
  "(nat \<Rightarrow> bool) \<Rightarrow> hash_fn \<Rightarrow> (nat \<Rightarrow> quasar_message_id) \<Rightarrow> poseidon_channel \<Rightarrow> bytes option \<Rightarrow> bytes option
     \<Rightarrow> (int \<times> poseidon_channel \<times> channel_effect list) cres" where
  "poseidon_channel_publish malloc xxh mids channel topic data =
     (let (rc, q, es) = quasar_publish xxh mids (ch_quasar channel) topic data
      in cbind (channel_effects malloc channel es) (\<lambda>ces. Ret (rc, channel\<lparr>ch_quasar := q\<rparr>, ces)))"

definition poseidon_channel_publish_subtopic ::
  "(nat \<Rightarrow> bool) \<Rightarrow> hash_fn \<Rightarrow> (nat \<Rightarrow> quasar_message_id) \<Rightarrow> poseidon_channel \<Rightarrow> bytes option \<Rightarrow> bytes option
     \<Rightarrow> bytes option \<Rightarrow> (int \<times> poseidon_channel \<times> channel_effect list) cres" where
  "poseidon_channel_publish_subtopic malloc xxh mids channel topic subtopic data =
     (case channel_message_encode subtopic data of
        None \<Rightarrow> Ret (- 1, channel, [])
      | Some msg \<Rightarrow>
          (case cbor_serialize_alloc malloc msg of
             None \<Rightarrow> Ret (- 1, channel, [])
           | Some buf \<Rightarrow> poseidon_channel_publish malloc xxh mids channel topic (Some buf)))"

definition poseidon_channel_set_message_callback :: "poseidon_channel \<Rightarrow> bool \<Rightarrow> poseidon_channel" where
  "poseidon_channel_set_message_callback channel cb =
     channel\<lparr>ch_message_cb := cb, ch_quasar := quasar_set_message_callback (ch_quasar channel) True\<rparr>"

definition poseidon_channel_enable_quasar_message :: "poseidon_channel \<Rightarrow> poseidon_channel" where
  "poseidon_channel_enable_quasar_message channel =
     channel\<lparr>ch_quasar := quasar_set_message_callback (ch_quasar channel) True\<rparr>"

section \<open>Periodic operations, subtopics, aliases\<close>

definition poseidon_channel_tick :: "hash_fn \<Rightarrow> poseidon_channel \<Rightarrow> int \<times> poseidon_channel" where
  "poseidon_channel_tick xxh channel =
     (let (rc, q) = quasar_tick xxh (ch_quasar channel)
      in (rc, channel\<lparr>ch_quasar := q, ch_subtopic_subs := subtopic_table_tick (ch_subtopic_subs channel)\<rparr>))"

text \<open>\<open>rc\<close> and \<open>brc\<close> are the statuses of \<open>meridian_protocol_gossip\<close> and of the broadcast.\<close>

definition poseidon_channel_gossip ::
  "(nat \<Rightarrow> bool) \<Rightarrow> int \<Rightarrow> int \<Rightarrow> poseidon_channel \<Rightarrow> int \<times> channel_effect list" where
  "poseidon_channel_gossip malloc rc brc channel =
     (rc, Protocol_gossip #
        map Net (snd (quasar_propagate (\<lambda>it. case cbor_serialize_alloc malloc it of None \<Rightarrow> [] | Some bs \<Rightarrow> bs)
                        brc (ch_quasar channel))))"

definition poseidon_channel_subscribe_subtopic ::
  "poseidon_channel \<Rightarrow> bytes option \<Rightarrow> u32 \<Rightarrow> int \<times> poseidon_channel" where
  "poseidon_channel_subscribe_subtopic channel subtopic ttl =
     (let (rc, t) = subtopic_table_subscribe (ch_subtopic_subs channel) subtopic ttl
      in (rc, channel\<lparr>ch_subtopic_subs := t\<rparr>))"

definition poseidon_channel_unsubscribe_subtopic ::
  "poseidon_channel \<Rightarrow> bytes option \<Rightarrow> int \<times> poseidon_channel" where
  "poseidon_channel_unsubscribe_subtopic channel subtopic =
     (let (rc, t) = subtopic_table_unsubscribe (ch_subtopic_subs channel) subtopic
      in (rc, channel\<lparr>ch_subtopic_subs := t\<rparr>))"

definition poseidon_channel_register_alias ::
  "poseidon_channel \<Rightarrow> bytes option \<Rightarrow> bytes option \<Rightarrow> int \<times> poseidon_channel" where
  "poseidon_channel_register_alias channel name topic =
     (let (rc, a) = topic_alias_register (ch_aliases channel) name topic in (rc, channel\<lparr>ch_aliases := a\<rparr>))"

definition poseidon_channel_unregister_alias :: "poseidon_channel \<Rightarrow> bytes option \<Rightarrow> int \<times> poseidon_channel" where
  "poseidon_channel_unregister_alias channel name =
     (let (rc, a) = topic_alias_unregister (ch_aliases channel) name in (rc, channel\<lparr>ch_aliases := a\<rparr>))"

definition poseidon_channel_resolve_alias :: "poseidon_channel \<Rightarrow> bytes option \<Rightarrow> bytes option" where
  "poseidon_channel_resolve_alias channel name = topic_alias_resolve (ch_aliases channel) name"

definition poseidon_channel_resolve_path ::
  "poseidon_channel \<Rightarrow> bytes option \<Rightarrow> int \<times> poseidon_path_resolve_result option" where
  "poseidon_channel_resolve_path channel path =
     (case path of None \<Rightarrow> (- 1, None) | Some p \<Rightarrow> (0, Some (poseidon_resolve_path (ch_aliases channel) p)))"

definition poseidon_channel_update_config ::
  "poseidon_channel \<Rightarrow> poseidon_channel_config \<Rightarrow> poseidon_key_pair option \<Rightarrow> int \<times> poseidon_channel" where
  "poseidon_channel_update_config channel new_config key_pair =
     (case key_pair of
        None \<Rightarrow> (- 1, channel)
      | Some kp \<Rightarrow>
          if kp_id kp \<noteq> kp_id (ch_key_pair channel) then (- 1, channel)
          else (0, channel\<lparr>ch_config := new_config\<rparr>))"

section \<open>Signed lifecycle operations\<close>

definition poseidon_channel_delete_signed ::
  "hash_fn \<Rightarrow> poseidon_channel \<Rightarrow> int \<times> poseidon_channel \<times> channel_effect list" where
  "poseidon_channel_delete_signed xxh channel =
     (if ch_state channel = POSEIDON_CHANNEL_STATE_DELETED then (0, channel, [])
      else
        let q = snd (quasar_unsubscribe xxh (ch_quasar channel) (Some (nid_str (ch_node_id channel))))
        in (0, channel\<lparr>ch_state := POSEIDON_CHANNEL_STATE_DELETED, ch_quasar := q\<rparr>, [Protocol_stop]))"

text \<open>
  \<open>poseidon_channel_rejoin_with_config\<close> up to the bootstrap request it sends on the
  dial channel: a fresh overlay with the new configuration, subscribed to the topic.
\<close>

definition channel_rebuild :: "hash_fn \<Rightarrow> poseidon_channel \<Rightarrow> poseidon_channel_config \<Rightarrow> poseidon_channel" where
  "channel_rebuild xxh channel new_config =
     (let q0 = quasar_create (q_protocol (ch_quasar channel)) (cfg_quasar_max_hops new_config)
                 (cfg_quasar_alpha new_config) (cfg_quasar_seen_size new_config) (cfg_quasar_seen_hashes new_config);
          q1 = snd (quasar_subscribe xxh q0 (Some (nid_str (ch_node_id channel))) 300);
          q2 = (if ch_message_cb channel then quasar_set_message_callback q1 True else q1)
      in channel\<lparr>ch_state := POSEIDON_CHANNEL_STATE_BOOTSTRAPPING, ch_config := new_config, ch_quasar := q2\<rparr>)"

section \<open>Messages on the wire\<close>

text \<open>An allocator that never fails, for items of the sizes the program makes.\<close>

definition malloc_ok :: "(nat \<Rightarrow> bool) \<Rightarrow> bool" where
  "malloc_ok malloc \<longleftrightarrow> (\<forall>n. malloc n)"

lemma cbor_string_fits_ok: "malloc_ok malloc \<Longrightarrow> length bs < 2 ^ 64 \<Longrightarrow> cbor_string_fits malloc bs"
  by (simp add: malloc_ok_def cbor_string_fits_def)

lemma cbor_highest_bit_le: "n < 2 ^ k \<Longrightarrow> cbor_highest_bit n \<le> k"
proof (induction n arbitrary: k rule: cbor_highest_bit.induct)
  case (1 n)
  show ?case
  proof (cases "n = 0")
    case False
    with "1.prems" obtain k' where "k = Suc k'"
      by (cases k) auto
    with 1 False show ?thesis
      by (subst cbor_highest_bit.simps) simp
  qed (simp add: cbor_highest_bit.simps)
qed

lemma cbor_entries_fit_ok:
  assumes "malloc_ok malloc" "n < 2 ^ 32" "sz < 2 ^ 32"
  shows "cbor_entries_fit malloc True sz n"
  using assms cbor_highest_bit_le [of n 32] cbor_highest_bit_le [of sz 32]
  by (simp add: malloc_ok_def cbor_entries_fit_def cbor_alloc_multiple_def cbor_safe_to_multiply_def)

lemmas cbor_built_defs = cbor_build_string_def cbor_build_bytestring_def cbor_build_uint8_def
  cbor_build_uint16_def cbor_build_uint32_def cbor_build_uint64_def

lemma cbor_loadable_built:
  assumes "malloc_ok malloc"
  shows "cbor_loadable malloc (cbor_build_uint8 b)" "cbor_loadable malloc (cbor_build_uint16 h)"
    "cbor_loadable malloc (cbor_build_uint32 w)" "cbor_loadable malloc (cbor_build_uint64 q)"
    "length bs < 2 ^ 64 \<Longrightarrow> cbor_loadable malloc (cbor_build_string bs)"
    "length bs < 2 ^ 64 \<Longrightarrow> cbor_loadable malloc (cbor_build_bytestring bs)"
    "length es < 2 ^ 32 \<Longrightarrow> cbor_items_loadable malloc es \<Longrightarrow> cbor_loadable malloc (CBOR_ARRAY True es)"
    "length ps < 2 ^ 32 \<Longrightarrow> cbor_pairs_loadable malloc ps \<Longrightarrow> cbor_loadable malloc (CBOR_MAP True ps)"
  using assms by (simp_all add: cbor_built_defs cbor_int_fits_def ucast_up_bound cbor_string_fits_ok
      cbor_entries_fit_ok sizeof_item_ptr_def sizeof_cbor_pair_def)

lemma cbor_depth_built [simp]:
  "cbor_depth (cbor_build_uint8 b) = 0" "cbor_depth (cbor_build_uint16 h) = 0"
  "cbor_depth (cbor_build_uint32 w) = 0" "cbor_depth (cbor_build_uint64 q) = 0"
  "cbor_depth (cbor_build_string bs) = 0" "cbor_depth (cbor_build_bytestring bs) = 0"
  by (simp_all add: cbor_built_defs)

text \<open>An item that was serialised is loaded again.\<close>

lemma cbor_load_item_serialized:
  assumes "cbor_loadable malloc it" "cbor_depth it \<le> CBOR_MAX_STACK_SIZE"
    and "cbor_serialize_alloc malloc it = Some bs"
  shows "cbor_load_item malloc bs = Some it"
  using assms cbor_load_encoding [OF assms(1,2), of "[]"]
  by (auto simp: cbor_load_item_def cbor_serialize_alloc_eq split: if_splits)

lemma channel_message_loads:
  assumes "malloc_ok malloc" "length sub < 2 ^ 64" "length data < 2 ^ 64"
    and "cbor_serialize_alloc malloc (CBOR_ARRAY True [cbor_build_string sub, cbor_build_bytestring data]) = Some buf"
  shows "cbor_load_item malloc buf = Some (CBOR_ARRAY True [cbor_build_string sub, cbor_build_bytestring data])"
  by (rule cbor_load_item_serialized)
    (use assms in \<open>simp_all add: cbor_loadable_built cbor_entries_fit_ok sizeof_item_ptr_def CBOR_MAX_STACK_SIZE_def\<close>)

lemma channel_message_encode_simps [simp]:
  "channel_message_encode (Some sub) (Some data) = Some (CBOR_ARRAY True [cbor_build_string sub, cbor_build_bytestring data])"
  by (simp add: channel_message_encode_def numeral_eq_Suc)

lemma channel_deliver_envelope:
  assumes "malloc_ok malloc" "c_string 256 sub" "length data \<le> 4096" "ch_message_cb ch"
    and "cbor_serialize_alloc malloc (CBOR_ARRAY True [cbor_build_string sub, cbor_build_bytestring data]) = Some buf"
  shows "channel_deliver malloc ch topic (Some buf) =
    Ret (if subtopic_table_should_deliver (ch_subtopic_subs ch) (Some sub) then [Message topic sub (Some data)] else [])"
  using assms channel_message_loads [of malloc sub data buf]
  by (simp add: channel_deliver_def channel_message_decode_def c_string_def)

lemma send_route_Send: "e \<in> set (send_route m p) \<Longrightarrow> \<exists>buf. e = Send buf p"
  by (auto simp: send_route_def split: option.splits)

lemma publish_peers_Send:
  "e \<in> set (snd (publish_to_peers xxh mids q t (Some d) pv)) \<Longrightarrow> \<exists>buf p. e = Send buf p"
  unfolding publish_to_peers_sends by (auto dest!: send_route_Send)

lemma channel_effects_sends:
  "(\<And>e. e \<in> set es \<Longrightarrow> \<exists>buf p. e = Send buf p) \<Longrightarrow> channel_effects malloc ch es = Ret (map Net es)"
proof (induction es)
  case (Cons e es)
  from Cons.prems [of e] obtain buf p where "e = Send buf p"
    by auto
  with Cons show ?case
    by (auto simp: channel_effects_def channel_effect_of_def)
qed (simp add: channel_effects_def)

lemma channel_effects_Cons:
  "channel_effects malloc ch (e # es) =
     cbind (channel_effect_of malloc ch e) (\<lambda>xs. cbind (channel_effects malloc ch es) (\<lambda>ys. Ret (xs @ ys)))"
  by (cases "channel_effect_of malloc ch e"; cases "cmapM (channel_effect_of malloc ch) es")
    (simp_all add: channel_effects_def)

lemma channel_publish_subscribed:
  assumes "locally_subscribed (ch_quasar ch) topic" "q_on_message (ch_quasar ch)"
  obtains ch' outs where
    "poseidon_channel_publish malloc xxh mids ch (Some topic) (Some buf) =
       cbind (channel_deliver malloc ch topic (Some buf)) (\<lambda>ces. Ret (0, ch', ces @ map Net outs))"
    "list_all (\<lambda>e. \<exists>b p. e = Send b p) outs"
proof -
  define outs where "outs = (case q_protocol (ch_quasar ch) of None \<Rightarrow> []
    | Some pv \<Rightarrow> snd (publish_to_peers xxh mids (ch_quasar ch) topic (Some buf) pv))"
  define q' where "q' = fst (snd (quasar_publish xxh mids (ch_quasar ch) (Some topic) (Some buf)))"
  have send: "e \<in> set outs \<Longrightarrow> \<exists>b p. e = Send b p" for e
    using publish_peers_Send by (auto simp: outs_def split: option.splits)
  have "quasar_publish xxh mids (ch_quasar ch) (Some topic) (Some buf) = (0, q', Deliver topic (Some buf) # outs)"
    using assms by (simp add: quasar_publish_def q'_def outs_def Let_def split_def split: option.split)
  then have "poseidon_channel_publish malloc xxh mids ch (Some topic) (Some buf) =
      cbind (channel_deliver malloc ch topic (Some buf)) (\<lambda>ces. Ret (0, ch\<lparr>ch_quasar := q'\<rparr>, ces @ map Net outs))"
    using channel_effects_sends [of outs, OF send]
    by (cases "channel_deliver malloc ch topic (Some buf)")
      (simp_all add: poseidon_channel_publish_def channel_effects_Cons channel_effect_of_def)
  then show ?thesis
    using that send by (simp add: list_all_iff)
qed

section \<open>Properties\<close>

text \<open>
  Publishing on a subtopic: a subscribed channel with a callback delivers to its
  application exactly the subtopic and the payload that were published when one of
  its subtopic subscriptions matches, and nothing when none does; besides, it only
  sends packets. The message passes through the envelope, the CBOR serialiser, the
  overlay and the CBOR loader on the way.
\<close>

theorem publish_subtopic_delivers:
  assumes "malloc_ok malloc" "c_string 256 sub" "length data \<le> 4096"
    and "ch_message_cb ch" "q_on_message (ch_quasar ch)" "locally_subscribed (ch_quasar ch) topic"
  shows "\<exists>ch' outs.
    poseidon_channel_publish_subtopic malloc xxh mids ch (Some topic) (Some sub) (Some data) =
      Ret (0, ch', (if subtopic_table_should_deliver (ch_subtopic_subs ch) (Some sub)
                    then [Message topic sub (Some data)] else []) @ map Net outs)
    \<and> list_all (\<lambda>e. \<exists>b p. e = Send b p) outs"
proof -
  let ?msg = "CBOR_ARRAY True [cbor_build_string sub, cbor_build_bytestring data]"
  have "length (cbor_encoding ?msg) < 2 ^ 64"
    using assms(2,3) by (simp add: cbor_built_defs length_cbor_encode_uint cbor_encoded_header_size_def c_string_def)
  then have "cbor_serialize_alloc malloc ?msg = Some (cbor_encoding ?msg)"
    using assms(1) by (simp only: malloc_ok_def cbor_serialize_alloc_eq) simp
  then obtain buf where buf: "cbor_serialize_alloc malloc ?msg = Some buf" ..
  obtain ch' outs where
    "poseidon_channel_publish malloc xxh mids ch (Some topic) (Some buf) =
       cbind (channel_deliver malloc ch topic (Some buf)) (\<lambda>ces. Ret (0, ch', ces @ map Net outs))"
    "list_all (\<lambda>e. \<exists>b p. e = Send b p) outs"
    using channel_publish_subscribed [OF assms(6,5), where malloc = malloc and xxh = xxh and mids = mids and buf = buf]
    by blast
  with channel_deliver_envelope [OF assms(1-4) buf] buf show ?thesis
    by (intro exI [of _ ch'] exI [of _ outs]) (simp add: poseidon_channel_publish_subtopic_def)
qed

theorem publish_subtopic_delivers_witness:
  "let ch = \<lparr>ch_state = POSEIDON_CHANNEL_STATE_RUNNING,
             ch_key_pair = \<lparr>kp_id = 0, kp_pkey = 0, kp_key_type = name_ED25519\<rparr>,
             ch_node_id = \<lparr>nid_hash = [], nid_str = [116]\<rparr>, ch_name = [],
             ch_config = poseidon_channel_config_defaults,
             ch_quasar = (quasar_create None 5 3 4096 3)
               \<lparr>q_on_message := True, q_local_subs := [\<lparr>sub_topic = [116], sub_ttl = 0\<rparr>]\<rparr>,
             ch_listen_port = 1, ch_is_dial = False, ch_owns_key_pair = False,
             ch_subtopic_subs = [\<lparr>se_path = [97], se_ttl = 9\<rparr>], ch_aliases = topic_alias_registry_create 32,
             ch_message_cb = True, ch_intercept_cb = False\<rparr>
   in \<exists>ch' outs.
     poseidon_channel_publish_subtopic (\<lambda>_. True) (\<lambda>_ _. 0) (\<lambda>i. \<lparr>mid_time = 0, mid_nanos = 0, mid_count = of_nat i\<rparr>)
       ch (Some [116]) (Some [97, 47, 98]) (Some [1, 2]) =
       Ret (0, ch', (if subtopic_table_should_deliver (ch_subtopic_subs ch) (Some [97, 47, 98])
                     then [Message [116] [97, 47, 98] (Some [1, 2])] else []) @ map Net outs)
     \<and> list_all (\<lambda>e. \<exists>b p. e = Send b p) outs"
  unfolding Let_def
  by (rule publish_subtopic_delivers)
    (simp_all add: malloc_ok_def c_string_def locally_subscribed_def)

text \<open>
  A payload larger than the decoding buffer of 4096 bytes bypasses the subtopic
  filter: the envelope is not recognised and the application gets its raw bytes,
  whatever subtopics it subscribed to.
\<close>

theorem oversized_bypasses_filter:
  assumes "malloc_ok malloc" "c_string 256 sub" "4096 < length data" "length data < 2 ^ 32" "ch_message_cb ch"
  shows "\<exists>msg buf. channel_message_encode (Some sub) (Some data) = Some msg
    \<and> cbor_serialize_alloc malloc msg = Some buf
    \<and> channel_deliver malloc ch topic (Some buf) = Ret [Message topic [] (Some buf)]"
proof -
  let ?msg = "CBOR_ARRAY True [cbor_build_string sub, cbor_build_bytestring data]"
  have "length (cbor_encoding ?msg) < 2 ^ 64"
    using assms(2,4) by (simp add: cbor_built_defs length_cbor_encode_uint cbor_encoded_header_size_def c_string_def)
  then have "cbor_serialize_alloc malloc ?msg = Some (cbor_encoding ?msg)"
    using assms(1) by (simp only: malloc_ok_def cbor_serialize_alloc_eq) simp
  then obtain buf where buf: "cbor_serialize_alloc malloc ?msg = Some buf" ..
  have "cbor_load_item malloc buf = Some ?msg"
    by (rule channel_message_loads) (use assms buf in \<open>simp_all add: c_string_def\<close>)
  with assms have "channel_deliver malloc ch topic (Some buf) = Ret [Message topic [] (Some buf)]"
    by (simp add: channel_deliver_def channel_message_decode_def c_string_def)
  with buf show ?thesis
    by (intro exI [of _ ?msg] exI [of _ buf]) simp
qed

theorem oversized_bypasses_filter_witness:
  "let ch = \<lparr>ch_state = POSEIDON_CHANNEL_STATE_RUNNING,
             ch_key_pair = \<lparr>kp_id = 0, kp_pkey = 0, kp_key_type = name_ED25519\<rparr>,
             ch_node_id = \<lparr>nid_hash = [], nid_str = [116]\<rparr>, ch_name = [],
             ch_config = poseidon_channel_config_defaults, ch_quasar = quasar_create None 5 3 4096 3,
             ch_listen_port = 1, ch_is_dial = False, ch_owns_key_pair = False,
             ch_subtopic_subs = [], ch_aliases = topic_alias_registry_create 32,
             ch_message_cb = True, ch_intercept_cb = False\<rparr>
   in \<exists>msg buf. channel_message_encode (Some [97]) (Some (replicate 5000 0)) = Some msg
     \<and> cbor_serialize_alloc (\<lambda>_. True) msg = Some buf
     \<and> channel_deliver (\<lambda>_. True) ch [116] (Some buf) = Ret [Message [116] [] (Some buf)]"
  unfolding Let_def by (rule oversized_bypasses_filter) (simp_all add: malloc_ok_def c_string_def)

end
