(* ===== verification/Notice.thy ===== *)
theory Notice
  imports Channel
begin

text \<open>
  Signed notices about channels (\<open>src/Channel/channel_notice.c\<close>): the payload that is
  signed, the creation of delete and modify notices with a channel's key, and their
  verification. The clock is an argument.
\<close>

section \<open>The signed payload\<close>

definition build_delete_signable :: "bytes \<Rightarrow> bytes \<Rightarrow> bytes \<Rightarrow> bytes \<Rightarrow> u64 \<Rightarrow> cbor_item option" where
  "build_delete_signable topic_id node_id key_type public_key timestamp_us =
     cbor_array_of 6
       [cbor_build_uint8 MERIDIAN_PACKET_TYPE_CHANNEL_DELETE_NOTICE, cbor_build_string topic_id,
        cbor_build_string node_id, cbor_build_string key_type, cbor_build_bytestring public_key,
        cbor_build_uint64 timestamp_us]"

definition build_modify_signable ::
  "bytes \<Rightarrow> bytes \<Rightarrow> bytes \<Rightarrow> bytes \<Rightarrow> u64 \<Rightarrow> poseidon_channel_config \<Rightarrow> cbor_item option" where
  "build_modify_signable topic_id node_id key_type public_key timestamp_us config =
     (case cbor_map_of (8 + MERIDIAN_MAX_RINGS) (config_map_pairs config) of
        None \<Rightarrow> None
      | Some config_map \<Rightarrow>
          cbor_array_of 7
            [cbor_build_uint8 MERIDIAN_PACKET_TYPE_CHANNEL_MODIFY_NOTICE, cbor_build_string topic_id,
             cbor_build_string node_id, cbor_build_string key_type, cbor_build_bytestring public_key,
             cbor_build_uint64 timestamp_us, config_map])"

definition signable_bytes :: "(nat \<Rightarrow> bool) \<Rightarrow> cbor_item option \<Rightarrow> bytes option" where
  "signable_bytes malloc signable = (case signable of None \<Rightarrow> None | Some it \<Rightarrow> cbor_serialize_alloc malloc it)"

section \<open>Creation\<close>

definition poseidon_channel_create_delete_notice ::
  "openssl \<Rightarrow> (nat \<Rightarrow> bool) \<Rightarrow> u64 \<Rightarrow> poseidon_channel \<Rightarrow> meridian_channel_delete_notice option" where
  "poseidon_channel_create_delete_notice ssl malloc timestamp_us channel =
     (let topic = poseidon_channel_get_topic channel;
          nid = ch_node_id channel;
          kt = poseidon_key_pair_get_key_type (ch_key_pair channel)
      in case poseidon_key_pair_get_public_key ssl (ch_key_pair channel) of
           None \<Rightarrow> None
         | Some pub_key \<Rightarrow>
             if length pub_key > POSEIDON_CHANNEL_NOTICE_MAX_PUBLIC_KEY then None
             else case signable_bytes malloc (build_delete_signable topic (nid_str nid) kt pub_key timestamp_us) of
               None \<Rightarrow> None
             | Some buf \<Rightarrow>
                 (case poseidon_key_pair_sign ssl (ch_key_pair channel) buf of
                    None \<Rightarrow> None
                  | Some sig \<Rightarrow>
                      if length sig > POSEIDON_CHANNEL_NOTICE_MAX_SIGNATURE then None
                      else Some \<lparr>dn_type = MERIDIAN_PACKET_TYPE_CHANNEL_DELETE_NOTICE, dn_topic_id = take 63 topic,
                                 dn_node_id = take 63 (nid_str nid), dn_key_type = take 15 kt,
                                 dn_public_key = pub_key, dn_timestamp_us = timestamp_us, dn_signature = sig\<rparr>))"

definition poseidon_channel_create_modify_notice ::
  "openssl \<Rightarrow> (nat \<Rightarrow> bool) \<Rightarrow> u64 \<Rightarrow> poseidon_channel \<Rightarrow> poseidon_channel_config
     \<Rightarrow> meridian_channel_modify_notice option" where
  "poseidon_channel_create_modify_notice ssl malloc timestamp_us channel new_config =
     (let topic = poseidon_channel_get_topic channel;
          nid = ch_node_id channel;
          kt = poseidon_key_pair_get_key_type (ch_key_pair channel)
      in case poseidon_key_pair_get_public_key ssl (ch_key_pair channel) of
           None \<Rightarrow> None
         | Some pub_key \<Rightarrow>
             if length pub_key > POSEIDON_CHANNEL_NOTICE_MAX_PUBLIC_KEY then None
             else case signable_bytes malloc
                         (build_modify_signable topic (nid_str nid) kt pub_key timestamp_us new_config) of
               None \<Rightarrow> None
             | Some buf \<Rightarrow>
                 (case poseidon_key_pair_sign ssl (ch_key_pair channel) buf of
                    None \<Rightarrow> None
                  | Some sig \<Rightarrow>
                      if length sig > POSEIDON_CHANNEL_NOTICE_MAX_SIGNATURE then None
                      else Some \<lparr>dn_type = MERIDIAN_PACKET_TYPE_CHANNEL_MODIFY_NOTICE, dn_topic_id = take 63 topic,
                                 dn_node_id = take 63 (nid_str nid), dn_key_type = take 15 kt,
                                 dn_public_key = pub_key, dn_timestamp_us = timestamp_us, dn_signature = sig,
                                 mn_config = new_config\<rparr>))"

section \<open>Verification\<close>

text \<open>Both verifiers check the key against the node identifier and the signature against the rebuilt payload.\<close>

definition verify_notice ::
  "openssl \<Rightarrow> (bytes \<Rightarrow> bytes option) \<Rightarrow> (nat \<Rightarrow> bool) \<Rightarrow> cbor_item option
     \<Rightarrow> 'a meridian_channel_delete_notice_scheme \<Rightarrow> int" where
  "verify_notice ssl blake3 malloc signable notice =
     (case poseidon_node_id_from_string (dn_node_id notice) of
        None \<Rightarrow> - 1
      | Some expected_id \<Rightarrow>
          if poseidon_node_id_verify_public_key blake3 expected_id (dn_public_key notice) \<noteq> 0 then - 1
          else case signable_bytes malloc signable of
            None \<Rightarrow> - 1
          | Some buf \<Rightarrow>
              poseidon_verify_signature_with_key ssl (dn_key_type notice) (dn_public_key notice) buf (dn_signature notice))"

definition poseidon_channel_verify_delete_notice ::
  "openssl \<Rightarrow> (bytes \<Rightarrow> bytes option) \<Rightarrow> (nat \<Rightarrow> bool) \<Rightarrow> meridian_channel_delete_notice \<Rightarrow> int" where
  "poseidon_channel_verify_delete_notice ssl blake3 malloc notice =
     verify_notice ssl blake3 malloc
       (build_delete_signable (dn_topic_id notice) (dn_node_id notice) (dn_key_type notice) (dn_public_key notice)
          (dn_timestamp_us notice)) notice"

definition poseidon_channel_verify_modify_notice ::
  "openssl \<Rightarrow> (bytes \<Rightarrow> bytes option) \<Rightarrow> (nat \<Rightarrow> bool) \<Rightarrow> meridian_channel_modify_notice \<Rightarrow> int" where
  "poseidon_channel_verify_modify_notice ssl blake3 malloc notice =
     verify_notice ssl blake3 malloc
       (build_modify_signable (dn_topic_id notice) (dn_node_id notice) (dn_key_type notice) (dn_public_key notice)
          (dn_timestamp_us notice) (mn_config notice)) notice"

section \<open>Laws\<close>

definition delete_signable :: "'a meridian_channel_delete_notice_scheme \<Rightarrow> cbor_item option" where
  "delete_signable n =
     build_delete_signable (dn_topic_id n) (dn_node_id n) (dn_key_type n) (dn_public_key n) (dn_timestamp_us n)"

definition modify_signable :: "meridian_channel_modify_notice \<Rightarrow> cbor_item option" where
  "modify_signable n =
     build_modify_signable (dn_topic_id n) (dn_node_id n) (dn_key_type n) (dn_public_key n) (dn_timestamp_us n)
       (mn_config n)"

text \<open>The fields that both kinds of notice share and that a signature has to protect.\<close>

definition signed_fields :: "'a meridian_channel_delete_notice_scheme \<Rightarrow> bytes \<times> bytes \<times> bytes \<times> bytes \<times> u64" where
  "signed_fields n = (dn_topic_id n, dn_node_id n, dn_key_type n, dn_public_key n, dn_timestamp_us n)"

lemma delete_signable_eq:
  "delete_signable n = Some (CBOR_ARRAY True
     [cbor_build_uint8 MERIDIAN_PACKET_TYPE_CHANNEL_DELETE_NOTICE, cbor_build_string (dn_topic_id n),
      cbor_build_string (dn_node_id n), cbor_build_string (dn_key_type n), cbor_build_bytestring (dn_public_key n),
      cbor_build_uint64 (dn_timestamp_us n)])"
  by (simp add: delete_signable_def build_delete_signable_def)

lemma length_config_map_pairs [simp]: "length (config_map_pairs c) = 17"
  by (simp add: config_map_pairs_def MERIDIAN_MAX_RINGS_def)

lemma modify_signable_eq:
  "modify_signable n = Some (CBOR_ARRAY True
     [cbor_build_uint8 MERIDIAN_PACKET_TYPE_CHANNEL_MODIFY_NOTICE, cbor_build_string (dn_topic_id n),
      cbor_build_string (dn_node_id n), cbor_build_string (dn_key_type n), cbor_build_bytestring (dn_public_key n),
      cbor_build_uint64 (dn_timestamp_us n), CBOR_MAP True (config_map_pairs (mn_config n))])"
  by (simp add: modify_signable_def build_modify_signable_def cbor_map_of_def MERIDIAN_MAX_RINGS_def)

lemma cbor_pairs_built:
  assumes "malloc_ok malloc" "list_all (\<lambda>(k, v). length k < 2 ^ 64) kvs"
  shows "cbor_pairs_loadable malloc (map (\<lambda>(k, v). (cbor_build_string k, cbor_build_uint32 v)) kvs)
    \<and> cbor_pairs_depth (map (\<lambda>(k, v). (cbor_build_string k, cbor_build_uint32 v)) kvs) = 0"
  using assms(2) by (induction kvs) (auto simp: cbor_loadable_built [OF assms(1)])

lemma config_map_loadable:
  assumes "malloc_ok malloc"
  shows "cbor_pairs_loadable malloc (config_map_pairs c)" "cbor_pairs_depth (config_map_pairs c) = 0"
proof -
  have "list_all (\<lambda>(k, v). length k < 2 ^ 64)
      (map (\<lambda>i. (ring_key i, cfg_ring_sizes c ! i)) [0..<MERIDIAN_MAX_RINGS]
        @ [(key_gis, cfg_gossip_init_interval_s c), (key_gss, cfg_gossip_steady_interval_s c),
           (key_gni, cfg_gossip_num_init_intervals c), (key_qmh, cfg_quasar_max_hops c),
           (key_qa, cfg_quasar_alpha c), (key_qss, cfg_quasar_seen_size c), (key_qsh, cfg_quasar_seen_hashes c)])"
    by (simp add: list_all_iff ring_key_def key_defs)
  from cbor_pairs_built [OF assms this]
  show "cbor_pairs_loadable malloc (config_map_pairs c)" "cbor_pairs_depth (config_map_pairs c) = 0"
    by (simp_all only: config_map_pairs_def)
qed

text \<open>The bytes that are signed determine the payload.\<close>

lemma cbor_build_inj [simp]:
  "cbor_build_string a = cbor_build_string b \<longleftrightarrow> a = b"
  "cbor_build_bytestring a = cbor_build_bytestring b \<longleftrightarrow> a = b"
  "cbor_build_uint64 q = cbor_build_uint64 r \<longleftrightarrow> q = r"
  by (simp_all add: cbor_built_defs)

lemma signable_bytes_inj:
  assumes "signable_bytes malloc (Some x) = Some buf" "signable_bytes malloc (Some y) = Some buf"
    and "cbor_loadable malloc x" "cbor_loadable malloc y"
    and "cbor_depth x \<le> CBOR_MAX_STACK_SIZE" "cbor_depth y \<le> CBOR_MAX_STACK_SIZE"
  shows "x = y"
proof -
  have "cbor_load_item malloc buf = Some x" "cbor_load_item malloc buf = Some y"
    using assms by (auto simp: signable_bytes_def intro: cbor_load_item_serialized)
  then show ?thesis
    by simp
qed

lemma notice_fields_short:
  assumes "notice_fields_wf n"
  shows "length (dn_topic_id n) < 2 ^ 64" "length (dn_node_id n) < 2 ^ 64" "length (dn_key_type n) < 2 ^ 64"
    "length (dn_public_key n) < 2 ^ 64"
  using assms by (simp_all add: notice_fields_wf_def c_string_def POSEIDON_CHANNEL_NOTICE_MAX_PUBLIC_KEY_def)

lemma delete_signable_loadable:
  assumes "malloc_ok malloc" "notice_fields_wf n" "delete_signable n = Some x"
  shows "cbor_loadable malloc x \<and> cbor_depth x \<le> CBOR_MAX_STACK_SIZE"
proof -
  from assms(3) have x: "x = CBOR_ARRAY True
     [cbor_build_uint8 MERIDIAN_PACKET_TYPE_CHANNEL_DELETE_NOTICE, cbor_build_string (dn_topic_id n),
      cbor_build_string (dn_node_id n), cbor_build_string (dn_key_type n), cbor_build_bytestring (dn_public_key n),
      cbor_build_uint64 (dn_timestamp_us n)]"
    by (simp add: delete_signable_eq)
  show ?thesis
    unfolding x
    by (intro conjI cbor_loadable_built(7) [OF assms(1)])
      (simp_all only: cbor_items_loadable.simps cbor_loadable_built [OF assms(1)] notice_fields_short [OF assms(2)],
       simp_all add: CBOR_MAX_STACK_SIZE_def)
qed

lemma modify_signable_loadable:
  assumes "malloc_ok malloc" "notice_fields_wf n" "modify_signable n = Some x"
  shows "cbor_loadable malloc x \<and> cbor_depth x \<le> CBOR_MAX_STACK_SIZE"
proof -
  from assms(3) have x: "x = CBOR_ARRAY True
     [cbor_build_uint8 MERIDIAN_PACKET_TYPE_CHANNEL_MODIFY_NOTICE, cbor_build_string (dn_topic_id n),
      cbor_build_string (dn_node_id n), cbor_build_string (dn_key_type n), cbor_build_bytestring (dn_public_key n),
      cbor_build_uint64 (dn_timestamp_us n), CBOR_MAP True (config_map_pairs (mn_config n))]"
    by (simp add: modify_signable_eq)
  have "cbor_loadable malloc (CBOR_MAP True (config_map_pairs (mn_config n)))"
    by (rule cbor_loadable_built(8) [OF assms(1)]) (simp_all add: config_map_loadable [OF assms(1)])
  then show ?thesis
    unfolding x
    by (intro conjI cbor_loadable_built(7) [OF assms(1)])
      (simp_all only: cbor_items_loadable.simps cbor_loadable_built(1-6) [OF assms(1)] notice_fields_short [OF assms(2)],
       simp_all add: CBOR_MAX_STACK_SIZE_def config_map_loadable [OF assms(1)])
qed

lemma config_map_inj:
  assumes "config_map_pairs c = config_map_pairs d"
    "length (cfg_ring_sizes c) = MERIDIAN_MAX_RINGS" "length (cfg_ring_sizes d) = MERIDIAN_MAX_RINGS"
  shows "c = d"
proof -
  have "Ret c = config_read (config_map_pairs d) poseidon_channel_config_defaults"
    unfolding assms(1) [symmetric] by (rule config_read_pairs [OF assms(2), symmetric])
  also have "\<dots> = Ret d"
    by (rule config_read_pairs [OF assms(3)])
  finally show ?thesis
    by (simp only: cres.inject)
qed

lemma delete_signable_inj:
  assumes "malloc_ok malloc" "notice_fields_wf m" "notice_fields_wf n"
    and "signable_bytes malloc (delete_signable m) = Some buf" "signable_bytes malloc (delete_signable n) = Some buf"
  shows "signed_fields m = signed_fields n"
proof -
  have "delete_signable m = delete_signable n"
    using signable_bytes_inj [of malloc _ buf] delete_signable_loadable [OF assms(1,2)] delete_signable_loadable [OF assms(1,3)]
      assms(4,5) by (metis delete_signable_eq)
  then show ?thesis
    by (simp add: delete_signable_eq signed_fields_def)
qed

lemma modify_signable_inj:
  assumes "malloc_ok malloc" "modify_notice_wf m" "modify_notice_wf n"
    and "signable_bytes malloc (modify_signable m) = Some buf" "signable_bytes malloc (modify_signable n) = Some buf"
  shows "signed_fields m = signed_fields n \<and> mn_config m = mn_config n"
proof -
  have wf: "notice_fields_wf m" "notice_fields_wf n"
    using assms by (simp_all add: modify_notice_wf_def)
  have "modify_signable m = modify_signable n"
    using signable_bytes_inj [of malloc _ buf] modify_signable_loadable [OF assms(1) wf(1)]
      modify_signable_loadable [OF assms(1) wf(2)] assms(4,5) by (metis modify_signable_eq)
  then have "signed_fields m = signed_fields n" "config_map_pairs (mn_config m) = config_map_pairs (mn_config n)"
    by (simp_all add: modify_signable_eq signed_fields_def)
  with assms(2,3) config_map_inj show ?thesis
    by (auto simp: modify_notice_wf_def)
qed

lemma signable_kinds_differ:
  assumes "malloc_ok malloc" "notice_fields_wf d" "notice_fields_wf m"
    and "signable_bytes malloc (delete_signable d) = Some buf"
  shows "signable_bytes malloc (modify_signable m) \<noteq> Some buf"
proof
  assume "signable_bytes malloc (modify_signable m) = Some buf"
  then have "delete_signable d = modify_signable m"
    using signable_bytes_inj [of malloc _ buf] delete_signable_loadable [OF assms(1,2)] modify_signable_loadable [OF assms(1,3)]
      assms(4) by (metis delete_signable_eq modify_signable_eq)
  then show False
    by (simp add: delete_signable_eq modify_signable_eq)
qed

text \<open>A channel whose identity was derived from its Ed25519 key.\<close>

definition channel_identity_ok :: "openssl \<Rightarrow> (bytes \<Rightarrow> bytes option) \<Rightarrow> poseidon_channel \<Rightarrow> bool" where
  "channel_identity_ok ssl blake3 ch \<longleftrightarrow>
     kp_key_type (ch_key_pair ch) = name_ED25519 \<and>
     (case poseidon_key_pair_get_public_key ssl (ch_key_pair ch) of
        None \<Rightarrow> False
      | Some pub \<Rightarrow> poseidon_node_id_from_public_key blake3 pub = Some (ch_node_id ch))"

text \<open>BLAKE3 gives 32 bytes.\<close>

definition blake3_ok :: "(bytes \<Rightarrow> bytes option) \<Rightarrow> bool" where
  "blake3_ok blake3 \<longleftrightarrow> (\<forall>key h. blake3 key = Some h \<longrightarrow> length h = 32)"

lemma channel_identity:
  assumes "blake3_ok blake3" "channel_identity_ok ssl blake3 ch"
  obtains pub where "poseidon_key_pair_get_public_key ssl (ch_key_pair ch) = Some pub"
    "poseidon_node_id_verify_public_key blake3 (ch_node_id ch) pub = 0"
    "poseidon_node_id_from_string (nid_str (ch_node_id ch)) = Some (ch_node_id ch)"
    "c_string 48 (nid_str (ch_node_id ch))"
proof -
  obtain pub where pub: "poseidon_key_pair_get_public_key ssl (ch_key_pair ch) = Some pub"
      "poseidon_node_id_from_public_key blake3 pub = Some (ch_node_id ch)"
    using assms(2) by (auto simp: channel_identity_ok_def split: option.splits)
  have "pub \<noteq> []"
    using pub(1) by (auto simp: poseidon_key_pair_get_public_key_def split: option.splits if_splits)
  moreover obtain h where h: "blake3 pub = Some h" "base58_encode h 47 = Some (nid_str (ch_node_id ch))"
    using pub(2) by (cases "ch_node_id ch") (auto simp: poseidon_node_id_from_public_key_def
        POSEIDON_NODE_ID_STRING_SIZE_def split: option.splits)
  moreover have "length h = 32"
    using assms(1) h(1) by (auto simp: blake3_ok_def)
  ultimately show ?thesis
    using node_id_from_key [of blake3 pub h] pub base58_encode_no_zero [OF h(2)]
    by (intro that) (auto simp: c_string_def POSEIDON_NODE_ID_STRING_SIZE_def)
qed

lemma c_string_take:
  "c_string 48 s \<Longrightarrow> take 63 s = s \<and> c_string 64 s"
  by (auto simp: c_string_def)

lemma name_ED25519_facts [simp]: "take 15 name_ED25519 = name_ED25519" "c_string 16 name_ED25519"
  by (simp_all add: name_ED25519_def c_string_def)

text \<open>Payloads are small, so they can be serialised.\<close>

lemma length_built:
  "length (cbor_encoding (cbor_build_string bs)) \<le> length bs + 9"
  "length (cbor_encoding (cbor_build_bytestring bs)) \<le> length bs + 9"
  "length (cbor_encoding (cbor_build_uint8 b)) \<le> 9" "length (cbor_encoding (cbor_build_uint32 w)) \<le> 9"
  "length (cbor_encoding (cbor_build_uint64 q)) \<le> 9" "length (cbor_encode_uint v offset) \<le> 9"
  by (simp_all add: cbor_built_defs length_cbor_encode_int cbor_int_size_def length_cbor_encode_uint
      cbor_encoded_header_size_def)

lemma length_pairs_built:
  "list_all (\<lambda>(k, v). length k \<le> 3) kvs \<Longrightarrow>
     length (cbor_pairs_encoding (map (\<lambda>(k, v). (cbor_build_string k, cbor_build_uint32 v)) kvs)) \<le> 21 * length kvs"
proof (induction kvs)
  case (Cons kv kvs)
  obtain k v where "kv = (k, v)"
    by (cases kv)
  with Cons length_built(1) [of k] length_built(4) [of v] show ?case
    by simp
qed simp

lemma length_config_pairs: "length (cbor_pairs_encoding (config_map_pairs c)) \<le> 357"
proof -
  have "list_all (\<lambda>(k, v). length k \<le> 3)
      (map (\<lambda>i. (ring_key i, cfg_ring_sizes c ! i)) [0..<MERIDIAN_MAX_RINGS]
        @ [(key_gis, cfg_gossip_init_interval_s c), (key_gss, cfg_gossip_steady_interval_s c),
           (key_gni, cfg_gossip_num_init_intervals c), (key_qmh, cfg_quasar_max_hops c),
           (key_qa, cfg_quasar_alpha c), (key_qss, cfg_quasar_seen_size c), (key_qsh, cfg_quasar_seen_hashes c)])"
    (is "list_all _ ?kvs")
    by (simp add: list_all_iff ring_key_def key_defs)
  from length_pairs_built [OF this] have "length (cbor_pairs_encoding (config_map_pairs c)) \<le> 21 * length ?kvs"
    by (simp only: config_map_pairs_def)
  then show ?thesis
    by (simp add: MERIDIAN_MAX_RINGS_def)
qed

lemma signable_bytes_ok:
  assumes "malloc_ok malloc" "notice_fields_wf n"
  shows "\<exists>buf. signable_bytes malloc (delete_signable n) = Some buf"
proof -
  have "length (cbor_encoding (the (delete_signable n))) < 2 ^ 64"
    using assms(2) length_built(1) [of "dn_topic_id n"] length_built(1) [of "dn_node_id n"]
      length_built(1) [of "dn_key_type n"] length_built(2) [of "dn_public_key n"]
      length_built(3) [of MERIDIAN_PACKET_TYPE_CHANNEL_DELETE_NOTICE] length_built(5) [of "dn_timestamp_us n"]
      length_built(6) [of 6 "0x80"]
    by (simp add: delete_signable_eq notice_fields_wf_def c_string_def POSEIDON_CHANNEL_NOTICE_MAX_PUBLIC_KEY_def)
  with assms(1) show ?thesis
    by (simp only: delete_signable_eq signable_bytes_def option.case option.sel cbor_serialize_alloc_eq malloc_ok_def)
      simp
qed

lemma modify_signable_bytes_ok:
  assumes "malloc_ok malloc" "notice_fields_wf n"
  shows "\<exists>buf. signable_bytes malloc (modify_signable n) = Some buf"
proof -
  have "length (cbor_encoding (the (modify_signable n))) < 2 ^ 64"
    using assms(2) length_built(1) [of "dn_topic_id n"] length_built(1) [of "dn_node_id n"]
      length_built(1) [of "dn_key_type n"] length_built(2) [of "dn_public_key n"]
      length_built(3) [of MERIDIAN_PACKET_TYPE_CHANNEL_MODIFY_NOTICE] length_built(5) [of "dn_timestamp_us n"]
      length_built(6) [of 7 "0x80"] length_built(6) [of 17 "0xA0"] length_config_pairs [of "mn_config n"]
    by (simp add: modify_signable_eq notice_fields_wf_def c_string_def POSEIDON_CHANNEL_NOTICE_MAX_PUBLIC_KEY_def)
  with assms(1) show ?thesis
    by (simp only: modify_signable_eq signable_bytes_def option.case option.sel cbor_serialize_alloc_eq malloc_ok_def)
      simp
qed

text \<open>An Ed25519 key as OpenSSL documents it: a public key of 44 bytes and signatures of 64 bytes fit the notice.\<close>

definition ed25519_key_ok :: "openssl \<Rightarrow> poseidon_key_pair \<Rightarrow> bool" where
  "ed25519_key_ok ssl kp \<longleftrightarrow>
     EVP_PKEY_base_id ssl (kp_pkey kp) = name_ED25519
     \<and> (\<forall>pub. poseidon_key_pair_get_public_key ssl kp = Some pub \<longrightarrow> length pub \<le> 64)
     \<and> (\<forall>data. \<exists>sig. EVP_DigestSign ssl (kp_pkey kp) data = Some sig \<and> length sig \<le> 64)"

lemma ed25519_sign:
  assumes "ed25519_key_ok ssl kp"
  obtains sig where "poseidon_key_pair_sign ssl kp data = Some sig" "length sig \<le> 64"
  using assms by (auto simp: ed25519_key_ok_def poseidon_key_pair_sign_def)

section \<open>Properties\<close>

text \<open>
  C17. A channel with an Ed25519 key can always announce its deletion and its
  modification, and the notices it creates pass verification at every node and are
  well formed, so that they also survive their encoding. OpenSSL is assumed to verify
  the signatures it makes, and BLAKE3 to yield 32 bytes.
\<close>

theorem created_notices_verify:
  assumes "openssl_ok ssl" "blake3_ok blake3" "malloc_ok malloc" "channel_identity_ok ssl blake3 ch"
    and "ed25519_key_ok ssl (ch_key_pair ch)"
  shows "(\<exists>d. poseidon_channel_create_delete_notice ssl malloc ts ch = Some d
        \<and> poseidon_channel_verify_delete_notice ssl blake3 malloc d = 0 \<and> delete_notice_wf d)
    \<and> (\<exists>m. poseidon_channel_create_modify_notice ssl malloc ts ch cfg = Some m
        \<and> poseidon_channel_verify_modify_notice ssl blake3 malloc m = 0 \<and> notice_fields_wf m \<and> mn_config m = cfg)"
proof -
  obtain pub where pub: "poseidon_key_pair_get_public_key ssl (ch_key_pair ch) = Some pub"
      "poseidon_node_id_verify_public_key blake3 (ch_node_id ch) pub = 0"
      "poseidon_node_id_from_string (nid_str (ch_node_id ch)) = Some (ch_node_id ch)"
      "c_string 48 (nid_str (ch_node_id ch))"
    using channel_identity [OF assms(2,4)] .
  have kt: "poseidon_key_pair_get_key_type (ch_key_pair ch) = name_ED25519"
    using assms(4) by (simp add: channel_identity_ok_def poseidon_key_pair_get_key_type_def)
  have len: "length pub \<le> 64"
    using assms(5) pub(1) by (simp add: ed25519_key_ok_def)
  define str where "str = nid_str (ch_node_id ch)"
  define n where "n = \<lparr>dn_type = 0, dn_topic_id = str, dn_node_id = str, dn_key_type = name_ED25519,
      dn_public_key = pub, dn_timestamp_us = ts, dn_signature = [], mn_config = cfg\<rparr>"
  have "notice_fields_wf n"
    using len c_string_take [OF pub(4)]
    by (simp add: n_def str_def notice_fields_wf_def POSEIDON_CHANNEL_NOTICE_MAX_PUBLIC_KEY_def)
  then obtain dbuf mbuf where buf:
      "signable_bytes malloc (build_delete_signable str str name_ED25519 pub ts) = Some dbuf"
      "signable_bytes malloc (build_modify_signable str str name_ED25519 pub ts cfg) = Some mbuf"
    using signable_bytes_ok [OF assms(3)] modify_signable_bytes_ok [OF assms(3)]
    by (fastforce simp: n_def delete_signable_def modify_signable_def)
  obtain dsig msig where sig: "poseidon_key_pair_sign ssl (ch_key_pair ch) dbuf = Some dsig" "length dsig \<le> 64"
      "poseidon_key_pair_sign ssl (ch_key_pair ch) mbuf = Some msig" "length msig \<le> 64"
    using ed25519_sign [OF assms(5)] by metis
  note simps = pub kt len sig buf [unfolded str_def] c_string_take [OF pub(4)] poseidon_channel_get_topic_def
    verify_notice_def Let_def notice_fields_wf_def delete_notice_wf_def POSEIDON_CHANNEL_NOTICE_MAX_PUBLIC_KEY_def
    POSEIDON_CHANNEL_NOTICE_MAX_SIGNATURE_def sign_verify [OF assms(1) pub(1)]
  show ?thesis
    by (simp add: simps not_less poseidon_channel_create_delete_notice_def poseidon_channel_verify_delete_notice_def
        poseidon_channel_create_modify_notice_def poseidon_channel_verify_modify_notice_def)
qed

theorem created_notices_verify_witness:
  "let ssl = \<lparr>EVP_PKEY_keygen = (\<lambda>_. Some 1), PEM_read_PrivateKey = (\<lambda>_. None), EVP_PKEY_base_id = (\<lambda>_. name_ED25519),
              i2d_PUBKEY = (\<lambda>_. Some [9]), d2i_PUBKEY = (\<lambda>_. Some 1), EVP_DigestSign = (\<lambda>_ _. Some [7]),
              EVP_DigestVerify = (\<lambda>_ _ _ s. s = [7])\<rparr>;
       blake3 = (\<lambda>_. Some (replicate 32 5));
       ch = \<lparr>ch_state = POSEIDON_CHANNEL_STATE_RUNNING,
             ch_key_pair = \<lparr>kp_id = 0, kp_pkey = 1, kp_key_type = name_ED25519\<rparr>,
             ch_node_id = the (poseidon_node_id_from_public_key blake3 [9]), ch_name = [],
             ch_config = poseidon_channel_config_defaults, ch_quasar = quasar_create None 5 3 4096 3,
             ch_listen_port = 1, ch_is_dial = False, ch_owns_key_pair = False,
             ch_subtopic_subs = [], ch_aliases = topic_alias_registry_create 32,
             ch_message_cb = True, ch_intercept_cb = False\<rparr>
   in \<exists>d. poseidon_channel_create_delete_notice ssl (\<lambda>_. True) 77 ch = Some d
        \<and> poseidon_channel_verify_delete_notice ssl blake3 (\<lambda>_. True) d = 0 \<and> delete_notice_wf d"
proof -
  obtain nid where nid: "poseidon_node_id_from_public_key (\<lambda>_. Some (replicate 32 5)) [9] = Some nid"
    using node_id_from_key [of "\<lambda>_. Some (replicate 32 5)" "[9]" "replicate 32 5"] by auto
  show ?thesis
    unfolding Let_def
    by (rule created_notices_verify [THEN conjunct1])
      (simp_all add: openssl_ok_def blake3_ok_def malloc_ok_def channel_identity_ok_def ed25519_key_ok_def
        poseidon_key_pair_get_public_key_def nid)
qed

text \<open>
  C18. The signature covers the notice: the bytes that are signed determine every field
  of the notice, the configuration of a modify notice included, and no delete notice
  shares its bytes with a modify notice. A signature can therefore not be moved to a
  notice about another topic, key, time or configuration.
\<close>

theorem signature_covers_notice:
  assumes "malloc_ok malloc" "delete_notice_wf d" "delete_notice_wf d'" "modify_notice_wf m" "modify_notice_wf m'"
  shows "(\<forall>buf. signable_bytes malloc (delete_signable d) = Some buf
              \<and> signable_bytes malloc (delete_signable d') = Some buf \<longrightarrow> signed_fields d = signed_fields d')
    \<and> (\<forall>buf. signable_bytes malloc (modify_signable m) = Some buf
              \<and> signable_bytes malloc (modify_signable m') = Some buf \<longrightarrow>
            signed_fields m = signed_fields m' \<and> mn_config m = mn_config m')
    \<and> (\<forall>buf. \<not> (signable_bytes malloc (delete_signable d) = Some buf
                \<and> signable_bytes malloc (modify_signable m) = Some buf))"
proof -
  have wf: "notice_fields_wf d" "notice_fields_wf d'" "notice_fields_wf m"
    using assms by (simp_all add: delete_notice_wf_def modify_notice_wf_def)
  show ?thesis
    using delete_signable_inj [OF assms(1) wf(1,2)] modify_signable_inj [OF assms(1,4,5)]
      signable_kinds_differ [OF assms(1) wf(1,3)] by blast
qed

theorem signature_covers_notice_witness:
  "let d = \<lparr>dn_type = 60, dn_topic_id = [65], dn_node_id = [66], dn_key_type = [67], dn_public_key = [1, 2],
            dn_timestamp_us = 5, dn_signature = [3]\<rparr>;
       m = \<lparr>dn_type = 61, dn_topic_id = [65], dn_node_id = [66], dn_key_type = [67], dn_public_key = [1, 2],
            dn_timestamp_us = 5, dn_signature = [3], mn_config = poseidon_channel_config_defaults\<rparr>
   in \<forall>buf. \<not> (signable_bytes (\<lambda>_. True) (delete_signable d) = Some buf
                \<and> signable_bytes (\<lambda>_. True) (modify_signable m) = Some buf)"
  unfolding Let_def
  by (rule signature_covers_notice
      [where d' = "\<lparr>dn_type = 60, dn_topic_id = [65], dn_node_id = [66], dn_key_type = [67], dn_public_key = [1, 2],
            dn_timestamp_us = 5, dn_signature = [3]\<rparr>"
         and m' = "\<lparr>dn_type = 61, dn_topic_id = [65], dn_node_id = [66], dn_key_type = [67], dn_public_key = [1, 2],
            dn_timestamp_us = 5, dn_signature = [3], mn_config = poseidon_channel_config_defaults\<rparr>",
       THEN conjunct2, THEN conjunct2])
    (simp_all add: malloc_ok_def delete_notice_wf_def modify_notice_wf_def notice_fields_wf_def c_string_def
      POSEIDON_CHANNEL_NOTICE_MAX_PUBLIC_KEY_def POSEIDON_CHANNEL_NOTICE_MAX_SIGNATURE_def
      MERIDIAN_PACKET_TYPE_CHANNEL_DELETE_NOTICE_def MERIDIAN_PACKET_TYPE_CHANNEL_MODIFY_NOTICE_def
      poseidon_channel_config_defaults_def)

end
