(* ===== verification/ChannelManager.thy ===== *)
theory ChannelManager
  imports Notice
begin

text \<open>
  The channel manager (\<open>src/Channel/channel_manager.c\<close>): the dial channel and the
  channels of a node, the bootstrap protocol that joins a channel, the handlers of
  signed notices, tombstones and the session registry.

  Channels are objects on a heap, because the list of pending bootstraps keeps
  pointers to them: using one that was destroyed is \<open>Undefined\<close>. The manager listens
  on the dial channel's overlay through the intercept callback, and its handlers
  publish on that overlay again; a publication on a topic the dial channel subscribes
  to therefore calls the handlers recursively. \<open>dial_publish\<close> has the number of nested
  publications the C stack has room for as a bound; running out of it is \<open>Overflow\<close>.
\<close>

section \<open>Outcomes\<close>

datatype 'a run = Done 'a | Undefined | Overflow

record pending_bootstrap =
  pb_topic_id :: bytes
  pb_timestamp_us :: u64
  pb_channel :: nat
  pb_replies :: "(u32 \<times> u16) list"

datatype poseidon_tombstone_type = POSEIDON_TOMBSTONE_DELETE | POSEIDON_TOMBSTONE_MODIFY

text \<open>\<open>ts_config\<close> is None when \<open>has_config\<close> is false.\<close>

record poseidon_tombstone =
  ts_type :: poseidon_tombstone_type
  ts_topic_id :: bytes
  ts_node_id :: bytes
  ts_key_type :: bytes
  ts_public_key :: bytes
  ts_timestamp_us :: u64
  ts_expires_at_us :: u64
  ts_signature :: bytes
  ts_config :: "poseidon_channel_config option"

text \<open>
  \<open>m_next\<close> is the next object to allocate and \<open>m_draws\<close> the number of message
  identifiers drawn so far.
\<close>

record poseidon_channel_manager =
  m_dial :: poseidon_channel
  m_heap :: "nat \<Rightarrow> poseidon_channel option"
  m_next :: nat
  m_channels :: "nat list"
  m_next_port :: u16
  m_port_range_start :: u16
  m_port_range_end :: u16
  m_pending :: "pending_bootstrap list"
  m_tombstones :: "poseidon_tombstone list"
  m_sessions :: "nat list"
  m_draws :: nat

definition POSEIDON_CHANNEL_MANAGER_MAX_CHANNELS :: nat where "POSEIDON_CHANNEL_MANAGER_MAX_CHANNELS = 32"
definition POSEIDON_SESSION_REGISTRY_MAX :: nat where "POSEIDON_SESSION_REGISTRY_MAX = 256"
definition POSEIDON_MAX_PENDING_BOOTSTRAPS :: nat where "POSEIDON_MAX_PENDING_BOOTSTRAPS = 16"
definition POSEIDON_BOOTSTRAP_REPLY_ADDRS_MAX :: nat where "POSEIDON_BOOTSTRAP_REPLY_ADDRS_MAX = 16"
definition POSEIDON_TOMBSTONE_MAX :: nat where "POSEIDON_TOMBSTONE_MAX = 64"
definition POSEIDON_TOMBSTONE_DEFAULT_TTL_SECONDS :: u64 where "POSEIDON_TOMBSTONE_DEFAULT_TTL_SECONDS = 90 * 24 * 3600"

text \<open>What the operations take from outside: OpenSSL, hashes, the allocator, message identifiers and the clocks.\<close>

record mgr_env =
  me_ssl :: openssl
  me_blake3 :: "bytes \<Rightarrow> bytes option"
  me_xxh :: hash_fn
  me_malloc :: "nat \<Rightarrow> bool"
  me_mids :: "nat \<Rightarrow> quasar_message_id"
  me_realtime_us :: u64
  me_monotonic_us :: u64

text \<open>An action on the manager, with its result and effects.\<close>

type_synonym 'a act = "poseidon_channel_manager \<Rightarrow> ('a \<times> poseidon_channel_manager \<times> channel_effect list) run"

definition act_ret :: "'a \<Rightarrow> 'a act" where
  "act_ret x m = Done (x, m, [])"

definition act_bind :: "'a act \<Rightarrow> ('a \<Rightarrow> 'b act) \<Rightarrow> 'b act" where
  "act_bind a f m =
     (case a m of
        Done (x, m', es) \<Rightarrow>
          (case f x m' of
             Done (y, m'', es') \<Rightarrow> Done (y, m'', es @ es')
           | Undefined \<Rightarrow> Undefined
           | Overflow \<Rightarrow> Overflow)
      | Undefined \<Rightarrow> Undefined
      | Overflow \<Rightarrow> Overflow)"

definition act_get :: "(poseidon_channel_manager \<Rightarrow> 'a) \<Rightarrow> 'a act" where
  "act_get f m = Done (f m, m, [])"

definition act_upd :: "(poseidon_channel_manager \<Rightarrow> 'a \<times> poseidon_channel_manager) \<Rightarrow> 'a act" where
  "act_upd f m = (case f m of (x, m') \<Rightarrow> Done (x, m', []))"

definition act_emit :: "channel_effect list \<Rightarrow> unit act" where
  "act_emit es m = Done ((), m, es)"

definition act_cres :: "'a cres \<Rightarrow> ('a option \<Rightarrow> 'b act) \<Rightarrow> 'b act" where
  "act_cres r k = (case r of Ret x \<Rightarrow> k (Some x) | Fail \<Rightarrow> k None | Undef \<Rightarrow> (\<lambda>_. Undefined))"

section \<open>Channels\<close>

text \<open>The loop over the channels that several operations share; a freed channel is not readable.\<close>

fun find_chan ::
  "(poseidon_channel \<Rightarrow> bool) \<Rightarrow> (nat \<Rightarrow> poseidon_channel option) \<Rightarrow> nat list \<Rightarrow> nat option run" where
  "find_chan P heap [] = Done None"
| "find_chan P heap (p # ps) =
     (case heap p of
        None \<Rightarrow> Undefined
      | Some c \<Rightarrow> if P c then Done (Some p) else find_chan P heap ps)"

definition act_find_chan :: "(poseidon_channel \<Rightarrow> bool) \<Rightarrow> nat option act" where
  "act_find_chan P m =
     (case find_chan P (m_heap m) (m_channels m) of
        Done r \<Rightarrow> Done (r, m, [])
      | Undefined \<Rightarrow> Undefined
      | Overflow \<Rightarrow> Overflow)"

definition act_channel :: "nat \<Rightarrow> (poseidon_channel \<Rightarrow> 'a \<times> poseidon_channel \<times> channel_effect list) \<Rightarrow> 'a act" where
  "act_channel p f m =
     (case m_heap m p of
        None \<Rightarrow> Undefined
      | Some c \<Rightarrow> (case f c of (x, c', es) \<Rightarrow> Done (x, m\<lparr>m_heap := (m_heap m)(p \<mapsto> c')\<rparr>, es)))"

definition allocate_port :: "poseidon_channel_manager \<Rightarrow> u16 \<times> poseidon_channel_manager" where
  "allocate_port m =
     (if m_next_port m > m_port_range_end m then (0, m)
      else (m_next_port m, m\<lparr>m_next_port := m_next_port m + 1\<rparr>))"

definition poseidon_channel_manager_create ::
  "mgr_env \<Rightarrow> channel_env \<Rightarrow> poseidon_key_pair option \<Rightarrow> u16 \<Rightarrow> u16 \<Rightarrow> u16 \<Rightarrow> poseidon_channel_manager option" where
  "poseidon_channel_manager_create env cenv dial_key_pair dial_port port_range_start port_range_end =
     (if dial_key_pair = None \<or> port_range_end \<le> port_range_start then None
      else case poseidon_channel_create (me_ssl env) (me_blake3 env) cenv dial_key_pair
                  (Some [0x64, 0x69, 0x61, 0x6C]) dial_port poseidon_channel_config_defaults of
        None \<Rightarrow> None
      | Some dial \<Rightarrow>
          Some \<lparr>m_dial = poseidon_channel_enable_quasar_message (dial\<lparr>ch_is_dial := True, ch_intercept_cb := True\<rparr>),
                m_heap = (\<lambda>_. None), m_next = 0, m_channels = [], m_next_port = port_range_start,
                m_port_range_start = port_range_start, m_port_range_end = port_range_end, m_pending = [],
                m_tombstones = [], m_sessions = [], m_draws = 0\<rparr>)"

text \<open>A channel that was created becomes an object and the last entry of the channels.\<close>

definition add_channel :: "poseidon_channel \<Rightarrow> poseidon_channel_manager \<Rightarrow> nat \<times> poseidon_channel_manager" where
  "add_channel c m =
     (m_next m, m\<lparr>m_heap := (m_heap m)(m_next m \<mapsto> c), m_next := Suc (m_next m),
                  m_channels := m_channels m @ [m_next m]\<rparr>)"

definition poseidon_channel_manager_create_channel ::
  "mgr_env \<Rightarrow> channel_env \<Rightarrow> bytes option \<Rightarrow> bytes option \<Rightarrow> poseidon_channel_config \<Rightarrow> poseidon_channel_manager
     \<Rightarrow> nat option \<times> poseidon_channel_manager" where
  "poseidon_channel_manager_create_channel env cenv key_type name config m =
     (if length (m_channels m) \<ge> POSEIDON_CHANNEL_MANAGER_MAX_CHANNELS then (None, m)
      else
        let (port, m1) = allocate_port m
        in if port = 0 then (None, m1)
           else case poseidon_key_pair_create (me_ssl env) (m_next m1) key_type of
             None \<Rightarrow> (None, m1)
           | Some kp \<Rightarrow>
               (case poseidon_channel_create (me_ssl env) (me_blake3 env) cenv (Some kp) name port config of
                  None \<Rightarrow> (None, m1)
                | Some c \<Rightarrow> (case add_channel c m1 of (p, m2) \<Rightarrow> (Some p, m2))))"

text \<open>The locked part of \<open>poseidon_channel_manager_join_channel\<close>.\<close>

definition join_register ::
  "mgr_env \<Rightarrow> channel_env \<Rightarrow> bytes \<Rightarrow> poseidon_channel_manager \<Rightarrow> nat option \<times> poseidon_channel_manager" where
  "join_register env cenv topic_str m =
     (if length (m_channels m) \<ge> POSEIDON_CHANNEL_MANAGER_MAX_CHANNELS then (None, m)
      else if length (m_pending m) \<ge> POSEIDON_MAX_PENDING_BOOTSTRAPS then (None, m)
      else
        let (port, m1) = allocate_port m
        in if port = 0 then (None, m1)
           else case poseidon_channel_create (me_ssl env) (me_blake3 env) cenv None (Some topic_str) port
                       poseidon_channel_config_defaults of
             None \<Rightarrow> (None, m1)
           | Some c \<Rightarrow>
               (case add_channel (c\<lparr>ch_state := POSEIDON_CHANNEL_STATE_BOOTSTRAPPING\<rparr>) m1 of
                  (p, m2) \<Rightarrow>
                    (Some p, m2\<lparr>m_pending := m_pending m2
                       @ [\<lparr>pb_topic_id = take 63 topic_str, pb_timestamp_us = me_realtime_us env,
                           pb_channel = p, pb_replies = []\<rparr>]\<rparr>)))"

definition poseidon_channel_manager_destroy_channel :: "poseidon_node_id \<Rightarrow> int act" where
  "poseidon_channel_manager_destroy_channel node_id m =
     (case find_chan (\<lambda>c. poseidon_node_id_compare (Some (ch_node_id c)) (Some node_id) = 0) (m_heap m) (m_channels m) of
        Done None \<Rightarrow> Done (- 1, m, [])
      | Done (Some p) \<Rightarrow>
          (case find_index (\<lambda>q. q = p) (m_channels m) of
             None \<Rightarrow> Done (- 1, m, [])
           | Some i \<Rightarrow>
               Done (0, m\<lparr>m_heap := (m_heap m)(p := None), m_channels := swap_remove i (m_channels m)\<rparr>, []))
      | Undefined \<Rightarrow> Undefined
      | Overflow \<Rightarrow> Overflow)"

definition poseidon_channel_manager_find_channel :: "poseidon_node_id \<Rightarrow> nat option act" where
  "poseidon_channel_manager_find_channel node_id =
     act_find_chan (\<lambda>c. poseidon_node_id_compare (Some (ch_node_id c)) (Some node_id) = 0)"

section \<open>Tombstones\<close>

definition add_tombstone :: "poseidon_tombstone \<Rightarrow> poseidon_tombstone list \<Rightarrow> int \<times> poseidon_tombstone list" where
  "add_tombstone t ts =
     (if list_ex (\<lambda>u. ts_topic_id u = ts_topic_id t) ts then
        (0, update_first (\<lambda>u. ts_topic_id u = ts_topic_id t)
              (\<lambda>u. if ts_timestamp_us t > ts_timestamp_us u then t else u) ts)
      else if length ts \<ge> POSEIDON_TOMBSTONE_MAX then (- 1, ts)
      else (0, ts @ [t]))"

definition poseidon_channel_manager_add_tombstone ::
  "poseidon_tombstone \<Rightarrow> poseidon_channel_manager \<Rightarrow> int \<times> poseidon_channel_manager" where
  "poseidon_channel_manager_add_tombstone t m =
     (case add_tombstone t (m_tombstones m) of (rc, ts) \<Rightarrow> (rc, m\<lparr>m_tombstones := ts\<rparr>))"

definition poseidon_channel_manager_find_tombstone ::
  "poseidon_channel_manager \<Rightarrow> bytes \<Rightarrow> poseidon_tombstone option" where
  "poseidon_channel_manager_find_tombstone m topic_id = find (\<lambda>t. ts_topic_id t = topic_id) (m_tombstones m)"

definition poseidon_channel_manager_expire_tombstones ::
  "u64 \<Rightarrow> poseidon_channel_manager \<Rightarrow> poseidon_channel_manager" where
  "poseidon_channel_manager_expire_tombstones now_us m =
     m\<lparr>m_tombstones := filter (\<lambda>t. ts_expires_at_us t > now_us) (m_tombstones m)\<rparr>"

definition poseidon_tombstone_from_delete_notice ::
  "u64 \<Rightarrow> 'a meridian_channel_delete_notice_scheme \<Rightarrow> poseidon_tombstone" where
  "poseidon_tombstone_from_delete_notice now_us notice =
     \<lparr>ts_type = POSEIDON_TOMBSTONE_DELETE, ts_topic_id = take 63 (dn_topic_id notice),
      ts_node_id = take 63 (dn_node_id notice), ts_key_type = take 15 (dn_key_type notice),
      ts_public_key = (if length (dn_public_key notice) \<le> 64 then dn_public_key notice else []),
      ts_timestamp_us = dn_timestamp_us notice,
      ts_expires_at_us = now_us + POSEIDON_TOMBSTONE_DEFAULT_TTL_SECONDS * 1000000,
      ts_signature = (if length (dn_signature notice) \<le> 64 then dn_signature notice else []),
      ts_config = None\<rparr>"

definition poseidon_tombstone_from_modify_notice ::
  "u64 \<Rightarrow> meridian_channel_modify_notice \<Rightarrow> poseidon_tombstone" where
  "poseidon_tombstone_from_modify_notice now_us notice =
     (poseidon_tombstone_from_delete_notice now_us notice)
       \<lparr>ts_type := POSEIDON_TOMBSTONE_MODIFY, ts_config := Some (mn_config notice)\<rparr>"

section \<open>Bootstrap\<close>

definition poseidon_channel_manager_handle_bootstrap_reply ::
  "bytes \<Rightarrow> u32 \<Rightarrow> u16 \<Rightarrow> u64 \<Rightarrow> (u32 \<times> u16) list \<Rightarrow> int act" where
  "poseidon_channel_manager_handle_bootstrap_reply topic_id addr port timestamp_us seeds m =
     (case find_index (\<lambda>pb. pb_topic_id pb = topic_id \<and> pb_timestamp_us pb = timestamp_us) (m_pending m) of
        None \<Rightarrow> Done (- 1, m, [])
      | Some i \<Rightarrow>
          let pb = m_pending m ! i;
              replies = (if length (pb_replies pb) < POSEIDON_BOOTSTRAP_REPLY_ADDRS_MAX
                         then pb_replies pb @ [(addr, port)] else pb_replies pb)
          in if length replies = 1 then
               case m_heap m (pb_channel pb) of
                 None \<Rightarrow> Undefined
               | Some c \<Rightarrow>
                   Done (0, m\<lparr>m_heap := (m_heap m)(pb_channel pb \<mapsto> c\<lparr>ch_state := POSEIDON_CHANNEL_STATE_RUNNING\<rparr>),
                              m_pending := take i (m_pending m) @ drop (Suc i) (m_pending m)\<rparr>,
                         Connect addr port # map (\<lambda>(a, p). Add_seed a p) (take 16 seeds))
             else Done (0, m\<lparr>m_pending := (m_pending m)[i := pb\<lparr>pb_replies := replies\<rparr>]\<rparr>, []))"

text \<open>
  Publishing what an encoder made on the dial channel; \<open>pub\<close> is
  \<open>poseidon_channel_publish\<close> on it, \<open>rc\<close> the result when there is nothing to publish.
\<close>

definition publish_item ::
  "(bytes \<Rightarrow> bytes \<Rightarrow> int act) \<Rightarrow> mgr_env \<Rightarrow> int \<Rightarrow> bytes \<Rightarrow> cbor_item option \<Rightarrow> int act" where
  "publish_item pub env rc topic item =
     (case item of
        None \<Rightarrow> act_ret rc
      | Some it \<Rightarrow>
          (case cbor_serialize_alloc (me_malloc env) it of
             None \<Rightarrow> act_ret rc
           | Some buf \<Rightarrow> pub topic buf))"

definition tombstone_notice :: "poseidon_tombstone \<Rightarrow> meridian_channel_delete_notice" where
  "tombstone_notice t =
     \<lparr>dn_type = MERIDIAN_PACKET_TYPE_CHANNEL_DELETE_NOTICE, dn_topic_id = take 63 (ts_topic_id t),
      dn_node_id = take 63 (ts_node_id t), dn_key_type = take 15 (ts_key_type t),
      dn_public_key = ts_public_key t, dn_timestamp_us = ts_timestamp_us t, dn_signature = ts_signature t\<rparr>"

text \<open>Without a configuration the cleared one of the tombstone is sent.\<close>

definition cleared_config :: poseidon_channel_config where
  "cleared_config =
     \<lparr>cfg_ring_sizes = replicate MERIDIAN_MAX_RINGS 0, cfg_gossip_init_interval_s = 0,
      cfg_gossip_steady_interval_s = 0, cfg_gossip_num_init_intervals = 0, cfg_quasar_max_hops = 0,
      cfg_quasar_alpha = 0, cfg_quasar_seen_size = 0, cfg_quasar_seen_hashes = 0\<rparr>"

definition tombstone_modify_notice :: "poseidon_tombstone \<Rightarrow> meridian_channel_modify_notice" where
  "tombstone_modify_notice t =
     meridian_channel_delete_notice.extend
       ((tombstone_notice t)\<lparr>dn_type := MERIDIAN_PACKET_TYPE_CHANNEL_MODIFY_NOTICE\<rparr>)
       (meridian_channel_modify_notice.fields (case ts_config t of None \<Rightarrow> cleared_config | Some c \<Rightarrow> c))"

definition tombstone_item :: "poseidon_tombstone \<Rightarrow> cbor_item option" where
  "tombstone_item t =
     (case ts_type t of
        POSEIDON_TOMBSTONE_DELETE \<Rightarrow> meridian_channel_delete_notice_encode (tombstone_notice t)
      | POSEIDON_TOMBSTONE_MODIFY \<Rightarrow> meridian_channel_modify_notice_encode (tombstone_modify_notice t))"

definition dial_local_node :: "poseidon_channel_manager \<Rightarrow> u32 \<times> u16" where
  "dial_local_node m = (case q_protocol (ch_quasar (m_dial m)) of None \<Rightarrow> (0, 0) | Some pv \<Rightarrow> mv_local pv)"

definition poseidon_channel_manager_handle_bootstrap_request ::
  "(bytes \<Rightarrow> bytes \<Rightarrow> int act) \<Rightarrow> mgr_env \<Rightarrow> bytes \<Rightarrow> int act" where
  "poseidon_channel_manager_handle_bootstrap_request pub env topic_id =
     act_bind (act_get (\<lambda>m. poseidon_channel_manager_find_tombstone m topic_id)) (\<lambda>tombstone.
       case tombstone of
         Some t \<Rightarrow> act_bind (publish_item pub env 0 topic_id (tombstone_item t)) (\<lambda>_. act_ret 0)
       | None \<Rightarrow>
           act_bind (act_find_chan (\<lambda>c. poseidon_channel_get_topic c = topic_id)) (\<lambda>member.
             case member of
               None \<Rightarrow> act_ret (- 1)
             | Some _ \<Rightarrow>
                 act_bind (act_get (\<lambda>m. (poseidon_channel_get_topic (m_dial m), dial_local_node m)))
                   (\<lambda>(responder_node_id, responder_addr, responder_port).
                      publish_item pub env (- 1) topic_id
                        (meridian_channel_bootstrap_reply_encode
                           \<lparr>br_topic_id = topic_id, br_responder_node_id = responder_node_id,
                            br_responder_addr = responder_addr, br_responder_port = responder_port,
                            br_timestamp_us = me_realtime_us env, br_seeds = []\<rparr>))))"

section \<open>Notices\<close>

definition poseidon_channel_manager_handle_delete_notice ::
  "(bytes \<Rightarrow> bytes \<Rightarrow> int act) \<Rightarrow> mgr_env \<Rightarrow> meridian_channel_delete_notice \<Rightarrow> unit act" where
  "poseidon_channel_manager_handle_delete_notice pub env notice =
     act_bind (act_upd (poseidon_channel_manager_add_tombstone
                          (poseidon_tombstone_from_delete_notice (me_monotonic_us env) notice))) (\<lambda>_.
     act_bind (act_find_chan (\<lambda>c. poseidon_channel_get_topic c = dn_topic_id notice)) (\<lambda>channel.
     act_bind (case channel of
                 None \<Rightarrow> act_ret 0
               | Some p \<Rightarrow>
                   act_bind (act_channel p (\<lambda>c. case poseidon_channel_delete_signed (me_xxh env) c of
                                                  (_, c', es) \<Rightarrow> (ch_node_id c', c', es)))
                     (\<lambda>nid. poseidon_channel_manager_destroy_channel nid)) (\<lambda>_.
     act_bind (publish_item pub env 0 (dn_topic_id notice) (meridian_channel_delete_notice_encode notice)) (\<lambda>_.
     act_ret ()))))"

definition poseidon_channel_rejoin_with_config ::
  "(bytes \<Rightarrow> bytes \<Rightarrow> int act) \<Rightarrow> mgr_env \<Rightarrow> nat \<Rightarrow> poseidon_channel_config \<Rightarrow> int act" where
  "poseidon_channel_rejoin_with_config pub env p new_config =
     act_bind (act_channel p (\<lambda>c. (nid_str (ch_node_id c), channel_rebuild (me_xxh env) c new_config, [Protocol_stop])))
       (\<lambda>str. act_bind (publish_item pub env 0 str
                          (meridian_channel_bootstrap_encode str (take 63 str) (me_realtime_us env)))
          (\<lambda>_. act_ret 0))"

definition poseidon_channel_manager_handle_modify_notice ::
  "(bytes \<Rightarrow> bytes \<Rightarrow> int act) \<Rightarrow> mgr_env \<Rightarrow> meridian_channel_modify_notice \<Rightarrow> unit act" where
  "poseidon_channel_manager_handle_modify_notice pub env notice =
     act_bind (act_upd (poseidon_channel_manager_add_tombstone
                          (poseidon_tombstone_from_modify_notice (me_monotonic_us env) notice))) (\<lambda>_.
     act_bind (act_find_chan (\<lambda>c. poseidon_channel_get_topic c = dn_topic_id notice)) (\<lambda>channel.
     act_bind (case channel of
                 None \<Rightarrow> act_ret 0
               | Some p \<Rightarrow> poseidon_channel_rejoin_with_config pub env p (mn_config notice)) (\<lambda>_.
     act_bind (publish_item pub env 0 (dn_topic_id notice) (meridian_channel_modify_notice_encode notice)) (\<lambda>_.
     act_ret ()))))"

section \<open>The dial channel\<close>

definition act_unless_failed :: "'a option \<Rightarrow> ('a \<Rightarrow> bool act) \<Rightarrow> bool act" where
  "act_unless_failed r k = (case r of None \<Rightarrow> act_ret False | Some x \<Rightarrow> k x)"

definition channel_manager_bootstrap_intercept ::
  "(bytes \<Rightarrow> bytes \<Rightarrow> int act) \<Rightarrow> mgr_env \<Rightarrow> bytes \<Rightarrow> bool act" where
  "channel_manager_bootstrap_intercept pub env data =
     (case cbor_load_item (me_malloc env) data of
        None \<Rightarrow> act_ret False
      | Some item \<Rightarrow>
          act_cres (cbind (cbor_definite_elems item) (\<lambda>items.
                    cguard (length items \<ge> 1 \<and> cbor_isa_uint (items ! 0)) (cbor_get_uint8 (items ! 0))))
            (\<lambda>r. act_unless_failed r (\<lambda>pkt_type.
               if pkt_type = MERIDIAN_PACKET_TYPE_CHANNEL_BOOTSTRAP then
                 act_cres (meridian_channel_bootstrap_decode 64 64 item) (\<lambda>r. act_unless_failed r (\<lambda>b.
                   act_bind (poseidon_channel_manager_handle_bootstrap_request pub env (cb_topic_id b))
                     (\<lambda>_. act_ret True)))
               else if pkt_type = MERIDIAN_PACKET_TYPE_CHANNEL_BOOTSTRAP_REPLY then
                 act_cres (meridian_channel_bootstrap_reply_decode 64 64 16 item) (\<lambda>r. act_unless_failed r (\<lambda>b.
                   act_bind (poseidon_channel_manager_handle_bootstrap_reply (br_topic_id b) (br_responder_addr b)
                               (br_responder_port b) (br_timestamp_us b) (br_seeds b))
                     (\<lambda>_. act_ret True)))
               else if pkt_type = MERIDIAN_PACKET_TYPE_CHANNEL_DELETE_NOTICE then
                 act_cres (meridian_channel_delete_notice_decode item) (\<lambda>r. act_unless_failed r (\<lambda>notice.
                   if poseidon_channel_verify_delete_notice (me_ssl env) (me_blake3 env) (me_malloc env) notice = 0
                   then act_bind (poseidon_channel_manager_handle_delete_notice pub env notice) (\<lambda>_. act_ret True)
                   else act_ret False))
               else if pkt_type = MERIDIAN_PACKET_TYPE_CHANNEL_MODIFY_NOTICE then
                 act_cres (meridian_channel_modify_notice_decode item) (\<lambda>r. act_unless_failed r (\<lambda>notice.
                   if poseidon_channel_verify_modify_notice (me_ssl env) (me_blake3 env) (me_malloc env) notice = 0
                   then act_bind (poseidon_channel_manager_handle_modify_notice pub env notice) (\<lambda>_. act_ret True)
                   else act_ret False))
               else act_ret False)))"

text \<open>\<open>channel_quasar_message_handler\<close> on the dial channel.\<close>

definition dial_message :: "(bytes \<Rightarrow> bytes \<Rightarrow> int act) \<Rightarrow> mgr_env \<Rightarrow> bytes \<Rightarrow> bytes \<Rightarrow> unit act" where
  "dial_message pub env topic data =
     act_bind (act_get (\<lambda>m. ch_intercept_cb (m_dial m))) (\<lambda>intercept.
     act_bind (if intercept then channel_manager_bootstrap_intercept pub env data else act_ret False) (\<lambda>handled.
       if handled then act_ret ()
       else act_bind (act_get (\<lambda>m. channel_deliver (me_malloc env) (m_dial m) topic (Some data))) (\<lambda>r.
              act_cres r (\<lambda>es. act_emit (case es of None \<Rightarrow> [] | Some es \<Rightarrow> es)))))"

definition set_dial_quasar :: "quasar \<Rightarrow> nat \<Rightarrow> poseidon_channel_manager \<Rightarrow> poseidon_channel_manager" where
  "set_dial_quasar q draws m = m\<lparr>m_dial := (m_dial m)\<lparr>ch_quasar := q\<rparr>, m_draws := m_draws m + draws\<rparr>"

text \<open>
  \<open>poseidon_channel_publish\<close> on the dial channel: when the dial channel is subscribed
  to the topic, the callback runs first, and the peers are served with the overlay as
  the callback left it.
\<close>

fun dial_publish :: "nat \<Rightarrow> mgr_env \<Rightarrow> bytes \<Rightarrow> bytes \<Rightarrow> int act" where
  "dial_publish 0 env topic data m = Overflow"
| "dial_publish (Suc n) env topic data m =
     (let q = ch_quasar (m_dial m)
      in if locally_subscribed q topic then
           act_bind (if q_on_message q then dial_message (dial_publish n env) env topic data else act_ret ()) (\<lambda>_ m1.
             let q1 = ch_quasar (m_dial m1)
             in case q_protocol q1 of
                  None \<Rightarrow> Done (0, m1, [])
                | Some pv \<Rightarrow>
                    (case publish_to_peers (me_xxh env) (\<lambda>i. me_mids env (m_draws m1 + i)) q1 topic (Some data) pv of
                       (seen, outs) \<Rightarrow>
                         Done (0, set_dial_quasar (q1\<lparr>q_seen := seen\<rparr>) (length (mv_peers pv)) m1, map Net outs))) m
         else
           (case quasar_publish (me_xxh env) (\<lambda>i. me_mids env (m_draws m + i)) q (Some topic) (Some data) of
              (rc, q', outs) \<Rightarrow> Done (rc, set_dial_quasar q' 1 m, map Net outs)))"

definition poseidon_channel_manager_join_channel ::
  "nat \<Rightarrow> mgr_env \<Rightarrow> channel_env \<Rightarrow> bytes \<Rightarrow> nat option act" where
  "poseidon_channel_manager_join_channel n env cenv topic_str =
     act_bind (act_upd (join_register env cenv topic_str)) (\<lambda>r.
       case r of
         None \<Rightarrow> act_ret None
       | Some p \<Rightarrow>
           act_bind (act_upd (\<lambda>m. case poseidon_channel_subscribe (me_xxh env) (m_dial m) (Some topic_str) 300 of
                                    (rc, dial) \<Rightarrow> (rc, m\<lparr>m_dial := dial\<rparr>))) (\<lambda>_.
           act_bind (act_get (\<lambda>m. poseidon_channel_get_topic (m_dial m))) (\<lambda>sender.
           act_bind (publish_item (dial_publish n env) env 0 topic_str
                       (meridian_channel_bootstrap_encode topic_str sender (me_realtime_us env))) (\<lambda>_.
           act_ret (Some p)))))"

text \<open>A route message arrives at the dial channel's overlay; its callback runs before the packets are sent.\<close>

definition dial_on_route_message :: "nat \<Rightarrow> mgr_env \<Rightarrow> quasar_route_message \<Rightarrow> int act" where
  "dial_on_route_message n env msg m =
     (case quasar_on_route_message (me_xxh env) (ch_quasar (m_dial m)) msg of
        (rc, q, msg', outs) \<Rightarrow>
          act_bind (case outs of
                      Deliver topic (Some data) # _ \<Rightarrow> dial_message (dial_publish n env) env topic data
                    | _ \<Rightarrow> act_ret ()) (\<lambda>_.
          act_bind (act_emit (map Net (filter (\<lambda>e. case e of Deliver _ _ \<Rightarrow> False | _ \<Rightarrow> True) outs))) (\<lambda>_.
          act_ret rc)) (set_dial_quasar q 0 m))"

section \<open>Periodic operations and sessions\<close>

fun act_channels :: "(poseidon_channel \<Rightarrow> int \<times> poseidon_channel \<times> channel_effect list) \<Rightarrow> nat list \<Rightarrow> int \<Rightarrow> int act" where
  "act_channels f [] rc = act_ret rc"
| "act_channels f (p # ps) rc = act_bind (act_channel p f) (\<lambda>r. act_channels f ps (or rc r))"

definition poseidon_channel_manager_tick_all :: "mgr_env \<Rightarrow> int act" where
  "poseidon_channel_manager_tick_all env =
     act_bind (act_upd (\<lambda>m. case poseidon_channel_tick (me_xxh env) (m_dial m) of
                              (rc, dial) \<Rightarrow> (rc, m\<lparr>m_dial := dial\<rparr>))) (\<lambda>rc.
     act_bind (act_get m_channels) (\<lambda>ps.
     act_bind (act_channels (\<lambda>c. case poseidon_channel_tick (me_xxh env) c of (r, c') \<Rightarrow> (r, c', [])) ps rc) (\<lambda>rc.
     act_upd (\<lambda>m. (rc, poseidon_channel_manager_expire_tombstones (me_monotonic_us env) m)))))"

definition poseidon_channel_manager_gossip_all :: "mgr_env \<Rightarrow> int \<Rightarrow> int \<Rightarrow> int act" where
  "poseidon_channel_manager_gossip_all env grc brc =
     act_bind (act_get (\<lambda>m. poseidon_channel_gossip (me_malloc env) grc brc (m_dial m))) (\<lambda>(rc, es).
     act_bind (act_emit es) (\<lambda>_.
     act_bind (act_get m_channels) (\<lambda>ps.
     act_channels (\<lambda>c. case poseidon_channel_gossip (me_malloc env) grc brc c of (r, es) \<Rightarrow> (r, c, es)) ps rc)))"

definition poseidon_channel_manager_register_session ::
  "nat \<Rightarrow> poseidon_channel_manager \<Rightarrow> int \<times> poseidon_channel_manager" where
  "poseidon_channel_manager_register_session session m =
     (if length (m_sessions m) \<ge> POSEIDON_SESSION_REGISTRY_MAX then (- 1, m)
      else (0, m\<lparr>m_sessions := m_sessions m @ [session]\<rparr>))"

definition poseidon_channel_manager_unregister_session ::
  "nat \<Rightarrow> poseidon_channel_manager \<Rightarrow> int \<times> poseidon_channel_manager" where
  "poseidon_channel_manager_unregister_session session m =
     (case find_index (\<lambda>s. s = session) (m_sessions m) of
        None \<Rightarrow> (- 1, m)
      | Some i \<Rightarrow> (0, m\<lparr>m_sessions := swap_remove i (m_sessions m)\<rparr>))"

section \<open>Invariants of the handlers\<close>

text \<open>An action keeps a predicate when every manager it returns satisfies it again.\<close>

definition keeps :: "(poseidon_channel_manager \<Rightarrow> bool) \<Rightarrow> 'a act \<Rightarrow> bool" where
  "keeps I a \<longleftrightarrow> (\<forall>m x m' es. I m \<longrightarrow> a m = Done (x, m', es) \<longrightarrow> I m')"

named_theorems keeps_intros "actions that keep an invariant"

lemma keepsD: "keeps I a \<Longrightarrow> I m \<Longrightarrow> a m = Done (x, m', es) \<Longrightarrow> I m'"
  by (auto simp: keeps_def)

lemma keeps_ret [keeps_intros]: "keeps I (act_ret x)"
  by (simp add: keeps_def act_ret_def)

lemma keeps_get [keeps_intros]: "keeps I (act_get f)"
  by (simp add: keeps_def act_get_def)

lemma keeps_emit [keeps_intros]: "keeps I (act_emit es)"
  by (simp add: keeps_def act_emit_def)

lemma keeps_upd: "(\<And>m. I m \<Longrightarrow> I (snd (f m))) \<Longrightarrow> keeps I (act_upd f)"
  unfolding keeps_def act_upd_def
proof (intro allI impI)
  fix m x m' es
  assume "\<And>m. I m \<Longrightarrow> I (snd (f m))" "I m" "(case f m of (x, m') \<Rightarrow> Done (x, m', [])) = Done (x, m', es)"
  then show "I m'"
    by (cases "f m") (metis Pair_inject run.inject old.prod.case snd_conv)
qed

lemma act_bind_Done:
  "act_bind a f m = Done (y, m'', es) \<longleftrightarrow>
     (\<exists>x m' es1 es2. a m = Done (x, m', es1) \<and> f x m' = Done (y, m'', es2) \<and> es = es1 @ es2)"
  by (cases "a m") (auto simp: act_bind_def split: run.splits prod.splits)

lemma keeps_bind [keeps_intros]: "keeps I a \<Longrightarrow> (\<And>x. keeps I (f x)) \<Longrightarrow> keeps I (act_bind a f)"
  unfolding keeps_def act_bind_Done by blast

lemma keeps_cres [keeps_intros]: "(\<And>x. keeps I (k x)) \<Longrightarrow> keeps I (act_cres r k)"
  by (cases r) (simp_all add: act_cres_def, simp add: keeps_def)

lemma keeps_find_chan [keeps_intros]: "keeps I (act_find_chan P)"
  by (auto simp: keeps_def act_find_chan_def split: run.splits)

lemma keeps_unless [keeps_intros]: "(\<And>x. keeps I (k x)) \<Longrightarrow> keeps I (act_unless_failed r k)"
  by (cases r) (simp_all add: act_unless_failed_def keeps_intros)

lemma keeps_if [keeps_intros]: "keeps I a \<Longrightarrow> keeps I b \<Longrightarrow> keeps I (if c then a else b)"
  by simp

lemma keeps_case_option [keeps_intros]:
  "keeps I a \<Longrightarrow> (\<And>x. keeps I (f x)) \<Longrightarrow> keeps I (case r of None \<Rightarrow> a | Some x \<Rightarrow> f x)"
  by (cases r) simp_all

lemma keeps_case_prod [keeps_intros]: "(\<And>x y. keeps I (f x y)) \<Longrightarrow> keeps I (case r of (x, y) \<Rightarrow> f x y)"
  by (cases r) simp

text \<open>Publishing and routing change nothing of an overlay but the messages it has seen.\<close>

lemma seen_same: "\<exists>s. q = q\<lparr>q_seen := s\<rparr>" "\<exists>s. q\<lparr>q_seen := t\<rparr> = q\<lparr>q_seen := s\<rparr>"
  by (rule exI [of _ "q_seen q"], simp) blast

lemma quasar_publish_seen: "\<exists>s. fst (snd (quasar_publish xxh mids q topic data)) = q\<lparr>q_seen := s\<rparr>"
  by (simp add: quasar_publish_def Let_def split_def seen_same split: option.split)

lemma quasar_on_route_message_seen: "\<exists>s. fst (snd (quasar_on_route_message xxh q msg)) = q\<lparr>q_seen := s\<rparr>"
  by (simp add: quasar_on_route_message_def Let_def split_def seen_same split: option.split)

lemma quasar_subscribe_on_message: "q_on_message (snd (quasar_subscribe xxh q topic ttl)) = q_on_message q"
  by (auto simp: quasar_subscribe_def Let_def split_def split: option.splits)

lemma quasar_tick_on_message: "q_on_message (snd (quasar_tick xxh q)) = q_on_message q"
  by (simp add: quasar_tick_def split_def Let_def)

text \<open>
  The interface between the state of the manager and its handlers: a predicate that
  survives the elementary updates survives every handler, however deep the handlers
  call each other through the dial channel.
\<close>

locale manager_handlers =
  fixes I :: "poseidon_channel_manager \<Rightarrow> bool"
  assumes heap_upd: "I m \<Longrightarrow> m_heap m p = Some c \<Longrightarrow> I (m\<lparr>m_heap := (m_heap m)(p \<mapsto> c')\<rparr>)"
    and tombstone_upd: "I m \<Longrightarrow> I (snd (poseidon_channel_manager_add_tombstone t m))"
    and pending_upd: "I m \<Longrightarrow> length ps \<le> length (m_pending m) \<Longrightarrow>
      pb_channel ` set ps \<subseteq> pb_channel ` set (m_pending m) \<Longrightarrow> I (m\<lparr>m_pending := ps\<rparr>)"
    and destroy_upd: "I m \<Longrightarrow> poseidon_channel_manager_destroy_channel nid m = Done (r, m', es) \<Longrightarrow> I m'"
    and seen_upd: "I m \<Longrightarrow> I (set_dial_quasar ((ch_quasar (m_dial m))\<lparr>q_seen := s\<rparr>) n m)"
begin

lemma keeps_channel [keeps_intros]: "keeps I (act_channel p f)"
  by (auto simp: keeps_def act_channel_def heap_upd split: option.splits prod.splits)

lemma keeps_tombstone [keeps_intros]: "keeps I (act_upd (poseidon_channel_manager_add_tombstone t))"
  by (rule keeps_upd) (rule tombstone_upd)

lemma keeps_destroy [keeps_intros]: "keeps I (poseidon_channel_manager_destroy_channel nid)"
  using destroy_upd by (auto simp: keeps_def)

lemma keeps_reply [keeps_intros]: "keeps I (poseidon_channel_manager_handle_bootstrap_reply t a p ts seeds)"
  unfolding keeps_def
proof (intro allI impI)
  fix m x m' es
  assume m: "I m" and run: "poseidon_channel_manager_handle_bootstrap_reply t a p ts seeds m = Done (x, m', es)"
  show "I m'"
  proof (cases "find_index (\<lambda>pb. pb_topic_id pb = t \<and> pb_timestamp_us pb = ts) (m_pending m)")
    case None
    with run m show ?thesis
      by (simp add: poseidon_channel_manager_handle_bootstrap_reply_def)
  next
    case (Some i)
    then have i: "i < length (m_pending m)"
      using find_index_SomeD by blast
    let ?pb = "m_pending m ! i"
    have drop: "I (m1\<lparr>m_pending := take i (m_pending m1) @ drop (Suc i) (m_pending m1)\<rparr>)" if "I m1" "m_pending m1 = m_pending m" for m1
      using that i by (intro pending_upd) (auto dest: in_set_takeD in_set_dropD)
    have upd: "I (m\<lparr>m_pending := (m_pending m)[i := ?pb\<lparr>pb_replies := rs\<rparr>]\<rparr>)" for rs
      using m i by (intro pending_upd) (auto dest!: set_update_subset_insert [THEN subsetD])
    from run Some show ?thesis
      using m upd drop [OF heap_upd [OF m]]
      by (auto simp: poseidon_channel_manager_handle_bootstrap_reply_def Let_def split: if_splits option.splits)
  qed
qed

lemma keeps_publish_item [keeps_intros]:
  "(\<And>t d. keeps I (pub t d)) \<Longrightarrow> keeps I (publish_item pub env rc topic item)"
  by (auto simp: publish_item_def intro: keeps_intros split: option.split)

lemma keeps_request [keeps_intros]:
  "(\<And>t d. keeps I (pub t d)) \<Longrightarrow> keeps I (poseidon_channel_manager_handle_bootstrap_request pub env t)"
  unfolding poseidon_channel_manager_handle_bootstrap_request_def by (intro keeps_intros)

lemma keeps_delete [keeps_intros]:
  "(\<And>t d. keeps I (pub t d)) \<Longrightarrow> keeps I (poseidon_channel_manager_handle_delete_notice pub env n)"
  unfolding poseidon_channel_manager_handle_delete_notice_def by (intro keeps_intros)

lemma keeps_rejoin [keeps_intros]:
  "(\<And>t d. keeps I (pub t d)) \<Longrightarrow> keeps I (poseidon_channel_rejoin_with_config pub env p cfg)"
  unfolding poseidon_channel_rejoin_with_config_def by (intro keeps_intros)

lemma keeps_modify [keeps_intros]:
  "(\<And>t d. keeps I (pub t d)) \<Longrightarrow> keeps I (poseidon_channel_manager_handle_modify_notice pub env n)"
  unfolding poseidon_channel_manager_handle_modify_notice_def by (intro keeps_intros)

lemma keeps_intercept [keeps_intros]:
  "(\<And>t d. keeps I (pub t d)) \<Longrightarrow> keeps I (channel_manager_bootstrap_intercept pub env data)"
  unfolding channel_manager_bootstrap_intercept_def by (intro keeps_intros)

lemma keeps_dial_message [keeps_intros]:
  "(\<And>t d. keeps I (pub t d)) \<Longrightarrow> keeps I (dial_message pub env topic data)"
  unfolding dial_message_def by (intro keeps_intros)

lemma keeps_publish [keeps_intros]: "keeps I (dial_publish n env topic data)"
proof (induction n arbitrary: topic data)
  case 0
  show ?case
    by (simp add: keeps_def)
next
  case (Suc n)
  have cb: "keeps I (if b then dial_message (dial_publish n env) env topic data else act_ret ())" for b
    by (intro keeps_intros Suc.IH)
  show ?case
    unfolding keeps_def
  proof (intro allI impI)
    fix m x m' es
    assume m: "I m" and run: "dial_publish (Suc n) env topic data m = Done (x, m', es)"
    show "I m'"
    proof (cases "locally_subscribed (ch_quasar (m_dial m)) topic")
      case True
      with run obtain m1 where "I m1" and
        rest: "(case q_protocol (ch_quasar (m_dial m1)) of
                  None \<Rightarrow> m' = m1
                | Some pv \<Rightarrow> \<exists>seen k. m' = set_dial_quasar ((ch_quasar (m_dial m1))\<lparr>q_seen := seen\<rparr>) k m1)"
        using keepsD [OF cb m] by (fastforce simp: act_bind_Done Let_def split: option.splits prod.splits)
      then show ?thesis
        by (auto simp: seen_upd split: option.splits)
    next
      case False
      with run m show ?thesis
        using quasar_publish_seen [of "me_xxh env" "\<lambda>i. me_mids env (m_draws m + i)" "ch_quasar (m_dial m)" "Some topic" "Some data"]
        by (auto simp: Let_def seen_upd split: prod.splits)
    qed
  qed
qed

lemma keeps_route [keeps_intros]: "keeps I (dial_on_route_message n env msg)"
  unfolding keeps_def
proof (intro allI impI)
  fix m x m' es
  assume m: "I m" and run: "dial_on_route_message n env msg m = Done (x, m', es)"
  obtain rc q msg' outs where q: "quasar_on_route_message (me_xxh env) (ch_quasar (m_dial m)) msg = (rc, q, msg', outs)"
    by (metis prod_cases4)
  then have I: "I (set_dial_quasar q 0 m)"
    using quasar_on_route_message_seen [of "me_xxh env" "ch_quasar (m_dial m)" msg] seen_upd [OF m] by auto
  have "keeps I (act_bind (case outs of
                      Deliver topic (Some data) # _ \<Rightarrow> dial_message (dial_publish n env) env topic data
                    | _ \<Rightarrow> act_ret ()) (\<lambda>_.
          act_bind (act_emit (map Net (filter (\<lambda>e. case e of Deliver _ _ \<Rightarrow> False | _ \<Rightarrow> True) outs))) (\<lambda>_.
          act_ret rc)))"
    by (auto intro!: keeps_intros split: list.split effect.split option.split)
  from keepsD [OF this I] run q show "I m'"
    by (simp add: dial_on_route_message_def)
qed

lemma keeps_channels [keeps_intros]: "keeps I (act_channels f ps rc)"
  by (induction ps arbitrary: rc) (auto intro: keeps_intros)

end

text \<open>What connects the dial channel to the manager: its role, its callbacks and its identity.\<close>

definition dial_wiring :: "poseidon_channel \<Rightarrow> bool \<times> bool \<times> bool \<times> poseidon_node_id" where
  "dial_wiring d = (ch_is_dial d, ch_intercept_cb d, q_on_message (ch_quasar d), ch_node_id d)"

text \<open>
  What clients and timers ask of a manager: the creation and the joining of channels
  and the periodic operations.
\<close>

locale manager_requests = manager_handlers +
  assumes expire_upd: "I m \<Longrightarrow> I (poseidon_channel_manager_expire_tombstones now m)"
    and wiring_upd: "I m \<Longrightarrow> dial_wiring d = dial_wiring (m_dial m) \<Longrightarrow> I (m\<lparr>m_dial := d\<rparr>)"
    and create_upd: "I m \<Longrightarrow> I (snd (poseidon_channel_manager_create_channel env cenv kt name cfg m))"
    and register_upd: "I m \<Longrightarrow> I (snd (join_register env cenv topic m))"
begin

lemma keeps_gossip [keeps_intros]: "keeps I (poseidon_channel_manager_gossip_all env grc brc)"
  unfolding poseidon_channel_manager_gossip_all_def by (intro keeps_intros)

lemma keeps_tick [keeps_intros]: "keeps I (poseidon_channel_manager_tick_all env)"
proof -
  have "I (snd (case poseidon_channel_tick (me_xxh env) (m_dial m) of (rc, dial) \<Rightarrow> (rc, m\<lparr>m_dial := dial\<rparr>)))" if "I m" for m
    using that quasar_tick_on_message [of "me_xxh env" "ch_quasar (m_dial m)"]
    by (auto simp: poseidon_channel_tick_def dial_wiring_def Let_def split: prod.splits intro!: wiring_upd)
  then show ?thesis
    unfolding poseidon_channel_manager_tick_all_def by (intro keeps_intros keeps_upd) (simp_all add: expire_upd)
qed

lemma keeps_create [keeps_intros]: "keeps I (act_upd (poseidon_channel_manager_create_channel env cenv kt name cfg))"
  by (rule keeps_upd) (rule create_upd)

lemma keeps_join [keeps_intros]: "keeps I (poseidon_channel_manager_join_channel n env cenv t)"
proof -
  have "I (snd (case poseidon_channel_subscribe (me_xxh env) (m_dial m) (Some t) 300 of
                  (rc, dial) \<Rightarrow> (rc, m\<lparr>m_dial := dial\<rparr>)))" if "I m" for m
    using that quasar_subscribe_on_message [of "me_xxh env" "ch_quasar (m_dial m)" "Some t" 300]
    by (auto simp: poseidon_channel_subscribe_def dial_wiring_def split: prod.splits intro!: wiring_upd)
  then show ?thesis
    unfolding poseidon_channel_manager_join_channel_def by (intro keeps_intros keeps_upd) (simp_all add: register_upd)
qed

end

section \<open>Runs of the manager\<close>

text \<open>Every way a manager changes, for arbitrary environments and stack bounds.\<close>

inductive mgr_step :: "poseidon_channel_manager \<Rightarrow> poseidon_channel_manager \<Rightarrow> bool" where
  step_create: "poseidon_channel_manager_create_channel env cenv kt name cfg m = (r, m') \<Longrightarrow> mgr_step m m'"
| step_join: "poseidon_channel_manager_join_channel n env cenv t m = Done (r, m', es) \<Longrightarrow> mgr_step m m'"
| step_destroy: "poseidon_channel_manager_destroy_channel nid m = Done (rc, m', es) \<Longrightarrow> mgr_step m m'"
| step_route: "dial_on_route_message n env msg m = Done (rc, m', es) \<Longrightarrow> mgr_step m m'"
| step_publish: "dial_publish n env t d m = Done (rc, m', es) \<Longrightarrow> mgr_step m m'"
| step_tick: "poseidon_channel_manager_tick_all env m = Done (rc, m', es) \<Longrightarrow> mgr_step m m'"
| step_gossip: "poseidon_channel_manager_gossip_all env grc brc m = Done (rc, m', es) \<Longrightarrow> mgr_step m m'"
| step_channel: "m_heap m p = Some c \<Longrightarrow> m' = m\<lparr>m_heap := (m_heap m)(p \<mapsto> c')\<rparr> \<Longrightarrow> mgr_step m m'"
| step_register: "poseidon_channel_manager_register_session s m = (rc, m') \<Longrightarrow> mgr_step m m'"
| step_unregister: "poseidon_channel_manager_unregister_session s m = (rc, m') \<Longrightarrow> mgr_step m m'"

inductive mgr_reach :: "poseidon_channel_manager \<Rightarrow> bool" where
  reach_init: "poseidon_channel_manager_create env cenv kp port s e = Some m \<Longrightarrow> mgr_reach m"
| reach_step: "mgr_reach m \<Longrightarrow> mgr_step m m' \<Longrightarrow> mgr_reach m'"

text \<open>A predicate that the session registry keeps as well holds in every reachable state.\<close>

locale manager_invariant = manager_requests +
  assumes sessions_upd: "I m \<Longrightarrow> I (snd (poseidon_channel_manager_register_session s m))"
      "I m \<Longrightarrow> I (snd (poseidon_channel_manager_unregister_session s m))"
begin

lemma step_keeps: "mgr_step m m' \<Longrightarrow> I m \<Longrightarrow> I m'"
proof (induction rule: mgr_step.induct)
  case (step_create env cenv kt name cfg m r m')
  with create_upd [of m env cenv kt name cfg] show ?case
    by simp
next
  case (step_register s m rc m')
  with sessions_upd(1) [of m s] show ?case
    by simp
next
  case (step_unregister s m rc m')
  with sessions_upd(2) [of m s] show ?case
    by simp
qed (auto intro: keepsD keeps_intros heap_upd)

lemma reach_keeps:
  assumes "\<And>env cenv kp port s e m. poseidon_channel_manager_create env cenv kp port s e = Some m \<Longrightarrow> I m"
  shows "mgr_reach m \<Longrightarrow> I m"
  by (induction rule: mgr_reach.induct) (auto intro: assms step_keeps)

end

text \<open>
  The state of a manager: tables within their bounds and without duplicates, the
  channels it lists allocated, and objects numbered below the next one.
\<close>

definition mgr_ok :: "poseidon_channel_manager \<Rightarrow> bool" where
  "mgr_ok m \<longleftrightarrow>
     length (m_channels m) \<le> POSEIDON_CHANNEL_MANAGER_MAX_CHANNELS \<and> distinct (m_channels m)
     \<and> (\<forall>p \<in> set (m_channels m). m_heap m p \<noteq> None) \<and> (\<forall>p. m_heap m p \<noteq> None \<longrightarrow> p < m_next m)
     \<and> length (m_pending m) \<le> POSEIDON_MAX_PENDING_BOOTSTRAPS \<and> (\<forall>pb \<in> set (m_pending m). pb_channel pb < m_next m)
     \<and> length (m_tombstones m) \<le> POSEIDON_TOMBSTONE_MAX \<and> distinct (map ts_topic_id (m_tombstones m))
     \<and> length (m_sessions m) \<le> POSEIDON_SESSION_REGISTRY_MAX"

lemma add_tombstone_ok:
  assumes "length ts \<le> POSEIDON_TOMBSTONE_MAX" "distinct (map ts_topic_id ts)"
  shows "length (snd (add_tombstone t ts)) \<le> POSEIDON_TOMBSTONE_MAX" "distinct (map ts_topic_id (snd (add_tombstone t ts)))"
  using assms by (auto simp: add_tombstone_def map_update_first list_ex_iff)

lemma swap_remove_ok:
  assumes "distinct xs" "i < length xs"
  shows "distinct (swap_remove i xs)" "set (swap_remove i xs) = set xs - {xs ! i}" "length (swap_remove i xs) \<le> length xs"
  using set_swap_remove [OF assms(1)] assms length_swap_remove [of xs i]
  by (auto simp: swap_remove_def)

lemma allocate_port_simps [simp]:
  "m_channels (snd (allocate_port m)) = m_channels m" "m_heap (snd (allocate_port m)) = m_heap m"
  "m_next (snd (allocate_port m)) = m_next m" "m_pending (snd (allocate_port m)) = m_pending m"
  "m_tombstones (snd (allocate_port m)) = m_tombstones m" "m_sessions (snd (allocate_port m)) = m_sessions m"
  "m_dial (snd (allocate_port m)) = m_dial m"
  by (simp_all add: allocate_port_def)

lemma mgr_ok_port: "mgr_ok (snd (allocate_port m)) = mgr_ok m"
  by (simp add: mgr_ok_def)

lemma mgr_ok_add_channel:
  assumes "mgr_ok m" "length (m_channels m) < POSEIDON_CHANNEL_MANAGER_MAX_CHANNELS"
  shows "mgr_ok (snd (add_channel c m))"
  using assms by (fastforce simp: mgr_ok_def add_channel_def less_Suc_eq)

lemma mgr_ok_create_channel:
  assumes "mgr_ok m"
  shows "mgr_ok (snd (poseidon_channel_manager_create_channel env cenv kt name cfg m))"
  using assms mgr_ok_add_channel [of "snd (allocate_port m)"] mgr_ok_port [of m]
  by (auto simp: poseidon_channel_manager_create_channel_def Let_def split_def split: option.split)

lemma mgr_ok_add_pending:
  assumes "mgr_ok m" "length (m_channels m) < POSEIDON_CHANNEL_MANAGER_MAX_CHANNELS"
    and "length (m_pending m) < POSEIDON_MAX_PENDING_BOOTSTRAPS" "pb_channel pb = m_next m"
  shows "mgr_ok ((snd (add_channel c m))\<lparr>m_pending := m_pending m @ [pb]\<rparr>)"
  using mgr_ok_add_channel [OF assms(1,2), of c] assms by (auto simp: mgr_ok_def add_channel_def less_Suc_eq)

lemma join_register_cases:
  obtains "snd (join_register env cenv t m) = m"
  | "snd (join_register env cenv t m) = snd (allocate_port m)"
  | c pb where "length (m_channels m) < POSEIDON_CHANNEL_MANAGER_MAX_CHANNELS"
      "length (m_pending m) < POSEIDON_MAX_PENDING_BOOTSTRAPS" "pb_channel pb = m_next m"
      "snd (join_register env cenv t m) =
         (snd (add_channel c (snd (allocate_port m))))\<lparr>m_pending := m_pending m @ [pb]\<rparr>"
proof -
  let ?full = "length (m_channels m) \<ge> POSEIDON_CHANNEL_MANAGER_MAX_CHANNELS
      \<or> length (m_pending m) \<ge> POSEIDON_MAX_PENDING_BOOTSTRAPS"
  let ?new = "poseidon_channel_create (me_ssl env) (me_blake3 env) cenv None (Some t) (fst (allocate_port m))
      poseidon_channel_config_defaults"
  consider "?full" | "\<not> ?full" "fst (allocate_port m) = 0 \<or> ?new = None" | c where "\<not> ?full" "fst (allocate_port m) \<noteq> 0" "?new = Some c"
    by blast
  then show thesis
  proof cases
    case 1
    then have "snd (join_register env cenv t m) = m"
      unfolding join_register_def by (elim disjE) simp_all
    then show ?thesis by (rule that(1))
  next
    case 2
    then have "snd (join_register env cenv t m) = snd (allocate_port m)"
      by (auto simp: join_register_def split_def Let_def)
    then show ?thesis by (rule that(2))
  next
    case 3
    then show ?thesis
      by (intro that(3) [of "\<lparr>pb_topic_id = take 63 t, pb_timestamp_us = me_realtime_us env, pb_channel = m_next m, pb_replies = []\<rparr>"
            "c\<lparr>ch_state := POSEIDON_CHANNEL_STATE_BOOTSTRAPPING\<rparr>"])
        (simp_all add: join_register_def split_def Let_def add_channel_def not_le)
  qed
qed

lemma mgr_ok_join_register:
  assumes "mgr_ok m"
  shows "mgr_ok (snd (join_register env cenv t m))"
proof (cases rule: join_register_cases [of env cenv t m])
  case (3 pb c)
  with mgr_ok_add_pending [of "snd (allocate_port m)" c pb] mgr_ok_port [of m] assms show ?thesis
    by simp
qed (simp_all add: assms mgr_ok_port)

lemma destroy_channel_cases:
  assumes "poseidon_channel_manager_destroy_channel nid m = Done (r, m', es)"
  obtains "m' = m"
  | i where "i < length (m_channels m)"
      "m' = m\<lparr>m_heap := (m_heap m)(m_channels m ! i := None), m_channels := swap_remove i (m_channels m)\<rparr>"
proof (cases "find_chan (\<lambda>c. poseidon_node_id_compare (Some (ch_node_id c)) (Some nid) = 0) (m_heap m) (m_channels m)")
  case (Done r)
  show ?thesis
  proof (cases r)
    case None
    with assms Done that(1) show ?thesis
      by (simp add: poseidon_channel_manager_destroy_channel_def)
  next
    case (Some p)
    show ?thesis
    proof (cases "find_index (\<lambda>q. q = p) (m_channels m)")
      case None
      with assms Done Some that(1) show ?thesis
        by (simp add: poseidon_channel_manager_destroy_channel_def)
    next
      case (Some i)
      with assms Done \<open>r = Some p\<close> that(2) [of i] find_index_SomeD [OF Some] show ?thesis
        by (simp add: poseidon_channel_manager_destroy_channel_def)
    qed
  qed
qed (use assms in \<open>simp_all add: poseidon_channel_manager_destroy_channel_def\<close>)

lemma mgr_ok_destroy:
  assumes "mgr_ok m" "poseidon_channel_manager_destroy_channel nid m = Done (r, m', es)"
  shows "mgr_ok m'"
proof (cases rule: destroy_channel_cases [OF assms(2)])
  case (2 i)
  with assms(1) show ?thesis
    using swap_remove_ok [of "m_channels m" i]
    by (auto simp: mgr_ok_def)
qed (use assms in simp)

lemma mgr_ok_pending:
  assumes "mgr_ok m" "length ps \<le> length (m_pending m)" "pb_channel ` set ps \<subseteq> pb_channel ` set (m_pending m)"
  shows "mgr_ok (m\<lparr>m_pending := ps\<rparr>)"
proof -
  have "pb_channel pb < m_next m" if "pb \<in> set ps" for pb
    using assms that by (auto simp: mgr_ok_def subset_iff)
  with assms show ?thesis
    by (auto simp: mgr_ok_def)
qed

interpretation mgr_state: manager_invariant mgr_ok
proof
  show "mgr_ok m \<Longrightarrow> mgr_ok (snd (poseidon_channel_manager_add_tombstone t m))" for m t
    using add_tombstone_ok [of "m_tombstones m" t]
    by (auto simp: mgr_ok_def poseidon_channel_manager_add_tombstone_def split: prod.splits)
  show "mgr_ok m \<Longrightarrow> mgr_ok (poseidon_channel_manager_expire_tombstones now m)" for m now
    by (auto simp: mgr_ok_def poseidon_channel_manager_expire_tombstones_def distinct_map_filter
        intro: order_trans [OF length_filter_le])
  show "mgr_ok m \<Longrightarrow> mgr_ok (snd (poseidon_channel_manager_unregister_session s m))" for m s
    by (auto simp: mgr_ok_def poseidon_channel_manager_unregister_session_def swap_remove_def split: option.split)
  show "mgr_ok m \<Longrightarrow> mgr_ok (snd (poseidon_channel_manager_register_session s m))" for m s
    by (auto simp: mgr_ok_def poseidon_channel_manager_register_session_def)
  show "mgr_ok m \<Longrightarrow> m_heap m p = Some c \<Longrightarrow> mgr_ok (m\<lparr>m_heap := (m_heap m)(p \<mapsto> c')\<rparr>)" for m p c c'
    by (auto simp: mgr_ok_def)
  show "mgr_ok m \<Longrightarrow> mgr_ok (set_dial_quasar ((ch_quasar (m_dial m))\<lparr>q_seen := b\<rparr>) n m)"
    "mgr_ok m \<Longrightarrow> mgr_ok (m\<lparr>m_dial := d\<rparr>)" for m d b n
    by (simp_all add: mgr_ok_def set_dial_quasar_def)
qed (fact mgr_ok_pending mgr_ok_destroy mgr_ok_create_channel mgr_ok_join_register)+

text \<open>The dial channel stays wired to the manager.\<close>

definition dial_kept :: "bool \<times> bool \<times> bool \<times> poseidon_node_id \<Rightarrow> poseidon_channel_manager \<Rightarrow> bool" where
  "dial_kept w m \<longleftrightarrow> dial_wiring (m_dial m) = w"

lemma dial_kept_join: "m_dial (snd (join_register env cenv t m)) = m_dial m"
  by (cases rule: join_register_cases [of env cenv t m]) (simp_all add: add_channel_def)

lemma dial_kept_destroy: "poseidon_channel_manager_destroy_channel nid m = Done (r, m', es) \<Longrightarrow> m_dial m' = m_dial m"
  by (erule destroy_channel_cases) simp_all

interpretation mgr_dial: manager_invariant "dial_kept w" for w
proof
  show "dial_kept w m \<Longrightarrow> dial_kept w (snd (poseidon_channel_manager_create_channel env cenv kt name cfg m))"
    for w m env cenv kt name cfg
    by (auto simp: dial_kept_def poseidon_channel_manager_create_channel_def add_channel_def Let_def split_def
        split: option.split)
qed (auto simp: dial_kept_def dial_kept_join dial_kept_destroy poseidon_channel_manager_add_tombstone_def
    set_dial_quasar_def dial_wiring_def poseidon_channel_manager_expire_tombstones_def poseidon_channel_manager_register_session_def
    poseidon_channel_manager_unregister_session_def split: prod.splits option.splits)

definition dial_wired :: "poseidon_channel_manager \<Rightarrow> bool" where
  "dial_wired m \<longleftrightarrow> ch_is_dial (m_dial m) \<and> ch_intercept_cb (m_dial m) \<and> q_on_message (ch_quasar (m_dial m))"

lemma dial_wired_kept: "dial_wired m \<longleftrightarrow> (\<exists>nid. dial_kept (True, True, True, nid) m)"
  by (auto simp: dial_wired_def dial_kept_def dial_wiring_def)

lemma create_ok:
  assumes "poseidon_channel_manager_create env cenv kp port s e = Some m"
  shows "mgr_ok m \<and> dial_wired m"
  using assms by (auto simp: poseidon_channel_manager_create_def mgr_ok_def dial_wired_def
      poseidon_channel_enable_quasar_message_def quasar_set_message_callback_def split: if_splits option.splits)

lemma reach_wired: "mgr_reach m \<Longrightarrow> dial_wired m"
proof (induction rule: mgr_reach.induct)
  case (reach_step m m')
  then show ?case
    using mgr_dial.step_keeps dial_wired_kept by blast
qed (simp add: create_ok)

lemma reach_ok: "mgr_reach m \<Longrightarrow> mgr_ok m"
  by (rule mgr_state.reach_keeps) (simp_all add: create_ok)

end
