(* ===== verification/ManagerRuns.thy ===== *)
theory ManagerRuns
  imports ChannelManager
begin

text \<open>
  What holds in every state a channel manager can reach, and what its lookups, its
  periodic operations and its tombstones do there.
\<close>

section \<open>Lookups\<close>

lemma find_chan_ok:
  assumes "\<forall>p \<in> set ps. heap p \<noteq> None"
  obtains "find_chan P heap ps = Done None" "\<forall>p \<in> set ps. \<forall>c. heap p = Some c \<longrightarrow> \<not> P c"
  | p c where "find_chan P heap ps = Done (Some p)" "p \<in> set ps" "heap p = Some c" "P c"
  using assms
proof (induction ps arbitrary: thesis)
  case (Cons q ps)
  then obtain c where c: "heap q = Some c"
    by auto
  show ?case
  proof (cases "P c")
    case True
    with c show ?thesis
      by (intro Cons.prems(2) [of q c]) simp_all
  next
    case False
    show ?thesis
    proof (rule Cons.IH)
      assume "find_chan P heap ps = Done None" "\<forall>p \<in> set ps. \<forall>c. heap p = Some c \<longrightarrow> \<not> P c"
      with c False show ?thesis
        by (intro Cons.prems(1)) simp_all
    next
      fix p d
      assume "find_chan P heap ps = Done (Some p)" "p \<in> set ps" "heap p = Some d" "P d"
      with c False show ?thesis
        by (intro Cons.prems(2) [of p d]) simp_all
    next
      show "\<forall>p \<in> set ps. heap p \<noteq> None"
        using Cons.prems(3) by simp
    qed
  qed
qed simp

lemma mgr_find_chan:
  assumes "mgr_ok m"
  obtains "act_find_chan P m = Done (None, m, [])"
      "\<forall>p \<in> set (m_channels m). \<forall>c. m_heap m p = Some c \<longrightarrow> \<not> P c"
  | p c where "act_find_chan P m = Done (Some p, m, [])" "p \<in> set (m_channels m)" "m_heap m p = Some c" "P c"
proof (rule find_chan_ok [of "m_channels m" "m_heap m" P])
  show "\<forall>p \<in> set (m_channels m). m_heap m p \<noteq> None"
    using assms by (simp add: mgr_ok_def)
qed (use that in \<open>simp_all add: act_find_chan_def\<close>)

lemma destroy_defined:
  assumes "mgr_ok m"
  shows "\<exists>rc m'. poseidon_channel_manager_destroy_channel nid m = Done (rc, m', [])"
proof (rule find_chan_ok [of "m_channels m" "m_heap m" "\<lambda>c. poseidon_node_id_compare (Some (ch_node_id c)) (Some nid) = 0"])
  show "\<forall>p \<in> set (m_channels m). m_heap m p \<noteq> None"
    using assms by (simp add: mgr_ok_def)
qed (auto simp: poseidon_channel_manager_destroy_channel_def split: option.splits)

lemma node_id_compare_refl: "poseidon_node_id_compare (Some x) (Some x) = 0"
  by (simp add: poseidon_node_id_compare_def memcmp.zero_iff)

lemma destroy_self:
  assumes "mgr_ok m" "p \<in> set (m_channels m)" "m_heap m p = Some c"
  shows "\<exists>rc m'. poseidon_channel_manager_destroy_channel (ch_node_id c) m = Done (rc, m', [])
    \<and> Suc (length (m_channels m')) = length (m_channels m)"
proof (rule find_chan_ok [of "m_channels m" "m_heap m"
      "\<lambda>d. poseidon_node_id_compare (Some (ch_node_id d)) (Some (ch_node_id c)) = 0"])
  show "\<forall>p \<in> set (m_channels m). m_heap m p \<noteq> None"
    using assms by (simp add: mgr_ok_def)
next
  fix q d
  assume q: "find_chan (\<lambda>d. poseidon_node_id_compare (Some (ch_node_id d)) (Some (ch_node_id c)) = 0)
      (m_heap m) (m_channels m) = Done (Some q)" "q \<in> set (m_channels m)"
  then obtain i where "find_index (\<lambda>r. r = q) (m_channels m) = Some i"
    by (cases "find_index (\<lambda>r. r = q) (m_channels m)") (auto simp: find_index_None_iff list_ex_iff)
  moreover have "m_channels m \<noteq> []"
    using q(2) by auto
  ultimately show ?thesis
    using q(1) by (simp add: poseidon_channel_manager_destroy_channel_def length_swap_remove)
qed (use assms node_id_compare_refl in auto)

section \<open>Properties\<close>


lemma manager_created:
  assumes "poseidon_key_pair_get_public_key (me_ssl env) kp = Some pub" "me_blake3 env pub = Some h" "length h = 32"
    and "ce_tls_ok cenv" "ce_protocol cenv \<noteq> None" "s < e"
  shows "\<exists>m. poseidon_channel_manager_create env cenv (Some kp) port s e = Some m"
proof -
  have "pub \<noteq> []"
    using assms(1) by (auto simp: poseidon_key_pair_get_public_key_def split: option.splits if_splits)
  then obtain nid where "poseidon_node_id_from_public_key (me_blake3 env) pub = Some nid"
    using node_id_from_key [of "me_blake3 env" pub h] assms(2,3) by auto
  with assms show ?thesis
    by (auto simp: poseidon_channel_manager_create_def poseidon_channel_create_def)
qed

definition example_ssl :: openssl where
  "example_ssl =
     \<lparr>EVP_PKEY_keygen = (\<lambda>_. Some 1), PEM_read_PrivateKey = (\<lambda>_. None), EVP_PKEY_base_id = (\<lambda>_. name_ED25519),
      i2d_PUBKEY = (\<lambda>_. Some [9]), d2i_PUBKEY = (\<lambda>_. Some 1), EVP_DigestSign = (\<lambda>_ _. Some [7]),
      EVP_DigestVerify = (\<lambda>_ _ _ s. s = [7])\<rparr>"

definition example_env :: mgr_env where
  "example_env =
     \<lparr>me_ssl = example_ssl, me_blake3 = (\<lambda>_. Some (replicate 32 5)), me_xxh = (\<lambda>_ _. 0), me_malloc = (\<lambda>_. True),
      me_mids = (\<lambda>i. \<lparr>mid_time = 0, mid_nanos = 0, mid_count = of_nat i\<rparr>), me_realtime_us = 5, me_monotonic_us = 7\<rparr>"

definition example_cenv :: channel_env where
  "example_cenv = \<lparr>ce_fresh_key = None, ce_tls_ok = True, ce_protocol = Some \<lparr>mv_local = (1, 2), mv_peers = []\<rparr>\<rparr>"

definition example_key :: poseidon_key_pair where
  "example_key = \<lparr>kp_id = 0, kp_pkey = 1, kp_key_type = name_ED25519\<rparr>"

lemma example_manager:
  "\<exists>m. poseidon_channel_manager_create example_env example_cenv (Some example_key) 4000 5000 6000 = Some m"
  by (rule manager_created [where pub = "[9]" and h = "replicate 32 5"])
    (simp_all add: example_env_def example_ssl_def example_cenv_def example_key_def poseidon_key_pair_get_public_key_def)


lemma act_channels_defined:
  assumes "\<forall>p \<in> set ps. m_heap m p \<noteq> None"
  shows "\<exists>rc' m' es. act_channels f ps rc m = Done (rc', m', es)"
  using assms
proof (induction ps arbitrary: rc m)
  case Nil
  show ?case
    by (simp add: act_ret_def)
next
  case (Cons p ps)
  then obtain c where c: "m_heap m p = Some c"
    by auto
  obtain r c' es where f: "f c = (r, c', es)"
    by (metis prod_cases3)
  obtain rc' m' es' where "act_channels f ps (or rc r) (m\<lparr>m_heap := (m_heap m)(p \<mapsto> c')\<rparr>) = Done (rc', m', es')"
    using Cons.IH [of "m\<lparr>m_heap := (m_heap m)(p \<mapsto> c')\<rparr>" "or rc r"] Cons.prems by fastforce
  with c f show ?case
    by (simp add: act_bind_def act_channel_def)
qed



definition newest_tombstone :: "poseidon_tombstone option \<Rightarrow> poseidon_tombstone \<Rightarrow> poseidon_tombstone" where
  "newest_tombstone old t =
     (case old of None \<Rightarrow> t | Some u \<Rightarrow> if ts_timestamp_us t > ts_timestamp_us u then t else u)"

lemma find_list_ex: "find P xs = None \<longleftrightarrow> \<not> list_ex P xs"
  by (auto simp: find_None_iff list_ex_iff)

lemma find_tombstone_update:
  fixes t :: poseidon_tombstone
  defines "f \<equiv> \<lambda>u. if ts_timestamp_us t > ts_timestamp_us u then t else u"
  shows "find (\<lambda>u. ts_topic_id u = k) (update_first (\<lambda>u. ts_topic_id u = ts_topic_id t) f ts) =
    (if k = ts_topic_id t then map_option f (find (\<lambda>u. ts_topic_id u = k) ts) else find (\<lambda>u. ts_topic_id u = k) ts)"
  by (induction ts) (auto simp: f_def)

text \<open>
  A tombstone is found under its topic from the moment it is added until a newer
  one for the same topic replaces it; an older one arriving late changes nothing, and
  other topics are not affected. Only a new topic can be refused, when all 64 places
  are taken.
\<close>

theorem tombstone_newest_kept:
  "fst (poseidon_channel_manager_add_tombstone t m) =
     (if poseidon_channel_manager_find_tombstone m (ts_topic_id t) = None
         \<and> length (m_tombstones m) \<ge> POSEIDON_TOMBSTONE_MAX then - 1 else 0)
   \<and> poseidon_channel_manager_find_tombstone (snd (poseidon_channel_manager_add_tombstone t m)) k =
     (if k = ts_topic_id t \<and> fst (poseidon_channel_manager_add_tombstone t m) = 0
      then Some (newest_tombstone (poseidon_channel_manager_find_tombstone m k) t)
      else poseidon_channel_manager_find_tombstone m k)"
proof (cases "list_ex (\<lambda>u. ts_topic_id u = ts_topic_id t) (m_tombstones m)")
  case True
  then obtain u where "find (\<lambda>u. ts_topic_id u = ts_topic_id t) (m_tombstones m) = Some u"
    using find_list_ex by fastforce
  with True show ?thesis
    by (simp add: poseidon_channel_manager_add_tombstone_def poseidon_channel_manager_find_tombstone_def add_tombstone_def
        newest_tombstone_def find_tombstone_update)
next
  case False
  then have "find (\<lambda>u. ts_topic_id u = ts_topic_id t) (m_tombstones m) = None"
    by (simp add: find_list_ex)
  with False show ?thesis
    by (auto simp: poseidon_channel_manager_add_tombstone_def poseidon_channel_manager_find_tombstone_def add_tombstone_def
        newest_tombstone_def find_append split: option.split)
qed

text \<open>
  Destroying a channel that is still waiting for its bootstrap reply leaves a
  dangling pointer: the pending entry survives, and the reply it waits for makes the
  manager write to the freed channel.
\<close>

theorem destroyed_channel_written:
  assumes "poseidon_channel_manager_destroy_channel (ch_node_id c) m = Done (rc, m', es)" "mgr_ok m"
    and "p \<in> set (m_channels m)" "m_heap m p = Some c"
    and "\<forall>q \<in> set (m_channels m). \<forall>d. m_heap m q = Some d \<and> nid_hash (ch_node_id d) = nid_hash (ch_node_id c) \<longrightarrow> q = p"
    and "find (\<lambda>pb. pb_topic_id pb = topic \<and> pb_timestamp_us pb = ts) (m_pending m) = Some pb"
    and "pb_channel pb = p" "pb_replies pb = []"
  shows "rc = 0 \<and> poseidon_channel_manager_handle_bootstrap_reply topic addr port ts seeds m' = Undefined"
proof -
  obtain i where i: "find_index (\<lambda>pb. pb_topic_id pb = topic \<and> pb_timestamp_us pb = ts) (m_pending m) = Some i"
      "m_pending m ! i = pb"
    using assms(6) by (auto simp: find_index_find)
  have live: "\<forall>p \<in> set (m_channels m). m_heap m p \<noteq> None"
    using assms(2) by (simp add: mgr_ok_def)
  have "find_chan (\<lambda>d. poseidon_node_id_compare (Some (ch_node_id d)) (Some (ch_node_id c)) = 0) (m_heap m) (m_channels m)
      = Done (Some p)"
  proof (rule find_chan_ok [OF live, of "\<lambda>d. poseidon_node_id_compare (Some (ch_node_id d)) (Some (ch_node_id c)) = 0"])
    fix q d
    assume q: "find_chan (\<lambda>d. poseidon_node_id_compare (Some (ch_node_id d)) (Some (ch_node_id c)) = 0)
        (m_heap m) (m_channels m) = Done (Some q)" "q \<in> set (m_channels m)" "m_heap m q = Some d"
      "poseidon_node_id_compare (Some (ch_node_id d)) (Some (ch_node_id c)) = 0"
    then have "nid_hash (ch_node_id d) = nid_hash (ch_node_id c)"
      by (simp add: poseidon_node_id_compare_def memcmp.zero_iff)
    with q assms(5) show ?thesis
      by blast
  next
    assume "\<forall>p \<in> set (m_channels m). \<forall>d. m_heap m p = Some d \<longrightarrow>
        poseidon_node_id_compare (Some (ch_node_id d)) (Some (ch_node_id c)) \<noteq> 0"
    with assms(3,4) node_id_compare_refl show ?thesis
      by blast
  qed
  moreover obtain j where "find_index (\<lambda>q. q = p) (m_channels m) = Some j"
    using assms(3) by (cases "find_index (\<lambda>q. q = p) (m_channels m)") (auto simp: find_index_None_iff list_ex_iff)
  ultimately have "rc = 0" "m_heap m' p = None" "m_pending m' = m_pending m"
    using assms(1) by (auto simp: poseidon_channel_manager_destroy_channel_def)
  with i assms(7,8) show ?thesis
    by (simp add: poseidon_channel_manager_handle_bootstrap_reply_def POSEIDON_BOOTSTRAP_REPLY_ADDRS_MAX_def)
qed

definition example_channel :: "poseidon_node_id \<Rightarrow> poseidon_channel" where
  "example_channel nid =
     \<lparr>ch_state = POSEIDON_CHANNEL_STATE_BOOTSTRAPPING, ch_key_pair = example_key, ch_node_id = nid, ch_name = [],
      ch_config = poseidon_channel_config_defaults, ch_quasar = quasar_create None 5 3 4096 3, ch_listen_port = 1,
      ch_is_dial = False, ch_owns_key_pair = False, ch_subtopic_subs = [], ch_aliases = topic_alias_registry_create 32,
      ch_message_cb = True, ch_intercept_cb = False\<rparr>"

definition example_state :: "poseidon_node_id \<Rightarrow> poseidon_channel_manager" where
  "example_state nid =
     \<lparr>m_dial = (example_channel nid)\<lparr>ch_is_dial := True, ch_intercept_cb := True,
        ch_quasar := (quasar_create None 5 3 4096 3)\<lparr>q_on_message := True\<rparr>\<rparr>,
      m_heap = [0 \<mapsto> example_channel nid], m_next = 1, m_channels = [0], m_next_port = 5001, m_port_range_start = 5000,
      m_port_range_end = 6000,
      m_pending = [\<lparr>pb_topic_id = [65], pb_timestamp_us = 5, pb_channel = 0, pb_replies = []\<rparr>],
      m_tombstones = [], m_sessions = [], m_draws = 0\<rparr>"

lemma example_state_ok: "mgr_ok (example_state nid)" "dial_wired (example_state nid)"
  by (simp_all add: mgr_ok_def dial_wired_def example_state_def POSEIDON_CHANNEL_MANAGER_MAX_CHANNELS_def
      POSEIDON_MAX_PENDING_BOOTSTRAPS_def)

theorem destroyed_channel_written_witness:
  "let nid = \<lparr>nid_hash = [1], nid_str = [50]\<rparr>
   in \<exists>m'. poseidon_channel_manager_destroy_channel nid (example_state nid) = Done (0, m', [])
      \<and> poseidon_channel_manager_handle_bootstrap_reply [65] 1 2 5 [] m' = Undefined"
proof -
  let ?nid = "\<lparr>nid_hash = [1], nid_str = [50]\<rparr>"
  obtain rc m' where "poseidon_channel_manager_destroy_channel ?nid (example_state ?nid) = Done (rc, m', [])"
    using destroy_defined [OF example_state_ok(1)] by blast
  then have d: "poseidon_channel_manager_destroy_channel (ch_node_id (example_channel ?nid)) (example_state ?nid) = Done (rc, m', [])"
    by (simp add: example_channel_def)
  from destroyed_channel_written [OF d example_state_ok(1), of 0 "[65]" 5
      "\<lparr>pb_topic_id = [65], pb_timestamp_us = 5, pb_channel = 0, pb_replies = []\<rparr>" 1 2 "[]"]
  have "rc = 0 \<and> poseidon_channel_manager_handle_bootstrap_reply [65] 1 2 5 [] m' = Undefined"
    by (simp add: example_state_def)
  with d show ?thesis
    unfolding Let_def by (simp add: example_channel_def)
qed

end
