(* ===== verification/NoticeFlow.thy ===== *)
theory NoticeFlow
  imports ManagerRuns
begin

text \<open>
  How signed notices travel through a manager: from the bytes the dial channel
  receives, through verification and the handlers of
  \<open>src/Channel/channel_manager.c\<close>, to the channel they delete and the notice the
  manager passes on.
\<close>

section \<open>Deletion\<close>

text \<open>What \<open>poseidon_channel_manager_handle_delete_notice\<close> does before it passes the notice on.\<close>

definition delete_local :: "mgr_env \<Rightarrow> meridian_channel_delete_notice \<Rightarrow> unit act" where
  "delete_local env notice =
     act_bind (act_upd (poseidon_channel_manager_add_tombstone
                          (poseidon_tombstone_from_delete_notice (me_monotonic_us env) notice))) (\<lambda>_.
     act_bind (act_find_chan (\<lambda>c. poseidon_channel_get_topic c = dn_topic_id notice)) (\<lambda>channel.
     act_bind (case channel of
                 None \<Rightarrow> act_ret 0
               | Some p \<Rightarrow>
                   act_bind (act_channel p (\<lambda>c. case poseidon_channel_delete_signed (me_xxh env) c of
                                                  (_, c', es) \<Rightarrow> (ch_node_id c', c', es)))
                     (\<lambda>nid. poseidon_channel_manager_destroy_channel nid)) (\<lambda>_.
     act_ret ())))"

lemma act_bind_assoc: "act_bind (act_bind a f) g = act_bind a (\<lambda>x. act_bind (f x) g)"
  by (rule ext) (simp add: act_bind_def split: run.split prod.split)

lemma act_bind_ret: "act_bind (act_ret x) f = f x"
  by (rule ext) (simp add: act_bind_def act_ret_def split: run.split prod.split)

lemma act_bind_case_option:
  "act_bind (case r of None \<Rightarrow> a | Some x \<Rightarrow> f x) g = (case r of None \<Rightarrow> act_bind a g | Some x \<Rightarrow> act_bind (f x) g)"
  by (cases r) simp_all

lemma handle_delete_notice_local:
  "poseidon_channel_manager_handle_delete_notice pub env notice =
     act_bind (delete_local env notice) (\<lambda>_.
     act_bind (publish_item pub env 0 (dn_topic_id notice) (meridian_channel_delete_notice_encode notice)) (\<lambda>_.
     act_ret ()))"
  by (simp add: poseidon_channel_manager_handle_delete_notice_def delete_local_def act_bind_assoc act_bind_ret)

lemma keeps_delete_local:
  "keeps mgr_ok (delete_local env notice)" "keeps (dial_kept w) (delete_local env notice)"
  unfolding delete_local_def
  by (intro mgr_state.keeps_tombstone mgr_state.keeps_channel mgr_state.keeps_destroy keeps_intros)
    (intro mgr_dial.keeps_tombstone mgr_dial.keeps_channel mgr_dial.keeps_destroy keeps_intros)

lemma act_bind_ok: "a m = Done (x, m', es) \<Longrightarrow> act_bind a f m =
    (case f x m' of Done (y, m'', es') \<Rightarrow> Done (y, m'', es @ es') | Undefined \<Rightarrow> Undefined | Overflow \<Rightarrow> Overflow)"
  by (simp add: act_bind_def)

lemma delete_local_defined:
  assumes "mgr_ok m"
  obtains m' es where "delete_local env notice m = Done ((), m', es)" "m_dial m' = m_dial m"
    "\<And>p c. p \<in> set (m_channels m) \<Longrightarrow> m_heap m p = Some c \<Longrightarrow> poseidon_channel_get_topic c = dn_topic_id notice
       \<Longrightarrow> Suc (length (m_channels m')) = length (m_channels m)"
proof -
  define m1 where "m1 = snd (poseidon_channel_manager_add_tombstone
      (poseidon_tombstone_from_delete_notice (me_monotonic_us env) notice) m)"
  have ok: "mgr_ok m1"
    unfolding m1_def by (rule mgr_state.tombstone_upd) (rule assms)
  have m1 [simp]: "m_channels m1 = m_channels m" "m_heap m1 = m_heap m" "m_dial m1 = m_dial m"
    by (simp_all add: m1_def poseidon_channel_manager_add_tombstone_def split: prod.splits)
  obtain x where tomb: "act_upd (poseidon_channel_manager_add_tombstone
      (poseidon_tombstone_from_delete_notice (me_monotonic_us env) notice)) m = Done (x, m1, [])"
    by (simp add: act_upd_def m1_def split_def)
  show thesis
  proof (rule mgr_find_chan [OF ok, of "\<lambda>c. poseidon_channel_get_topic c = dn_topic_id notice"])
    assume f: "act_find_chan (\<lambda>c. poseidon_channel_get_topic c = dn_topic_id notice) m1 = Done (None, m1, [])"
      "\<forall>p \<in> set (m_channels m1). \<forall>c. m_heap m1 p = Some c \<longrightarrow> poseidon_channel_get_topic c \<noteq> dn_topic_id notice"
    from f(1) have "delete_local env notice m = Done ((), m1, [])"
      by (simp add: delete_local_def act_bind_def tomb act_ret_def)
    then show thesis
      by (rule that) (use f(2) in simp_all)
  next
    fix p c
    assume f: "act_find_chan (\<lambda>c. poseidon_channel_get_topic c = dn_topic_id notice) m1 = Done (Some p, m1, [])"
      "p \<in> set (m_channels m1)" "m_heap m1 p = Some c"
    obtain rc c' es where c': "poseidon_channel_delete_signed (me_xxh env) c = (rc, c', es)"
      by (metis prod_cases3)
    define m2 where "m2 = m1\<lparr>m_heap := (m_heap m1)(p \<mapsto> c')\<rparr>"
    have del: "act_channel p (\<lambda>c. case poseidon_channel_delete_signed (me_xxh env) c of
        (_, c', es) \<Rightarrow> (ch_node_id c', c', es)) m1 = Done (ch_node_id c', m2, es)"
      using f(3) c' by (simp add: act_channel_def m2_def)
    have ok2: "mgr_ok m2"
      unfolding m2_def by (rule mgr_state.heap_upd [OF ok f(3)])
    have p2: "m_heap m2 p = Some c'" "p \<in> set (m_channels m2)"
      using f(2) by (simp_all add: m2_def)
    obtain rc' m3 where m3: "poseidon_channel_manager_destroy_channel (ch_node_id c') m2 = Done (rc', m3, [])"
        "Suc (length (m_channels m3)) = length (m_channels m2)"
      using destroy_self [OF ok2 p2(2,1)] by blast
    have "delete_local env notice m = Done ((), m3, es)"
      by (simp add: delete_local_def act_bind_def tomb f(1) del m3(1) act_ret_def)
    then show thesis
      by (rule that) (use m3(2) dial_kept_destroy [OF m3(1)] in \<open>simp_all add: m2_def\<close>)
  qed
qed

lemma delete_notice_encode_eq:
  "meridian_channel_delete_notice_encode n = Some (CBOR_ARRAY True
     [cbor_build_uint8 MERIDIAN_PACKET_TYPE_CHANNEL_DELETE_NOTICE, cbor_build_string (dn_topic_id n),
      cbor_build_string (dn_node_id n), cbor_build_string (dn_key_type n), cbor_build_bytestring (dn_public_key n),
      cbor_build_uint64 (dn_timestamp_us n), cbor_build_bytestring (dn_signature n)])"
  by (simp add: meridian_channel_delete_notice_encode_def)

lemma delete_notice_travels:
  assumes "malloc_ok malloc" "delete_notice_wf n"
  obtains it buf where "meridian_channel_delete_notice_encode n = Some it" "cbor_serialize_alloc malloc it = Some buf"
    "cbor_load_item malloc buf = Some it" "meridian_channel_delete_notice_decode it = Ret n"
    "\<exists>es. it = CBOR_ARRAY True (cbor_build_uint8 MERIDIAN_PACKET_TYPE_CHANNEL_DELETE_NOTICE # es)"
proof -
  obtain it where it: "meridian_channel_delete_notice_encode n = Some it"
    by (simp add: delete_notice_encode_eq)
  have fields: "notice_fields_wf n" "length (dn_signature n) < 2 ^ 64"
    using assms(2) by (simp_all add: delete_notice_wf_def notice_fields_wf_def POSEIDON_CHANNEL_NOTICE_MAX_SIGNATURE_def)
  have eq: "it = CBOR_ARRAY True
     [cbor_build_uint8 MERIDIAN_PACKET_TYPE_CHANNEL_DELETE_NOTICE, cbor_build_string (dn_topic_id n),
      cbor_build_string (dn_node_id n), cbor_build_string (dn_key_type n), cbor_build_bytestring (dn_public_key n),
      cbor_build_uint64 (dn_timestamp_us n), cbor_build_bytestring (dn_signature n)]"
    using it by (simp add: delete_notice_encode_eq)
  have load: "cbor_loadable malloc it \<and> cbor_depth it \<le> CBOR_MAX_STACK_SIZE"
    unfolding eq
    by (intro conjI cbor_loadable_built(7) [OF assms(1)])
      (simp_all only: cbor_items_loadable.simps cbor_loadable_built [OF assms(1)] notice_fields_short [OF fields(1)] fields(2),
       simp_all add: CBOR_MAX_STACK_SIZE_def)
  have "length (cbor_encoding it) < 2 ^ 64"
    using fields(1) length_built(1) [of "dn_topic_id n"] length_built(1) [of "dn_node_id n"]
      length_built(1) [of "dn_key_type n"] length_built(2) [of "dn_public_key n"] length_built(2) [of "dn_signature n"]
      length_built(3) [of MERIDIAN_PACKET_TYPE_CHANNEL_DELETE_NOTICE] length_built(5) [of "dn_timestamp_us n"]
      length_built(6) [of 7 "0x80"]
    by (simp add: eq notice_fields_wf_def c_string_def POSEIDON_CHANNEL_NOTICE_MAX_PUBLIC_KEY_def
        POSEIDON_CHANNEL_NOTICE_MAX_SIGNATURE_def)
  then have buf: "cbor_serialize_alloc malloc it = Some (cbor_encoding it)"
    using assms(1) by (simp only: malloc_ok_def cbor_serialize_alloc_eq) simp
  show thesis
    by (rule that [OF it buf cbor_load_item_serialized [OF _ _ buf]])
      (use load delete_notice_codec.dec_enc [OF assms(2)] it eq in simp_all)
qed

lemma intercept_delete:
  assumes "cbor_load_item (me_malloc env) buf = Some it" "meridian_channel_delete_notice_decode it = Ret n"
    and "\<exists>es. it = CBOR_ARRAY True (cbor_build_uint8 MERIDIAN_PACKET_TYPE_CHANNEL_DELETE_NOTICE # es)"
    and "poseidon_channel_verify_delete_notice (me_ssl env) (me_blake3 env) (me_malloc env) n = 0"
  shows "channel_manager_bootstrap_intercept pub env buf =
    act_bind (poseidon_channel_manager_handle_delete_notice pub env n) (\<lambda>_. act_ret True)"
  using assms by (auto simp: channel_manager_bootstrap_intercept_def act_cres_def act_unless_failed_def packet_type_defs)

text \<open>The subscriptions of the dial channel survive the handlers.\<close>

definition dial_subs :: "quasar_subscription list \<Rightarrow> poseidon_channel_manager \<Rightarrow> bool" where
  "dial_subs subs m \<longleftrightarrow> q_local_subs (ch_quasar (m_dial m)) = subs"

interpretation mgr_subs: manager_handlers "dial_subs subs" for subs
  by unfold_locales
    (auto simp: dial_subs_def set_dial_quasar_def dial_kept_destroy poseidon_channel_manager_add_tombstone_def
      split: prod.splits)

lemma locally_subscribed_subs:
  "q_local_subs q = q_local_subs q' \<Longrightarrow> locally_subscribed q t = locally_subscribed q' t"
  by (simp add: locally_subscribed_def)

lemma join_channel_subscribes:
  assumes "poseidon_channel_manager_join_channel n env cenv t m = Done (Some p, m', es)"
    and "fst (attenuated_bloom_filter_subscribe (me_xxh env) (q_routing (ch_quasar (m_dial m))) (Some t)) = 0"
  shows "locally_subscribed (ch_quasar (m_dial m')) t"
proof -
  define sub where "sub = (\<lambda>m :: poseidon_channel_manager. case poseidon_channel_subscribe (me_xxh env) (m_dial m) (Some t) 300 of
      (rc, dial) \<Rightarrow> (rc, m\<lparr>m_dial := dial\<rparr>))"
  from assms(1) obtain m1 rc m2 es1 x es2 where m1: "m1 = snd (join_register env cenv t m)" and
    sub: "act_upd sub m1 = Done (rc, m2, es1)" and
    pub: "publish_item (dial_publish n env) env 0 t
       (meridian_channel_bootstrap_encode t (poseidon_channel_get_topic (m_dial m2)) (me_realtime_us env)) m2 = Done (x, m', es2)"
    by (auto simp: poseidon_channel_manager_join_channel_def act_bind_Done sub_def act_get_def act_ret_def act_upd_def
        split: option.splits prod.splits)
  have "m_dial m1 = m_dial m"
    unfolding m1 by (rule dial_kept_join)
  with sub assms(2) have m2: "locally_subscribed (ch_quasar (m_dial m2)) t"
    by (auto simp: act_upd_def sub_def poseidon_channel_subscribe_def quasar_subscribe_def locally_subscribed_def Let_def
        split: prod.splits if_splits option.splits)
  have "keeps (dial_subs (q_local_subs (ch_quasar (m_dial m2)))) (publish_item (dial_publish n env) env 0 t
       (meridian_channel_bootstrap_encode t (poseidon_channel_get_topic (m_dial m2)) (me_realtime_us env)))"
    by (intro mgr_subs.keeps_publish_item mgr_subs.keeps_publish)
  from keepsD [OF this _ pub] have "q_local_subs (ch_quasar (m_dial m')) = q_local_subs (ch_quasar (m_dial m2))"
    by (simp add: dial_subs_def)
  with m2 show ?thesis
    using locally_subscribed_subs by blast
qed

lemma delete_notice_overflows:
  assumes "malloc_ok (me_malloc env)" "delete_notice_wf n"
    and "poseidon_channel_verify_delete_notice (me_ssl env) (me_blake3 env) (me_malloc env) n = 0"
    and "mgr_ok m" "dial_wired m" "locally_subscribed (ch_quasar (m_dial m)) (dn_topic_id n)"
  shows "poseidon_channel_manager_handle_delete_notice (dial_publish k env) env n m = Overflow"
proof -
  obtain it buf where it: "meridian_channel_delete_notice_encode n = Some it"
      "cbor_serialize_alloc (me_malloc env) it = Some buf" "cbor_load_item (me_malloc env) buf = Some it"
      "meridian_channel_delete_notice_decode it = Ret n"
      "\<exists>es. it = CBOR_ARRAY True (cbor_build_uint8 MERIDIAN_PACKET_TYPE_CHANNEL_DELETE_NOTICE # es)"
    using delete_notice_travels [OF assms(1,2)] .
  note intercept = intercept_delete [OF it(3-5) assms(3)]
  from assms(4-6) show ?thesis
  proof (induction k arbitrary: m)
    case (0 m)
    obtain m' es where "delete_local env n m = Done ((), m', es)"
      using delete_local_defined [OF 0(1)] .
    with it(1,2) show ?case
      by (simp add: handle_delete_notice_local act_bind_def publish_item_def)
  next
    case (Suc k m)
    obtain m' es where m': "delete_local env n m = Done ((), m', es)" "m_dial m' = m_dial m"
      using delete_local_defined [OF Suc.prems(1)] .
    have "mgr_ok m'" "dial_wired m'"
      using keepsD [OF keeps_delete_local(1) Suc.prems(1) m'(1)] Suc.prems(2) m'(2) by (simp_all add: dial_wired_def)
    with Suc.IH [of m'] Suc.prems m'(2)
    have "poseidon_channel_manager_handle_delete_notice (dial_publish k env) env n m' = Overflow"
      by simp
    then have "dial_message (dial_publish k env) env (dn_topic_id n) buf m' = Overflow"
      using \<open>dial_wired m'\<close> by (simp add: dial_message_def act_bind_def act_get_def intercept dial_wired_def)
    then have "dial_publish (Suc k) env (dn_topic_id n) buf m' = Overflow"
      using Suc.prems m'(2) by (simp add: act_bind_def dial_wired_def)
    with m'(1) it(1,2) show ?case
      by (simp add: handle_delete_notice_local act_bind_def publish_item_def)
  qed
qed

section \<open>Properties\<close>

text \<open>A node can sign a deletion notice for any topic, and it verifies.\<close>

lemma signed_delete_verifies:
  assumes "openssl_ok ssl" "blake3_ok blake3" "malloc_ok malloc" "channel_identity_ok ssl blake3 ch"
    and "ed25519_key_ok ssl (ch_key_pair ch)" "c_string 64 topic"
  obtains n where "delete_notice_wf n" "dn_topic_id n = topic" "dn_node_id n = nid_str (ch_node_id ch)"
    "poseidon_channel_verify_delete_notice ssl blake3 malloc n = 0"
proof -
  obtain pub where pub: "poseidon_key_pair_get_public_key ssl (ch_key_pair ch) = Some pub"
      "poseidon_node_id_verify_public_key blake3 (ch_node_id ch) pub = 0"
      "poseidon_node_id_from_string (nid_str (ch_node_id ch)) = Some (ch_node_id ch)"
      "c_string 48 (nid_str (ch_node_id ch))"
    using channel_identity [OF assms(2,4)] .
  have len: "length pub \<le> 64"
    using assms(5) pub(1) by (simp add: ed25519_key_ok_def)
  define n where "n = (\<lambda>sig. \<lparr>dn_type = MERIDIAN_PACKET_TYPE_CHANNEL_DELETE_NOTICE, dn_topic_id = topic,
      dn_node_id = nid_str (ch_node_id ch), dn_key_type = name_ED25519, dn_public_key = pub, dn_timestamp_us = 0,
      dn_signature = sig\<rparr>)"
  have wf: "delete_notice_wf (n sig)" if "length sig \<le> 64" for sig
    using len that assms(6) c_string_take [OF pub(4)]
    by (simp add: n_def delete_notice_wf_def notice_fields_wf_def POSEIDON_CHANNEL_NOTICE_MAX_PUBLIC_KEY_def
        POSEIDON_CHANNEL_NOTICE_MAX_SIGNATURE_def)
  from wf [of "[]"] have "notice_fields_wf (n [])"
    by (simp add: delete_notice_wf_def)
  then obtain buf where buf: "signable_bytes malloc (delete_signable (n [])) = Some buf"
    using signable_bytes_ok [OF assms(3)] by blast
  obtain sig where sig: "poseidon_key_pair_sign ssl (ch_key_pair ch) buf = Some sig" "length sig \<le> 64"
    using ed25519_sign [OF assms(5)] .
  have "kp_key_type (ch_key_pair ch) = name_ED25519"
    using assms(4) by (simp add: channel_identity_ok_def)
  with sig buf pub sign_verify [OF assms(1) pub(1)]
  have "poseidon_channel_verify_delete_notice ssl blake3 malloc (n sig) = 0"
    by (simp add: poseidon_channel_verify_delete_notice_def verify_notice_def delete_signable_def n_def)
  with wf [OF sig(2)] show thesis
    by (intro that [of "n sig"]) (simp_all add: n_def)
qed

lemma example_identity:
  assumes "poseidon_node_id_from_public_key (\<lambda>_. Some (replicate 32 5)) [9] = Some nid"
  shows "openssl_ok (me_ssl example_env)" "blake3_ok (me_blake3 example_env)" "malloc_ok (me_malloc example_env)"
    "channel_identity_ok (me_ssl example_env) (me_blake3 example_env) (example_channel nid)"
    "ed25519_key_ok (me_ssl example_env) (ch_key_pair (example_channel nid))"
  using assms by (simp_all add: example_env_def example_ssl_def openssl_ok_def blake3_ok_def malloc_ok_def
      channel_identity_ok_def ed25519_key_ok_def poseidon_key_pair_get_public_key_def example_channel_def example_key_def)

lemma example_node_id:
  obtains nid where "poseidon_node_id_from_public_key (\<lambda>_. Some (replicate 32 5)) [9] = Some nid"
  using node_id_from_key [of "\<lambda>_. Some (replicate 32 5)" "[9]" "replicate 32 5"] by auto

text \<open>
  C39. A deletion notice on a topic the dial channel subscribes to is never finished
  with. The dial channel subscribes to a topic when the node joins it; the manager
  handles a verified notice by publishing it again on the same topic, which the dial
  channel delivers back to the manager, which publishes it again. However deep the
  stack is, it overflows.
\<close>

theorem delete_notice_recursion:
  assumes "malloc_ok (me_malloc env)" "delete_notice_wf n"
    and "poseidon_channel_verify_delete_notice (me_ssl env) (me_blake3 env) (me_malloc env) n = 0"
    and "mgr_ok m" "dial_wired m" "locally_subscribed (ch_quasar (m_dial m)) (dn_topic_id n)"
  shows "\<exists>it buf. meridian_channel_delete_notice_encode n = Some it
    \<and> cbor_serialize_alloc (me_malloc env) it = Some buf
    \<and> (\<forall>depth topic. dial_message (dial_publish depth env) env topic buf m = Overflow)"
proof -
  obtain it buf where it: "meridian_channel_delete_notice_encode n = Some it"
      "cbor_serialize_alloc (me_malloc env) it = Some buf" "cbor_load_item (me_malloc env) buf = Some it"
      "meridian_channel_delete_notice_decode it = Ret n"
      "\<exists>es. it = CBOR_ARRAY True (cbor_build_uint8 MERIDIAN_PACKET_TYPE_CHANNEL_DELETE_NOTICE # es)"
    using delete_notice_travels [OF assms(1,2)] .
  have "dial_message (dial_publish depth env) env topic buf m = Overflow" for depth topic
    using delete_notice_overflows [OF assms] assms(5)
    by (simp add: dial_message_def act_bind_def act_get_def intercept_delete [OF it(3-5) assms(3)] dial_wired_def)
  with it(1,2) show ?thesis
    by blast
qed

theorem delete_notice_recursion_witness:
  "\<exists>n nid it buf. let d = m_dial (example_state nid);
        m = (example_state nid)\<lparr>m_dial := d\<lparr>ch_quasar := (ch_quasar d)
              \<lparr>q_local_subs := [\<lparr>sub_topic = [65], sub_ttl = 300\<rparr>]\<rparr>\<rparr>\<rparr>
     in dn_topic_id n = [65] \<and> meridian_channel_delete_notice_encode n = Some it
        \<and> cbor_serialize_alloc (me_malloc example_env) it = Some buf
        \<and> dial_message (dial_publish 1000 example_env) example_env [65] buf m = Overflow"
proof -
  obtain nid where nid: "poseidon_node_id_from_public_key (\<lambda>_. Some (replicate 32 5)) [9] = Some nid"
    using example_node_id .
  obtain n where n: "delete_notice_wf n" "dn_topic_id n = [65]"
      "poseidon_channel_verify_delete_notice (me_ssl example_env) (me_blake3 example_env) (me_malloc example_env) n = 0"
    by (rule signed_delete_verifies [OF example_identity [OF nid], of "[65]"]) (simp_all add: c_string_def)
  let ?d = "m_dial (example_state nid)"
  let ?m = "(example_state nid)\<lparr>m_dial := ?d\<lparr>ch_quasar := (ch_quasar ?d)
      \<lparr>q_local_subs := [\<lparr>sub_topic = [65], sub_ttl = 300\<rparr>]\<rparr>\<rparr>\<rparr>"
  have "mgr_ok ?m" "dial_wired ?m" "locally_subscribed (ch_quasar (m_dial ?m)) (dn_topic_id n)"
    using example_state_ok [of nid] n(2) by (simp_all add: mgr_ok_def dial_wired_def locally_subscribed_def)
  from delete_notice_recursion [OF example_identity(3) [OF nid] n(1,3) this]
  show ?thesis
    unfolding Let_def using n(2) by blast
qed



end
