(* ===== verification/ClientProtocol.thy ===== *)
theory ClientProtocol
  imports Notice
begin

text \<open>
  The frames between the daemon and its clients
  (\<open>src/ClientAPIs/client_protocol.c\<close>): requests, signed admin requests, responses
  and events as CBOR arrays. The decoder clears the whole frame first, so fields a
  frame type does not carry are zero; \<open>name\<close> and \<open>candidates\<close> are never set.
\<close>

definition CLIENT_FRAME_REQUEST :: byte where "CLIENT_FRAME_REQUEST = 1"
definition CLIENT_FRAME_RESPONSE :: byte where "CLIENT_FRAME_RESPONSE = 2"
definition CLIENT_FRAME_EVENT :: byte where "CLIENT_FRAME_EVENT = 3"

definition CLIENT_METHOD_CHANNEL_CREATE :: byte where "CLIENT_METHOD_CHANNEL_CREATE = 1"
definition CLIENT_METHOD_CHANNEL_JOIN :: byte where "CLIENT_METHOD_CHANNEL_JOIN = 2"
definition CLIENT_METHOD_CHANNEL_LEAVE :: byte where "CLIENT_METHOD_CHANNEL_LEAVE = 3"
definition CLIENT_METHOD_CHANNEL_DESTROY :: byte where "CLIENT_METHOD_CHANNEL_DESTROY = 4"
definition CLIENT_METHOD_CHANNEL_MODIFY :: byte where "CLIENT_METHOD_CHANNEL_MODIFY = 5"
definition CLIENT_METHOD_SUBSCRIBE :: byte where "CLIENT_METHOD_SUBSCRIBE = 6"
definition CLIENT_METHOD_UNSUBSCRIBE :: byte where "CLIENT_METHOD_UNSUBSCRIBE = 7"
definition CLIENT_METHOD_PUBLISH :: byte where "CLIENT_METHOD_PUBLISH = 8"
definition CLIENT_METHOD_ALIAS_REGISTER :: byte where "CLIENT_METHOD_ALIAS_REGISTER = 9"
definition CLIENT_METHOD_ALIAS_UNREGISTER :: byte where "CLIENT_METHOD_ALIAS_UNREGISTER = 10"
definition CLIENT_METHOD_ALIAS_RESOLVE :: byte where "CLIENT_METHOD_ALIAS_RESOLVE = 11"

definition CLIENT_ERROR_OK :: byte where "CLIENT_ERROR_OK = 0"
definition CLIENT_ERROR_UNKNOWN_METHOD :: byte where "CLIENT_ERROR_UNKNOWN_METHOD = 1"
definition CLIENT_ERROR_INVALID_PARAMS :: byte where "CLIENT_ERROR_INVALID_PARAMS = 2"
definition CLIENT_ERROR_CHANNEL_NOT_FOUND :: byte where "CLIENT_ERROR_CHANNEL_NOT_FOUND = 3"
definition CLIENT_ERROR_ALIAS_AMBIGUOUS :: byte where "CLIENT_ERROR_ALIAS_AMBIGUOUS = 4"
definition CLIENT_ERROR_NOT_AUTHORIZED :: byte where "CLIENT_ERROR_NOT_AUTHORIZED = 5"
definition CLIENT_ERROR_TOO_MANY_CHANNELS :: byte where "CLIENT_ERROR_TOO_MANY_CHANNELS = 7"
definition CLIENT_ERROR_TRANSPORT :: byte where "CLIENT_ERROR_TRANSPORT = 8"

definition CLIENT_EVENT_MESSAGE :: byte where "CLIENT_EVENT_MESSAGE = 1"

definition CLIENT_MAX_TOPIC_PATH :: nat where "CLIENT_MAX_TOPIC_PATH = 256"
definition CLIENT_MAX_RESULT_DATA :: nat where "CLIENT_MAX_RESULT_DATA = 1024"
definition CLIENT_MAX_SUBTOPIC :: nat where "CLIENT_MAX_SUBTOPIC = 256"
definition CLIENT_MAX_PAYLOAD :: nat where "CLIENT_MAX_PAYLOAD = 65536"
definition CLIENT_MAX_SIGNATURE :: nat where "CLIENT_MAX_SIGNATURE = 64"

lemmas client_frame_defs = CLIENT_FRAME_REQUEST_def CLIENT_FRAME_RESPONSE_def CLIENT_FRAME_EVENT_def
lemmas client_limit_defs = CLIENT_MAX_TOPIC_PATH_def CLIENT_MAX_RESULT_DATA_def CLIENT_MAX_SUBTOPIC_def
  CLIENT_MAX_PAYLOAD_def CLIENT_MAX_SIGNATURE_def
lemmas client_method_defs = CLIENT_METHOD_CHANNEL_CREATE_def CLIENT_METHOD_CHANNEL_JOIN_def
  CLIENT_METHOD_CHANNEL_LEAVE_def CLIENT_METHOD_CHANNEL_DESTROY_def CLIENT_METHOD_CHANNEL_MODIFY_def
  CLIENT_METHOD_SUBSCRIBE_def CLIENT_METHOD_UNSUBSCRIBE_def CLIENT_METHOD_PUBLISH_def
  CLIENT_METHOD_ALIAS_REGISTER_def CLIENT_METHOD_ALIAS_UNREGISTER_def CLIENT_METHOD_ALIAS_RESOLVE_def

record client_frame =
  cf_frame_type :: byte
  cf_request_id :: u32
  cf_method :: byte
  cf_error_code :: byte
  cf_event_type :: byte
  cf_topic_path :: bytes
  cf_subtopic :: bytes
  cf_result_data :: bytes
  cf_payload :: bytes
  cf_signature :: bytes

definition client_frame_clear :: client_frame where
  "client_frame_clear =
     \<lparr>cf_frame_type = 0, cf_request_id = 0, cf_method = 0, cf_error_code = 0, cf_event_type = 0, cf_topic_path = [],
      cf_subtopic = [], cf_result_data = [], cf_payload = [], cf_signature = []\<rparr>"

section \<open>Encoding\<close>

definition client_protocol_encode_request :: "u32 \<Rightarrow> byte \<Rightarrow> bytes option \<Rightarrow> bytes \<Rightarrow> cbor_item option" where
  "client_protocol_encode_request request_id method topic_path payload =
     (case topic_path of
        None \<Rightarrow> None
      | Some topic \<Rightarrow>
          cbor_array_of 5 [cbor_build_uint8 CLIENT_FRAME_REQUEST, cbor_build_uint32 request_id, cbor_build_uint8 method,
                           cbor_build_string topic, cbor_build_bytestring payload])"

definition client_protocol_encode_admin_request ::
  "u32 \<Rightarrow> byte \<Rightarrow> bytes option \<Rightarrow> bytes \<Rightarrow> bytes \<Rightarrow> cbor_item option" where
  "client_protocol_encode_admin_request request_id method topic_path signature config_data =
     (case topic_path of
        None \<Rightarrow> None
      | Some topic \<Rightarrow>
          cbor_array_of 6 [cbor_build_uint8 CLIENT_FRAME_REQUEST, cbor_build_uint32 request_id, cbor_build_uint8 method,
                           cbor_build_string topic, cbor_build_bytestring signature, cbor_build_bytestring config_data])"

definition client_protocol_encode_response :: "u32 \<Rightarrow> byte \<Rightarrow> bytes option \<Rightarrow> cbor_item option" where
  "client_protocol_encode_response request_id error_code result_data =
     cbor_array_of 4 [cbor_build_uint8 CLIENT_FRAME_RESPONSE, cbor_build_uint32 request_id, cbor_build_uint8 error_code,
                      cbor_build_string (case result_data of None \<Rightarrow> [] | Some s \<Rightarrow> s)]"

definition client_protocol_encode_event :: "byte \<Rightarrow> bytes option \<Rightarrow> bytes option \<Rightarrow> bytes \<Rightarrow> cbor_item option" where
  "client_protocol_encode_event event_type topic_id subtopic data =
     (case (topic_id, subtopic) of
        (Some topic, Some sub) \<Rightarrow>
          cbor_array_of 5 [cbor_build_uint8 CLIENT_FRAME_EVENT, cbor_build_uint8 event_type, cbor_build_string topic,
                           cbor_build_string sub, cbor_build_bytestring data]
      | _ \<Rightarrow> None)"

section \<open>Decoding\<close>

definition frame_string :: "nat \<Rightarrow> cbor_item \<Rightarrow> bytes cres" where
  "frame_string n it = cguard (cbor_isa_string it) (cbor_string_into n it)"

definition frame_bytes :: "nat \<Rightarrow> cbor_item \<Rightarrow> bytes cres" where
  "frame_bytes n it =
     cguard (cbor_isa_bytestring it) (cbind (cbor_bytestring_bytes it) (\<lambda>bs. cguard (length bs \<le> n) (Ret bs)))"

definition client_protocol_decode :: "cbor_item \<Rightarrow> client_frame cres" where
  "client_protocol_decode item =
     cbind (cbor_definite_elems item) (\<lambda>items.
     cguard (length items \<ge> 1) (
     cguard (cbor_isa_uint (items ! 0)) (
     cbind (cbor_get_uint8 (items ! 0)) (\<lambda>frame_type.
       let out = client_frame_clear\<lparr>cf_frame_type := frame_type\<rparr>
       in if frame_type = CLIENT_FRAME_REQUEST then
            if length items = 5 then
              cbind (cbor_get_uint32 (items ! 1)) (\<lambda>request_id.
              cbind (cbor_get_uint8 (items ! 2)) (\<lambda>method.
              cbind (frame_string CLIENT_MAX_TOPIC_PATH (items ! 3)) (\<lambda>topic.
              cbind (frame_bytes CLIENT_MAX_PAYLOAD (items ! 4)) (\<lambda>payload.
              Ret (out\<lparr>cf_request_id := request_id, cf_method := method, cf_topic_path := topic,
                       cf_payload := payload\<rparr>)))))
            else if length items = 6 then
              cbind (cbor_get_uint32 (items ! 1)) (\<lambda>request_id.
              cbind (cbor_get_uint8 (items ! 2)) (\<lambda>method.
              cbind (frame_string CLIENT_MAX_TOPIC_PATH (items ! 3)) (\<lambda>topic.
              cbind (frame_bytes CLIENT_MAX_SIGNATURE (items ! 4)) (\<lambda>signature.
              cbind (frame_bytes CLIENT_MAX_PAYLOAD (items ! 5)) (\<lambda>payload.
              Ret (out\<lparr>cf_request_id := request_id, cf_method := method, cf_topic_path := topic,
                       cf_signature := signature, cf_payload := payload\<rparr>))))))
            else Fail
          else if frame_type = CLIENT_FRAME_RESPONSE then
            cguard (length items \<ge> 4) (
            cbind (cbor_get_uint32 (items ! 1)) (\<lambda>request_id.
            cbind (cbor_get_uint8 (items ! 2)) (\<lambda>error_code.
            cbind (frame_string CLIENT_MAX_RESULT_DATA (items ! 3)) (\<lambda>result_data.
            Ret (out\<lparr>cf_request_id := request_id, cf_error_code := error_code, cf_result_data := result_data\<rparr>)))))
          else if frame_type = CLIENT_FRAME_EVENT then
            cguard (length items \<ge> 5) (
            cbind (cbor_get_uint8 (items ! 1)) (\<lambda>event_type.
            cbind (frame_string CLIENT_MAX_TOPIC_PATH (items ! 2)) (\<lambda>topic.
            cbind (frame_string CLIENT_MAX_SUBTOPIC (items ! 3)) (\<lambda>subtopic.
            cbind (frame_bytes CLIENT_MAX_PAYLOAD (items ! 4)) (\<lambda>payload.
            Ret (out\<lparr>cf_event_type := event_type, cf_topic_path := topic, cf_subtopic := subtopic,
                     cf_payload := payload\<rparr>))))))
          else Fail))))"

definition client_protocol_serialize :: "(nat \<Rightarrow> bool) \<Rightarrow> cbor_item option \<Rightarrow> bytes option" where
  "client_protocol_serialize malloc frame =
     (case frame of None \<Rightarrow> None | Some it \<Rightarrow> cbor_serialize_alloc malloc it)"

section \<open>Flat arrays on the wire\<close>

text \<open>An array of integers and short strings can always be sent, and arrives as it was.\<close>

inductive cbor_flat :: "cbor_item \<Rightarrow> bool" where
  "cbor_flat (cbor_build_uint8 b)"
| "cbor_flat (cbor_build_uint16 h)"
| "cbor_flat (cbor_build_uint32 w)"
| "cbor_flat (cbor_build_uint64 q)"
| "length bs \<le> 2 ^ 32 \<Longrightarrow> cbor_flat (cbor_build_string bs)"
| "length bs \<le> 2 ^ 32 \<Longrightarrow> cbor_flat (cbor_build_bytestring bs)"

lemma cbor_flat_loadable:
  assumes "malloc_ok malloc"
  shows "cbor_flat it \<Longrightarrow> cbor_loadable malloc it"
proof (induction rule: cbor_flat.induct)
  case (5 bs)
  then show ?case
    by (intro cbor_loadable_built(5) [OF assms]) simp
next
  case (6 bs)
  then show ?case
    by (intro cbor_loadable_built(6) [OF assms]) simp
qed (simp_all only: cbor_loadable_built [OF assms])

lemma cbor_flat_size: "cbor_flat it \<Longrightarrow> cbor_depth it = 0 \<and> length (cbor_encoding it) \<le> 2 ^ 32 + 9"
  by (induction rule: cbor_flat.induct)
    (auto simp: cbor_built_defs length_cbor_encode_int cbor_int_size_def length_cbor_encode_uint
      cbor_encoded_header_size_def)

lemma cbor_flat_items:
  assumes "list_all cbor_flat es" "malloc_ok malloc"
  shows "cbor_items_loadable malloc es \<and> cbor_items_depth es = 0
    \<and> length (cbor_items_encoding es) \<le> (2 ^ 32 + 9) * length es"
  using assms(1)
proof (induction es)
  case (Cons e es)
  with cbor_flat_loadable [OF assms(2), of e] cbor_flat_size [of e] show ?case
    by simp
qed simp

lemma flat_array_travels:
  assumes "malloc_ok malloc" "list_all cbor_flat es" "length es \<le> 1000"
  obtains buf where "cbor_serialize_alloc malloc (CBOR_ARRAY True es) = Some buf"
    "cbor_load_item malloc buf = Some (CBOR_ARRAY True es)"
proof -
  note items = cbor_flat_items [OF assms(2,1)]
  have "length (cbor_encoding (CBOR_ARRAY True es)) < 2 ^ 64"
    using items assms(3) length_built(6) [of "of_nat (length es)" "0x80"] by simp
  then have buf: "cbor_serialize_alloc malloc (CBOR_ARRAY True es) = Some (cbor_encoding (CBOR_ARRAY True es))"
    using assms(1) by (simp only: malloc_ok_def cbor_serialize_alloc_eq) simp
  moreover have "cbor_loadable malloc (CBOR_ARRAY True es)" "cbor_depth (CBOR_ARRAY True es) \<le> CBOR_MAX_STACK_SIZE"
    using items assms(3) cbor_loadable_built(7) [OF assms(1), of es] by (simp_all add: CBOR_MAX_STACK_SIZE_def)
  ultimately show thesis
    using that cbor_load_item_serialized by blast
qed

section \<open>Properties\<close>

text \<open>What a frame of each kind holds, and the arguments for which it fits.\<close>

definition request_frame :: "u32 \<Rightarrow> byte \<Rightarrow> bytes \<Rightarrow> bytes \<Rightarrow> client_frame" where
  "request_frame rid method topic payload =
     client_frame_clear\<lparr>cf_frame_type := CLIENT_FRAME_REQUEST, cf_request_id := rid, cf_method := method,
                        cf_topic_path := topic, cf_payload := payload\<rparr>"

definition response_frame :: "u32 \<Rightarrow> byte \<Rightarrow> bytes \<Rightarrow> client_frame" where
  "response_frame rid code result =
     client_frame_clear\<lparr>cf_frame_type := CLIENT_FRAME_RESPONSE, cf_request_id := rid, cf_error_code := code,
                        cf_result_data := result\<rparr>"

definition event_frame :: "byte \<Rightarrow> bytes \<Rightarrow> bytes \<Rightarrow> bytes \<Rightarrow> client_frame" where
  "event_frame ev topic sub data =
     client_frame_clear\<lparr>cf_frame_type := CLIENT_FRAME_EVENT, cf_event_type := ev, cf_topic_path := topic,
                        cf_subtopic := sub, cf_payload := data\<rparr>"

text \<open>Receiving bytes: \<open>cbor_load\<close> and then the decoder, as every transport and the client library do.\<close>

definition client_receive :: "(nat \<Rightarrow> bool) \<Rightarrow> bytes \<Rightarrow> client_frame cres" where
  "client_receive malloc buf =
     (case cbor_load_item malloc buf of None \<Rightarrow> Fail | Some item \<Rightarrow> client_protocol_decode item)"

lemmas frame_decode_defs = client_protocol_decode_def frame_string_def frame_bytes_def Let_def client_frame_defs

lemma frame_travels:
  assumes "malloc_ok malloc" "list_all cbor_flat es" "length es \<le> 1000"
  shows "\<exists>buf. cbor_serialize_alloc malloc (CBOR_ARRAY True es) = Some buf
    \<and> client_receive malloc buf = client_protocol_decode (CBOR_ARRAY True es)"
  using flat_array_travels [OF assms] by (metis client_receive_def option.simps(5))

lemma request_travels:
  assumes "malloc_ok malloc" "c_string 256 topic" "length payload \<le> 65536"
  shows "\<exists>buf. client_protocol_serialize malloc (client_protocol_encode_request rid method (Some topic) payload) = Some buf
    \<and> client_receive malloc buf = Ret (request_frame rid method topic payload)"
proof -
  let ?es = "[cbor_build_uint8 1, cbor_build_uint32 rid, cbor_build_uint8 method, cbor_build_string topic,
      cbor_build_bytestring payload]"
  have "client_protocol_decode (CBOR_ARRAY True ?es) = Ret (request_frame rid method topic payload)"
    using assms by (simp add: frame_decode_defs client_limit_defs request_frame_def)
  moreover have "list_all cbor_flat ?es"
    using assms by (simp add: cbor_flat.intros c_string_def)
  ultimately show ?thesis
    using frame_travels [OF assms(1), of ?es]
    by (simp add: client_protocol_serialize_def client_protocol_encode_request_def client_frame_defs)
qed

lemma admin_request_travels:
  assumes "malloc_ok malloc" "c_string 256 topic" "length sig \<le> 64" "length config \<le> 65536"
  shows "\<exists>buf. client_protocol_serialize malloc
        (client_protocol_encode_admin_request rid method (Some topic) sig config) = Some buf
    \<and> client_receive malloc buf = Ret ((request_frame rid method topic config)\<lparr>cf_signature := sig\<rparr>)"
proof -
  let ?es = "[cbor_build_uint8 1, cbor_build_uint32 rid, cbor_build_uint8 method, cbor_build_string topic,
      cbor_build_bytestring sig, cbor_build_bytestring config]"
  have "client_protocol_decode (CBOR_ARRAY True ?es) = Ret ((request_frame rid method topic config)\<lparr>cf_signature := sig\<rparr>)"
    using assms by (simp add: frame_decode_defs client_limit_defs request_frame_def)
  moreover have "list_all cbor_flat ?es"
    using assms by (simp add: cbor_flat.intros c_string_def)
  ultimately show ?thesis
    using frame_travels [OF assms(1), of ?es]
    by (simp add: client_protocol_serialize_def client_protocol_encode_admin_request_def client_frame_defs)
qed

lemma response_travels:
  assumes "malloc_ok malloc" "c_string 1024 result"
  shows "\<exists>buf. client_protocol_serialize malloc (client_protocol_encode_response rid code (Some result)) = Some buf
    \<and> client_receive malloc buf = Ret (response_frame rid code result)"
proof -
  let ?es = "[cbor_build_uint8 2, cbor_build_uint32 rid, cbor_build_uint8 code, cbor_build_string result]"
  have "client_protocol_decode (CBOR_ARRAY True ?es) = Ret (response_frame rid code result)"
    using assms by (simp add: frame_decode_defs client_limit_defs response_frame_def)
  moreover have "list_all cbor_flat ?es"
    using assms by (simp add: cbor_flat.intros c_string_def)
  ultimately show ?thesis
    using frame_travels [OF assms(1), of ?es]
    by (simp add: client_protocol_serialize_def client_protocol_encode_response_def client_frame_defs)
qed

lemma event_travels:
  assumes "malloc_ok malloc" "c_string 256 topic" "c_string 256 sub" "length data \<le> 65536"
  shows "\<exists>buf. client_protocol_serialize malloc (client_protocol_encode_event ev (Some topic) (Some sub) data) = Some buf
    \<and> client_receive malloc buf = Ret (event_frame ev topic sub data)"
proof -
  let ?es = "[cbor_build_uint8 3, cbor_build_uint8 ev, cbor_build_string topic, cbor_build_string sub,
      cbor_build_bytestring data]"
  have "client_protocol_decode (CBOR_ARRAY True ?es) = Ret (event_frame ev topic sub data)"
    using assms by (simp add: frame_decode_defs client_limit_defs event_frame_def)
  moreover have "list_all cbor_flat ?es"
    using assms by (simp add: cbor_flat.intros c_string_def)
  ultimately show ?thesis
    using frame_travels [OF assms(1), of ?es]
    by (simp add: client_protocol_serialize_def client_protocol_encode_event_def client_frame_defs)
qed

text \<open>
  Every frame a client or the daemon can build within the limits of the protocol
  arrives as it was sent: requests, signed admin requests, responses and events are
  encoded, serialised, loaded and decoded back to the same fields.
\<close>

theorem client_frames_roundtrip:
  assumes "malloc_ok malloc" "c_string 256 topic" "c_string 256 sub" "length payload \<le> 65536" "length sig \<le> 64"
    and "c_string 1024 result"
  shows "(\<exists>buf. client_protocol_serialize malloc (client_protocol_encode_request rid method (Some topic) payload) = Some buf
        \<and> client_receive malloc buf = Ret (request_frame rid method topic payload))
    \<and> (\<exists>buf. client_protocol_serialize malloc
            (client_protocol_encode_admin_request rid method (Some topic) sig payload) = Some buf
        \<and> client_receive malloc buf = Ret ((request_frame rid method topic payload)\<lparr>cf_signature := sig\<rparr>))
    \<and> (\<exists>buf. client_protocol_serialize malloc (client_protocol_encode_response rid code (Some result)) = Some buf
        \<and> client_receive malloc buf = Ret (response_frame rid code result))
    \<and> (\<exists>buf. client_protocol_serialize malloc
            (client_protocol_encode_event ev (Some topic) (Some sub) payload) = Some buf
        \<and> client_receive malloc buf = Ret (event_frame ev topic sub payload))"
  using assms by (intro conjI request_travels admin_request_travels response_travels event_travels)

theorem client_frames_roundtrip_witness:
  "\<exists>buf. client_protocol_serialize (\<lambda>_. True)
       (client_protocol_encode_admin_request 7 CLIENT_METHOD_CHANNEL_DESTROY (Some [65, 66]) [1, 2, 3] []) = Some buf
     \<and> client_receive (\<lambda>_. True) buf =
         Ret ((request_frame 7 CLIENT_METHOD_CHANNEL_DESTROY [65, 66] [])\<lparr>cf_signature := [1, 2, 3]\<rparr>)"
  by (rule client_frames_roundtrip [where sub = "[]" and result = "[]", THEN conjunct2, THEN conjunct1])
    (simp_all add: malloc_ok_def c_string_def)

definition client_frame_ok :: "client_frame \<Rightarrow> bool" where
  "client_frame_ok f \<longleftrightarrow>
     cf_frame_type f \<in> {CLIENT_FRAME_REQUEST, CLIENT_FRAME_RESPONSE, CLIENT_FRAME_EVENT}
     \<and> c_string CLIENT_MAX_TOPIC_PATH (cf_topic_path f) \<and> c_string CLIENT_MAX_SUBTOPIC (cf_subtopic f)
     \<and> c_string CLIENT_MAX_RESULT_DATA (cf_result_data f) \<and> length (cf_payload f) \<le> CLIENT_MAX_PAYLOAD
     \<and> length (cf_signature f) \<le> CLIENT_MAX_SIGNATURE"

lemma frame_string_Ret: "frame_string n it = Ret bs \<Longrightarrow> c_string n bs"
  by (auto simp: frame_string_def intro: cbor_string_into_c_string)

lemma frame_bytes_Ret: "frame_bytes n it = Ret bs \<Longrightarrow> length bs \<le> n"
  by (auto simp: frame_bytes_def)

text \<open>
  Whatever item a peer sends, a frame the decoder accepts is one of the three
  kinds and stays within its buffers: the strings are terminated inside them, and the
  payload and the signature are no longer than theirs.
\<close>

theorem client_decode_limits:
  assumes "client_protocol_decode item = Ret f"
  shows "client_frame_ok f"
  using assms
  by (auto simp: client_protocol_decode_def Let_def client_frame_ok_def client_frame_clear_def c_string_def client_limit_defs
      dest!: frame_string_Ret frame_bytes_Ret split: if_splits)

theorem client_decode_limits_witness:
  "client_frame_ok (response_frame 3 0 [111, 107])"
  by (rule client_decode_limits [of "CBOR_ARRAY True [cbor_build_uint8 2, cbor_build_uint32 3, cbor_build_uint8 0,
        cbor_build_string [111, 107]]"])
    (simp add: frame_decode_defs client_limit_defs response_frame_def c_string_def)

text \<open>
  The decoder reads the request identifier as a 32 bit integer without looking at
  the width it was sent with: a request whose identifier has the shortest encoding, as
  most CBOR encoders produce it, or whose identifier is not an integer, makes it read
  outside the item.
\<close>

theorem client_decode_width_unchecked:
  "client_protocol_decode (CBOR_ARRAY True [cbor_build_uint8 1, cbor_build_uint8 rid, m, t, p]) = Undef
   \<and> client_protocol_decode (CBOR_ARRAY True [cbor_build_uint8 1, cbor_build_string s, m, t, p]) = Undef
   \<and> client_protocol_decode (cbor_build_string s) = Undef"
  by (simp add: frame_decode_defs cbor_get_uint32_def cbor_build_uint8_def cbor_build_string_def cbor_get_uint8_def
      cbor_definite_elems_def)

end
