(* ===== verification/ClientSession.thy ===== *)
theory ClientSession
  imports NoticeFlow ClientProtocol
begin

text \<open>
  The sessions of the daemon's clients (\<open>src/ClientAPIs/client_session.c\<close>): the
  subscriptions of a session, the request handler on top of the channel manager, and
  the delivery of channel messages to the sessions that subscribed.

  Sessions are objects that the manager's registry points to, like channels: reading a
  session that was freed is \<open>Undefined\<close>. The message callback of a channel is
  \<open>session_dispatch_message\<close>; it changes neither channels nor sessions, so it runs on
  the messages of an operation of the manager right after it.
\<close>

section \<open>State\<close>

definition CLIENT_SESSION_MAX_SUBSCRIPTIONS :: nat where "CLIENT_SESSION_MAX_SUBSCRIPTIONS = 256"

record client_subscription =
  csub_topic_path :: bytes
  csub_active :: bool
  csub_loopback :: bool

text \<open>\<open>cs_transport\<close> identifies the transport, and \<open>cs_manager\<close> tells whether the session has the manager.\<close>

record client_session =
  cs_session_id :: u32
  cs_client_fd :: int
  cs_transport :: "nat option"
  cs_manager :: bool
  cs_subscriptions :: "client_subscription list"
  cs_next_request_id :: u32

text \<open>
  The daemon: the manager, the sessions that are allocated, and \<open>publisher_session\<close> of
  every channel.
\<close>

record daemon =
  d_mgr :: poseidon_channel_manager
  d_sessions :: "nat \<Rightarrow> client_session option"
  d_publisher :: "nat \<Rightarrow> nat option"

datatype session_effect = Chan channel_effect | Transport_send nat int bytes

definition client_session_create :: "u32 \<Rightarrow> bool \<Rightarrow> client_session" where
  "client_session_create session_id manager =
     \<lparr>cs_session_id = session_id, cs_client_fd = - 1, cs_transport = None, cs_manager = manager,
      cs_subscriptions = [], cs_next_request_id = 1\<rparr>"

section \<open>Subscriptions\<close>

definition csub_is :: "bytes \<Rightarrow> client_subscription \<Rightarrow> bool" where
  "csub_is topic_path u \<longleftrightarrow> csub_active u \<and> csub_topic_path u = topic_path"

definition client_session_is_subscribed :: "client_session \<Rightarrow> bytes \<Rightarrow> bool" where
  "client_session_is_subscribed session topic_path = list_ex (csub_is topic_path) (cs_subscriptions session)"

definition client_session_has_loopback :: "client_session \<Rightarrow> bytes \<Rightarrow> bool" where
  "client_session_has_loopback session topic_path =
     (case find (csub_is topic_path) (cs_subscriptions session) of None \<Rightarrow> False | Some u \<Rightarrow> csub_loopback u)"

text \<open>The locked parts of subscribing and unsubscribing: the table of a session.\<close>

datatype csub_result = Updated | Full | Added

definition csub_subscribe ::
  "bytes \<Rightarrow> bool \<Rightarrow> client_subscription list \<Rightarrow> csub_result \<times> client_subscription list" where
  "csub_subscribe topic_path loopback subs =
     (if list_ex (csub_is topic_path) subs
      then (Updated, update_first (csub_is topic_path) (\<lambda>u. u\<lparr>csub_loopback := loopback\<rparr>) subs)
      else if length subs \<ge> CLIENT_SESSION_MAX_SUBSCRIPTIONS then (Full, subs)
      else (Added, subs @ [\<lparr>csub_topic_path = take (CLIENT_MAX_TOPIC_PATH - 1) topic_path, csub_active = True,
                            csub_loopback = loopback\<rparr>]))"

definition csub_unsubscribe :: "bytes \<Rightarrow> client_subscription list \<Rightarrow> bool \<times> client_subscription list" where
  "csub_unsubscribe topic_path subs =
     (case find_index (csub_is topic_path) subs of
        None \<Rightarrow> (False, subs)
      | Some i \<Rightarrow> (True, take i subs @ drop (Suc i) subs))"

section \<open>Delivery\<close>

fun deliver_to ::
  "(nat \<Rightarrow> client_session option) \<Rightarrow> nat option \<Rightarrow> bytes \<Rightarrow> bytes \<Rightarrow> nat list \<Rightarrow> session_effect list run" where
  "deliver_to sessions publisher topic buf [] = Done []"
| "deliver_to sessions publisher topic buf (s # ss) =
     (case sessions s of
        None \<Rightarrow> Undefined
      | Some cs \<Rightarrow>
          (case deliver_to sessions publisher topic buf ss of
             Done es \<Rightarrow>
               Done ((if \<not> client_session_is_subscribed cs topic then []
                      else if publisher = Some s \<and> \<not> client_session_has_loopback cs topic then []
                      else case cs_transport cs of
                        Some t \<Rightarrow> if cs_client_fd cs \<ge> 0 then [Transport_send t (cs_client_fd cs) buf] else []
                      | None \<Rightarrow> []) @ es)
           | Undefined \<Rightarrow> Undefined
           | Overflow \<Rightarrow> Overflow))"

definition session_dispatch_message ::
  "mgr_env \<Rightarrow> bytes \<Rightarrow> bytes \<Rightarrow> bytes option \<Rightarrow> daemon \<Rightarrow> session_effect list run" where
  "session_dispatch_message env topic subtopic data d =
     (let topic_str = c_str (take (CLIENT_MAX_TOPIC_PATH - 1) topic)
      in case find_chan (\<lambda>c. poseidon_channel_get_topic c = topic_str) (m_heap (d_mgr d)) (m_channels (d_mgr d)) of
           Done channel \<Rightarrow>
             let publisher = (case channel of None \<Rightarrow> None | Some p \<Rightarrow> d_publisher d p)
             in (case client_protocol_serialize (me_malloc env)
                        (client_protocol_encode_event CLIENT_EVENT_MESSAGE (Some topic_str) (Some subtopic)
                           (case data of None \<Rightarrow> [] | Some bs \<Rightarrow> bs)) of
                   None \<Rightarrow> Done []
                 | Some buf \<Rightarrow> deliver_to (d_sessions d) publisher topic_str buf (m_sessions (d_mgr d)))
         | Undefined \<Rightarrow> Undefined
         | Overflow \<Rightarrow> Overflow)"

fun dispatch_effects :: "mgr_env \<Rightarrow> channel_effect list \<Rightarrow> daemon \<Rightarrow> session_effect list run" where
  "dispatch_effects env [] d = Done []"
| "dispatch_effects env (e # es) d =
     (case (case e of Message topic sub data \<Rightarrow> session_dispatch_message env topic sub data d | _ \<Rightarrow> Done [Chan e]) of
        Done out \<Rightarrow>
          (case dispatch_effects env es d of
             Done outs \<Rightarrow> Done (out @ outs)
           | Undefined \<Rightarrow> Undefined
           | Overflow \<Rightarrow> Overflow)
      | Undefined \<Rightarrow> Undefined
      | Overflow \<Rightarrow> Overflow)"

definition client_session_dispatch_event ::
  "(nat \<Rightarrow> bool) \<Rightarrow> client_session \<Rightarrow> byte \<Rightarrow> bytes option \<Rightarrow> bytes option \<Rightarrow> bytes \<Rightarrow> session_effect list" where
  "client_session_dispatch_event malloc session event_type topic_id subtopic data =
     (case cs_transport session of
        None \<Rightarrow> []
      | Some t \<Rightarrow>
          if cs_client_fd session < 0 then []
          else case client_protocol_serialize malloc
                      (client_protocol_encode_event event_type topic_id
                         (Some (case subtopic of None \<Rightarrow> [] | Some s \<Rightarrow> s)) data) of
            None \<Rightarrow> []
          | Some buf \<Rightarrow> [Transport_send t (cs_client_fd session) buf])"

section \<open>Actions of the daemon\<close>

type_synonym 'a dact = "daemon \<Rightarrow> ('a \<times> daemon \<times> session_effect list) run"

definition d_ret :: "'a \<Rightarrow> 'a dact" where
  "d_ret x d = Done (x, d, [])"

definition d_bind :: "'a dact \<Rightarrow> ('a \<Rightarrow> 'b dact) \<Rightarrow> 'b dact" where
  "d_bind a f d =
     (case a d of
        Done (x, d', es) \<Rightarrow>
          (case f x d' of
             Done (y, d'', es') \<Rightarrow> Done (y, d'', es @ es')
           | Undefined \<Rightarrow> Undefined
           | Overflow \<Rightarrow> Overflow)
      | Undefined \<Rightarrow> Undefined
      | Overflow \<Rightarrow> Overflow)"

definition on_mgr :: "mgr_env \<Rightarrow> 'a act \<Rightarrow> 'a dact" where
  "on_mgr env a d =
     (case a (d_mgr d) of
        Done (x, m, es) \<Rightarrow>
          (case dispatch_effects env es (d\<lparr>d_mgr := m\<rparr>) of
             Done outs \<Rightarrow> Done (x, d\<lparr>d_mgr := m\<rparr>, outs)
           | Undefined \<Rightarrow> Undefined
           | Overflow \<Rightarrow> Overflow)
      | Undefined \<Rightarrow> Undefined
      | Overflow \<Rightarrow> Overflow)"

definition d_session :: "nat \<Rightarrow> client_session dact" where
  "d_session s d = (case d_sessions d s of None \<Rightarrow> Undefined | Some cs \<Rightarrow> Done (cs, d, []))"

definition d_update_session :: "nat \<Rightarrow> (client_subscription list \<Rightarrow> 'a \<times> client_subscription list) \<Rightarrow> 'a dact" where
  "d_update_session s f d =
     (case d_sessions d s of
        None \<Rightarrow> Undefined
      | Some cs \<Rightarrow>
          (case f (cs_subscriptions cs) of
             (x, subs) \<Rightarrow> Done (x, d\<lparr>d_sessions := (d_sessions d)(s \<mapsto> cs\<lparr>cs_subscriptions := subs\<rparr>)\<rparr>, [])))"

definition d_set_publisher :: "nat \<Rightarrow> nat option \<Rightarrow> unit dact" where
  "d_set_publisher p s d = Done ((), d\<lparr>d_publisher := (d_publisher d)(p := s)\<rparr>, [])"

definition act_read_channel :: "nat \<Rightarrow> poseidon_channel act" where
  "act_read_channel p m = (case m_heap m p of None \<Rightarrow> Undefined | Some c \<Rightarrow> Done (c, m, []))"

definition find_channel_by_topic :: "bytes \<Rightarrow> nat option act" where
  "find_channel_by_topic topic = act_find_chan (\<lambda>c. poseidon_channel_get_topic c = topic)"

text \<open>\<open>poseidon_channel_publish\<close> on a channel of the manager; every copy it sends draws an identifier.\<close>

definition publish_draws :: "poseidon_channel \<Rightarrow> bytes \<Rightarrow> nat" where
  "publish_draws c topic =
     (if locally_subscribed (ch_quasar c) topic
      then (case q_protocol (ch_quasar c) of None \<Rightarrow> 0 | Some pv \<Rightarrow> length (mv_peers pv)) else 1)"

definition act_publish :: "mgr_env \<Rightarrow> nat \<Rightarrow> bytes \<Rightarrow> bytes \<Rightarrow> int act" where
  "act_publish env p topic data m =
     (case m_heap m p of
        None \<Rightarrow> Undefined
      | Some c \<Rightarrow>
          (case poseidon_channel_publish (me_malloc env) (me_xxh env) (\<lambda>i. me_mids env (m_draws m + i)) c
                  (Some topic) (Some data) of
             Ret (rc, c', es) \<Rightarrow>
               Done (rc, m\<lparr>m_heap := (m_heap m)(p \<mapsto> c'), m_draws := m_draws m + publish_draws c topic\<rparr>, es)
           | Fail \<Rightarrow> Done (- 1, m, [])
           | Undef \<Rightarrow> Undefined))"

section \<open>Subscribing\<close>

definition client_session_subscribe :: "mgr_env \<Rightarrow> nat \<Rightarrow> bytes \<Rightarrow> bool \<Rightarrow> int dact" where
  "client_session_subscribe env s topic_path loopback =
     d_bind (d_update_session s (csub_subscribe topic_path loopback)) (\<lambda>r.
     d_bind (d_session s) (\<lambda>cs.
       case r of
         Updated \<Rightarrow> d_ret 0
       | Full \<Rightarrow> d_ret (- 1)
       | Added \<Rightarrow>
           if \<not> cs_manager cs then d_ret 0
           else d_bind (on_mgr env (find_channel_by_topic topic_path)) (\<lambda>channel.
                  case channel of
                    None \<Rightarrow> d_ret 0
                  | Some p \<Rightarrow>
                      d_bind (on_mgr env (act_channel p (\<lambda>c.
                        let c1 = snd (poseidon_channel_subscribe (me_xxh env) c (Some topic_path) 0)
                        in ((), if ch_message_cb c1 then c1 else poseidon_channel_set_message_callback c1 True, []))))
                        (\<lambda>_. d_ret 0))))"

fun any_subscribed :: "(nat \<Rightarrow> client_session option) \<Rightarrow> bytes \<Rightarrow> nat list \<Rightarrow> bool run" where
  "any_subscribed sessions topic [] = Done False"
| "any_subscribed sessions topic (s # ss) =
     (case sessions s of
        None \<Rightarrow> Undefined
      | Some cs \<Rightarrow> if client_session_is_subscribed cs topic then Done True else any_subscribed sessions topic ss)"

definition manager_has_other_subscriber :: "bytes \<Rightarrow> nat \<Rightarrow> bool dact" where
  "manager_has_other_subscriber topic_path exclude d =
     (case any_subscribed (d_sessions d) topic_path (filter (\<lambda>s. s \<noteq> exclude) (m_sessions (d_mgr d))) of
        Done found \<Rightarrow> Done (found, d, [])
      | Undefined \<Rightarrow> Undefined
      | Overflow \<Rightarrow> Overflow)"

text \<open>The part that \<open>client_session_unsubscribe\<close> and the cleanup share: leave the overlay after the last subscriber.\<close>

definition leave_overlay :: "mgr_env \<Rightarrow> nat \<Rightarrow> bytes \<Rightarrow> unit dact" where
  "leave_overlay env s topic_path =
     d_bind (manager_has_other_subscriber topic_path s) (\<lambda>other.
       if other then d_ret ()
       else d_bind (on_mgr env (find_channel_by_topic topic_path)) (\<lambda>channel.
              case channel of
                None \<Rightarrow> d_ret ()
              | Some p \<Rightarrow>
                  on_mgr env (act_channel p (\<lambda>c.
                    ((), snd (poseidon_channel_unsubscribe (me_xxh env) c (Some topic_path)), [])))))"

definition client_session_unsubscribe :: "mgr_env \<Rightarrow> nat \<Rightarrow> bytes \<Rightarrow> int dact" where
  "client_session_unsubscribe env s topic_path =
     d_bind (d_update_session s (csub_unsubscribe topic_path)) (\<lambda>removed.
     d_bind (d_session s) (\<lambda>cs.
       if \<not> removed then d_ret (- 1)
       else d_bind (if cs_manager cs then leave_overlay env s topic_path else d_ret ()) (\<lambda>_. d_ret 0)))"

fun leave_overlays :: "mgr_env \<Rightarrow> nat \<Rightarrow> bytes list \<Rightarrow> unit dact" where
  "leave_overlays env s [] = d_ret ()"
| "leave_overlays env s (t # ts) = d_bind (leave_overlay env s t) (\<lambda>_. leave_overlays env s ts)"

definition client_session_cleanup_subscriptions :: "mgr_env \<Rightarrow> nat \<Rightarrow> unit dact" where
  "client_session_cleanup_subscriptions env s =
     d_bind (d_session s) (\<lambda>cs.
       if \<not> cs_manager cs then d_ret ()
       else leave_overlays env s (map csub_topic_path (filter csub_active (cs_subscriptions cs))))"

section \<open>Authorization\<close>

definition verify_channel_owner_signature :: "openssl \<Rightarrow> poseidon_channel \<Rightarrow> client_frame \<Rightarrow> int" where
  "verify_channel_owner_signature ssl channel frame =
     (if cf_signature frame = [] then - 1
      else case poseidon_key_pair_get_public_key ssl (ch_key_pair channel) of
        None \<Rightarrow> - 1
      | Some pub_key \<Rightarrow>
          poseidon_verify_signature_with_key ssl (poseidon_key_pair_get_key_type (ch_key_pair channel)) pub_key
            (cf_method frame # cf_topic_path frame) (cf_signature frame))"

section \<open>Requests\<close>

definition c_text :: "string \<Rightarrow> bytes" where
  "c_text s = map of_char s"

text \<open>A configuration as the bytes of the C structure: seventeen 32 bit integers in the byte order of the host.\<close>

definition SIZEOF_CHANNEL_CONFIG :: nat where "SIZEOF_CHANNEL_CONFIG = 68"

definition config_word :: "bytes \<Rightarrow> nat \<Rightarrow> u32" where
  "config_word bs i = of_mem_u32 (take 4 (drop (4 * i) bs))"

definition config_of_mem :: "bytes \<Rightarrow> poseidon_channel_config" where
  "config_of_mem bs =
     \<lparr>cfg_ring_sizes = map (config_word bs) [0..<10], cfg_gossip_init_interval_s = config_word bs 10,
      cfg_gossip_steady_interval_s = config_word bs 11, cfg_gossip_num_init_intervals = config_word bs 12,
      cfg_quasar_max_hops = config_word bs 13, cfg_quasar_alpha = config_word bs 14,
      cfg_quasar_seen_size = config_word bs 15, cfg_quasar_seen_hashes = config_word bs 16\<rparr>"

definition respond :: "client_frame \<Rightarrow> int \<Rightarrow> byte \<Rightarrow> bytes \<Rightarrow> (int \<times> cbor_item option) dact" where
  "respond frame rc code text = d_ret (rc, client_protocol_encode_response (cf_request_id frame) code (Some text))"

text \<open>A request on a channel of the manager: no manager and no such channel are the same error.\<close>

definition with_channel ::
  "mgr_env \<Rightarrow> client_session \<Rightarrow> client_frame \<Rightarrow> (nat \<Rightarrow> (int \<times> cbor_item option) dact) \<Rightarrow> (int \<times> cbor_item option) dact" where
  "with_channel env cs frame k =
     (if \<not> cs_manager cs then respond frame (- 1) CLIENT_ERROR_CHANNEL_NOT_FOUND []
      else d_bind (on_mgr env (find_channel_by_topic (cf_topic_path frame))) (\<lambda>channel.
             case channel of None \<Rightarrow> respond frame (- 1) CLIENT_ERROR_CHANNEL_NOT_FOUND [] | Some p \<Rightarrow> k p))"

definition request_create ::
  "mgr_env \<Rightarrow> channel_env \<Rightarrow> client_session \<Rightarrow> client_frame \<Rightarrow> (int \<times> cbor_item option) dact" where
  "request_create env cenv cs frame =
     (if \<not> cs_manager cs then respond frame (- 1) CLIENT_ERROR_CHANNEL_NOT_FOUND []
      else d_bind (on_mgr env (act_upd (poseidon_channel_manager_create_channel env cenv (Some name_ED25519)
                                 (Some (cf_topic_path frame)) poseidon_channel_config_defaults))) (\<lambda>channel.
             case channel of
               None \<Rightarrow> respond frame (- 1) CLIENT_ERROR_TOO_MANY_CHANNELS []
             | Some _ \<Rightarrow> respond frame 0 CLIENT_ERROR_OK (c_text ''created'')))"

definition request_join ::
  "nat \<Rightarrow> mgr_env \<Rightarrow> channel_env \<Rightarrow> client_session \<Rightarrow> client_frame \<Rightarrow> (int \<times> cbor_item option) dact" where
  "request_join n env cenv cs frame =
     (if \<not> cs_manager cs then respond frame (- 1) CLIENT_ERROR_CHANNEL_NOT_FOUND []
      else d_bind (on_mgr env (poseidon_channel_manager_join_channel n env cenv (cf_topic_path frame))) (\<lambda>channel.
             case channel of
               None \<Rightarrow> respond frame (- 1) CLIENT_ERROR_CHANNEL_NOT_FOUND []
             | Some _ \<Rightarrow> respond frame 0 CLIENT_ERROR_OK (c_text ''joined'')))"

definition request_subscribe :: "mgr_env \<Rightarrow> nat \<Rightarrow> client_frame \<Rightarrow> (int \<times> cbor_item option) dact" where
  "request_subscribe env s frame =
     d_bind (client_session_subscribe env s (cf_topic_path frame)
               (case cf_payload frame of [] \<Rightarrow> False | b # _ \<Rightarrow> b \<noteq> 0)) (\<lambda>rc.
       if rc \<noteq> 0 then respond frame (- 1) CLIENT_ERROR_INVALID_PARAMS []
       else respond frame 0 CLIENT_ERROR_OK (c_text ''subscribed''))"

definition request_unsubscribe :: "mgr_env \<Rightarrow> nat \<Rightarrow> client_frame \<Rightarrow> (int \<times> cbor_item option) dact" where
  "request_unsubscribe env s frame =
     d_bind (client_session_unsubscribe env s (cf_topic_path frame)) (\<lambda>rc.
       if rc \<noteq> 0 then respond frame (- 1) CLIENT_ERROR_INVALID_PARAMS []
       else respond frame 0 CLIENT_ERROR_OK (c_text ''unsubscribed''))"

definition request_publish :: "mgr_env \<Rightarrow> nat \<Rightarrow> client_session \<Rightarrow> client_frame \<Rightarrow> (int \<times> cbor_item option) dact" where
  "request_publish env s cs frame =
     with_channel env cs frame (\<lambda>p.
       d_bind (d_set_publisher p (Some s)) (\<lambda>_.
       d_bind (on_mgr env (act_publish env p (cf_topic_path frame) (cf_payload frame))) (\<lambda>rc.
       d_bind (d_set_publisher p None) (\<lambda>_.
         if rc \<noteq> 0 then respond frame (- 1) CLIENT_ERROR_TRANSPORT []
         else respond frame 0 CLIENT_ERROR_OK (c_text ''published'')))))"

definition request_alias_register :: "mgr_env \<Rightarrow> client_session \<Rightarrow> client_frame \<Rightarrow> (int \<times> cbor_item option) dact" where
  "request_alias_register env cs frame =
     with_channel env cs frame (\<lambda>p.
       let topic = (if 0 < length (cf_payload frame) \<and> length (cf_payload frame) < CLIENT_MAX_TOPIC_PATH
                    then c_str (cf_payload frame) else [])
       in d_bind (on_mgr env (act_channel p (\<lambda>c.
                    case poseidon_channel_register_alias c (Some (cf_topic_path frame)) (Some topic) of
                      (rc, c') \<Rightarrow> (rc, c', [])))) (\<lambda>rc.
            if rc \<noteq> 0 then respond frame (- 1) CLIENT_ERROR_ALIAS_AMBIGUOUS []
            else respond frame 0 CLIENT_ERROR_OK (c_text ''registered'')))"

definition request_alias_unregister :: "mgr_env \<Rightarrow> client_session \<Rightarrow> client_frame \<Rightarrow> (int \<times> cbor_item option) dact" where
  "request_alias_unregister env cs frame =
     with_channel env cs frame (\<lambda>p.
       d_bind (on_mgr env (act_channel p (\<lambda>c.
                 case poseidon_channel_unregister_alias c (Some (cf_topic_path frame)) of (rc, c') \<Rightarrow> (rc, c', [])))) (\<lambda>rc.
         if rc \<noteq> 0 then respond frame (- 1) CLIENT_ERROR_ALIAS_AMBIGUOUS []
         else respond frame 0 CLIENT_ERROR_OK (c_text ''unregistered'')))"

definition request_alias_resolve :: "mgr_env \<Rightarrow> client_session \<Rightarrow> client_frame \<Rightarrow> (int \<times> cbor_item option) dact" where
  "request_alias_resolve env cs frame =
     with_channel env cs frame (\<lambda>p.
       d_bind (on_mgr env (act_read_channel p)) (\<lambda>c.
         case poseidon_channel_resolve_alias c (Some (cf_topic_path frame)) of
           None \<Rightarrow> respond frame (- 1) CLIENT_ERROR_ALIAS_AMBIGUOUS []
         | Some resolved \<Rightarrow> respond frame 0 CLIENT_ERROR_OK resolved))"

text \<open>A notice goes out on the channel's own overlay and on the dial channel.\<close>

definition publish_notice :: "nat \<Rightarrow> mgr_env \<Rightarrow> nat \<Rightarrow> bytes \<Rightarrow> bytes \<Rightarrow> cbor_item option \<Rightarrow> unit dact" where
  "publish_notice n env p channel_topic notice_topic item =
     (case item of
        None \<Rightarrow> d_ret ()
      | Some it \<Rightarrow>
          (case cbor_serialize_alloc (me_malloc env) it of
             None \<Rightarrow> d_ret ()
           | Some buf \<Rightarrow>
               d_bind (on_mgr env (act_publish env p channel_topic buf)) (\<lambda>_.
               d_bind (on_mgr env (dial_publish n env notice_topic buf)) (\<lambda>_. d_ret ()))))"

definition request_destroy :: "nat \<Rightarrow> mgr_env \<Rightarrow> client_session \<Rightarrow> client_frame \<Rightarrow> (int \<times> cbor_item option) dact" where
  "request_destroy n env cs frame =
     with_channel env cs frame (\<lambda>p.
       d_bind (on_mgr env (act_read_channel p)) (\<lambda>c.
         if verify_channel_owner_signature (me_ssl env) c frame \<noteq> 0
         then respond frame (- 1) CLIENT_ERROR_NOT_AUTHORIZED []
         else case poseidon_channel_create_delete_notice (me_ssl env) (me_malloc env) (me_realtime_us env) c of
           None \<Rightarrow> respond frame (- 1) CLIENT_ERROR_TRANSPORT []
         | Some notice \<Rightarrow>
             if poseidon_channel_verify_delete_notice (me_ssl env) (me_blake3 env) (me_malloc env) notice \<noteq> 0
             then respond frame (- 1) CLIENT_ERROR_NOT_AUTHORIZED []
             else
               d_bind (publish_notice n env p (poseidon_channel_get_topic c) (dn_topic_id notice)
                         (meridian_channel_delete_notice_encode notice)) (\<lambda>_.
               d_bind (on_mgr env (act_upd (poseidon_channel_manager_add_tombstone
                         (poseidon_tombstone_from_delete_notice (me_monotonic_us env) notice)))) (\<lambda>_.
               d_bind (on_mgr env (act_channel p (\<lambda>c. case poseidon_channel_delete_signed (me_xxh env) c of
                         (_, c', es) \<Rightarrow> (ch_node_id c', c', es)))) (\<lambda>nid.
               d_bind (on_mgr env (poseidon_channel_manager_destroy_channel nid)) (\<lambda>_.
               respond frame 0 CLIENT_ERROR_OK (c_text ''deleted'')))))))"

definition request_modify :: "nat \<Rightarrow> mgr_env \<Rightarrow> client_session \<Rightarrow> client_frame \<Rightarrow> (int \<times> cbor_item option) dact" where
  "request_modify n env cs frame =
     with_channel env cs frame (\<lambda>p.
       d_bind (on_mgr env (act_read_channel p)) (\<lambda>c.
         if verify_channel_owner_signature (me_ssl env) c frame \<noteq> 0
         then respond frame (- 1) CLIENT_ERROR_NOT_AUTHORIZED []
         else
           let new_config = (if length (cf_payload frame) = SIZEOF_CHANNEL_CONFIG
                             then config_of_mem (cf_payload frame) else ch_config c)
           in case poseidon_channel_create_modify_notice (me_ssl env) (me_malloc env) (me_realtime_us env) c new_config of
                None \<Rightarrow> respond frame (- 1) CLIENT_ERROR_TRANSPORT []
              | Some notice \<Rightarrow>
                  if poseidon_channel_verify_modify_notice (me_ssl env) (me_blake3 env) (me_malloc env) notice \<noteq> 0
                  then respond frame (- 1) CLIENT_ERROR_NOT_AUTHORIZED []
                  else
                    d_bind (publish_notice n env p (poseidon_channel_get_topic c) (dn_topic_id notice)
                              (meridian_channel_modify_notice_encode notice)) (\<lambda>_.
                    d_bind (on_mgr env (act_upd (poseidon_channel_manager_add_tombstone
                              (poseidon_tombstone_from_modify_notice (me_monotonic_us env) notice)))) (\<lambda>_.
                    d_bind (on_mgr env (poseidon_channel_rejoin_with_config (dial_publish n env) env p new_config)) (\<lambda>_.
                    respond frame 0 CLIENT_ERROR_OK (c_text ''modified''))))))"

definition client_session_handle_request ::
  "nat \<Rightarrow> mgr_env \<Rightarrow> channel_env \<Rightarrow> nat \<Rightarrow> client_frame \<Rightarrow> (int \<times> cbor_item option) dact" where
  "client_session_handle_request n env cenv s frame =
     d_bind (d_session s) (\<lambda>cs.
       if cf_method frame = CLIENT_METHOD_CHANNEL_CREATE then request_create env cenv cs frame
       else if cf_method frame = CLIENT_METHOD_CHANNEL_JOIN then request_join n env cenv cs frame
       else if cf_method frame = CLIENT_METHOD_SUBSCRIBE then request_subscribe env s frame
       else if cf_method frame = CLIENT_METHOD_UNSUBSCRIBE then request_unsubscribe env s frame
       else if cf_method frame = CLIENT_METHOD_PUBLISH then request_publish env s cs frame
       else if cf_method frame = CLIENT_METHOD_ALIAS_REGISTER then request_alias_register env cs frame
       else if cf_method frame = CLIENT_METHOD_ALIAS_UNREGISTER then request_alias_unregister env cs frame
       else if cf_method frame = CLIENT_METHOD_ALIAS_RESOLVE then request_alias_resolve env cs frame
       else if cf_method frame = CLIENT_METHOD_CHANNEL_DESTROY then request_destroy n env cs frame
       else if cf_method frame = CLIENT_METHOD_CHANNEL_MODIFY then request_modify n env cs frame
       else respond frame (- 1) CLIENT_ERROR_UNKNOWN_METHOD [])"

section \<open>Invariants of the requests\<close>

context manager_handlers
begin

lemma draws_upd: "I m \<Longrightarrow> I (m\<lparr>m_draws := m_draws m + k\<rparr>)"
  using seen_upd [of m "q_seen (ch_quasar (m_dial m))" k] by (simp add: set_dial_quasar_def)

lemma keeps_act_publish [keeps_intros]: "keeps I (act_publish env p topic data)"
  unfolding keeps_def
proof (intro allI impI)
  fix m x m' es
  assume m: "I m" and run: "act_publish env p topic data m = Done (x, m', es)"
  then obtain c where c: "m_heap m p = Some c"
    by (auto simp: act_publish_def split: option.splits)
  with run consider "m' = m" | c' where "m' = m\<lparr>m_heap := (m_heap m)(p \<mapsto> c'), m_draws := m_draws m + publish_draws c topic\<rparr>"
    by (auto simp: act_publish_def split: cres.splits prod.splits)
  then show "I m'"
  proof cases
    case (2 c')
    with draws_upd [OF heap_upd [OF m c], of c' "publish_draws c topic"] show ?thesis
      by simp
  qed (use m in simp)
qed

lemma keeps_read_channel [keeps_intros]: "keeps I (act_read_channel p)"
  by (auto simp: keeps_def act_read_channel_def split: option.splits)

lemma keeps_find_channel_by_topic [keeps_intros]: "keeps I (find_channel_by_topic t)"
  by (simp add: find_channel_by_topic_def keeps_find_chan)

end

text \<open>Actions of the daemon that keep a predicate.\<close>

definition dkeeps :: "(daemon \<Rightarrow> bool) \<Rightarrow> 'a dact \<Rightarrow> bool" where
  "dkeeps J a \<longleftrightarrow> (\<forall>d x d' es. J d \<longrightarrow> a d = Done (x, d', es) \<longrightarrow> J d')"

named_theorems dkeeps_intros "actions of the daemon that keep a predicate"

lemma dkeepsD: "dkeeps J a \<Longrightarrow> J d \<Longrightarrow> a d = Done (x, d', es) \<Longrightarrow> J d'"
  by (auto simp: dkeeps_def)

lemma d_bind_Done:
  "d_bind a f d = Done (y, d'', es) \<longleftrightarrow>
     (\<exists>x d' es1 es2. a d = Done (x, d', es1) \<and> f x d' = Done (y, d'', es2) \<and> es = es1 @ es2)"
  by (cases "a d") (auto simp: d_bind_def split: run.splits prod.splits)

lemma dkeeps_ret [dkeeps_intros]: "dkeeps J (d_ret x)"
  by (simp add: dkeeps_def d_ret_def)

lemma dkeeps_respond [dkeeps_intros]: "dkeeps J (respond frame rc code text)"
  by (simp add: respond_def dkeeps_ret)

lemma dkeeps_bind [dkeeps_intros]: "dkeeps J a \<Longrightarrow> (\<And>x. dkeeps J (f x)) \<Longrightarrow> dkeeps J (d_bind a f)"
  unfolding dkeeps_def d_bind_Done by blast

lemma dkeeps_if [dkeeps_intros]: "dkeeps J a \<Longrightarrow> dkeeps J b \<Longrightarrow> dkeeps J (if c then a else b)"
  by simp

lemma dkeeps_case_option [dkeeps_intros]:
  "dkeeps J a \<Longrightarrow> (\<And>x. dkeeps J (f x)) \<Longrightarrow> dkeeps J (case r of None \<Rightarrow> a | Some x \<Rightarrow> f x)"
  by (cases r) simp_all

lemma dkeeps_let [dkeeps_intros]: "(\<And>x. dkeeps J (f x)) \<Longrightarrow> dkeeps J (Let r f)"
  by simp

lemma dkeeps_session [dkeeps_intros]: "dkeeps J (d_session s)"
  by (auto simp: dkeeps_def d_session_def split: option.splits)

lemma dkeeps_other [dkeeps_intros]: "dkeeps J (manager_has_other_subscriber t s)"
  by (auto simp: dkeeps_def manager_has_other_subscriber_def split: run.splits)

lemma dkeeps_case_result [dkeeps_intros]:
  "dkeeps J a \<Longrightarrow> dkeeps J b \<Longrightarrow> dkeeps J c \<Longrightarrow> dkeeps J (case r of Updated \<Rightarrow> a | Full \<Rightarrow> b | Added \<Rightarrow> c)"
  by (cases r) simp_all

text \<open>
  The interface between the daemon and the request handler: an invariant of the daemon
  whose part on the manager survives the manager's operations, and that survives the
  updates of subscriptions and publishers, survives every request.
\<close>

locale daemon_requests = manager_requests I for I :: "poseidon_channel_manager \<Rightarrow> bool" +
  fixes J :: "daemon \<Rightarrow> bool"
  assumes mgr_part: "J d \<Longrightarrow> I (d_mgr d)"
    and mgr_upd: "J d \<Longrightarrow> I m \<Longrightarrow> J (d\<lparr>d_mgr := m\<rparr>)"
    and publisher_upd: "J d \<Longrightarrow> J (d\<lparr>d_publisher := f\<rparr>)"
    and subscribe_upd: "J d \<Longrightarrow> d_sessions d s = Some cs \<Longrightarrow>
      J (d\<lparr>d_sessions := (d_sessions d)(s \<mapsto> cs\<lparr>cs_subscriptions := snd (csub_subscribe t l (cs_subscriptions cs))\<rparr>)\<rparr>)"
    and unsubscribe_upd: "J d \<Longrightarrow> d_sessions d s = Some cs \<Longrightarrow>
      J (d\<lparr>d_sessions := (d_sessions d)(s \<mapsto> cs\<lparr>cs_subscriptions := snd (csub_unsubscribe t (cs_subscriptions cs))\<rparr>)\<rparr>)"
begin

lemma dkeeps_on_mgr [dkeeps_intros]:
  assumes "keeps I a"
  shows "dkeeps J (on_mgr env a)"
  unfolding dkeeps_def
proof (intro allI impI)
  fix d x d' es
  assume d: "J d" and run: "on_mgr env a d = Done (x, d', es)"
  then obtain m es' where m: "a (d_mgr d) = Done (x, m, es')" "d' = d\<lparr>d_mgr := m\<rparr>"
    by (auto simp: on_mgr_def split: run.splits prod.splits)
  with keepsD [OF assms mgr_part [OF d]] mgr_upd [OF d] show "J d'"
    by blast
qed

lemma dkeeps_publisher [dkeeps_intros]: "dkeeps J (d_set_publisher p s)"
  by (auto simp: dkeeps_def d_set_publisher_def publisher_upd)

lemma dkeeps_table [dkeeps_intros]:
  "dkeeps J (d_update_session s (csub_subscribe t l))" "dkeeps J (d_update_session s (csub_unsubscribe t))"
  unfolding dkeeps_def d_update_session_def
  by (auto simp: split_def subscribe_upd unsubscribe_upd split: option.splits)

lemma dkeeps_subscribe [dkeeps_intros]: "dkeeps J (client_session_subscribe env s t l)"
  unfolding client_session_subscribe_def by (intro dkeeps_intros keeps_intros)

lemma dkeeps_leave [dkeeps_intros]: "dkeeps J (leave_overlay env s t)"
  unfolding leave_overlay_def by (intro dkeeps_intros keeps_intros)

lemma dkeeps_unsubscribe [dkeeps_intros]: "dkeeps J (client_session_unsubscribe env s t)"
  unfolding client_session_unsubscribe_def by (intro dkeeps_intros keeps_intros)

lemma dkeeps_leaves [dkeeps_intros]: "dkeeps J (leave_overlays env s ts)"
  by (induction ts) (simp_all add: dkeeps_intros)

lemma dkeeps_cleanup [dkeeps_intros]: "dkeeps J (client_session_cleanup_subscriptions env s)"
  unfolding client_session_cleanup_subscriptions_def by (intro dkeeps_intros)

lemma dkeeps_with_channel [dkeeps_intros]: "(\<And>p. dkeeps J (k p)) \<Longrightarrow> dkeeps J (with_channel env cs frame k)"
  unfolding with_channel_def by (intro dkeeps_intros keeps_intros)

lemma dkeeps_publish_notice [dkeeps_intros]: "dkeeps J (publish_notice n env p t t' item)"
  unfolding publish_notice_def by (intro dkeeps_intros keeps_intros)

lemmas request_defs = request_create_def request_join_def request_subscribe_def request_unsubscribe_def
  request_publish_def request_alias_register_def request_alias_unregister_def request_alias_resolve_def

lemma dkeeps_simple_requests:
  "dkeeps J (request_create env cenv cs frame)" "dkeeps J (request_join n env cenv cs frame)"
  "dkeeps J (request_subscribe env s frame)" "dkeeps J (request_unsubscribe env s frame)"
  "dkeeps J (request_publish env s cs frame)" "dkeeps J (request_alias_register env cs frame)"
  "dkeeps J (request_alias_unregister env cs frame)" "dkeeps J (request_alias_resolve env cs frame)"
  unfolding request_defs by (intro dkeeps_intros keeps_intros)+

lemma dkeeps_admin_requests:
  "dkeeps J (request_destroy n env cs frame)" "dkeeps J (request_modify n env cs frame)"
  unfolding request_destroy_def request_modify_def by (intro dkeeps_intros keeps_intros)+

lemma dkeeps_request [dkeeps_intros]: "dkeeps J (client_session_handle_request n env cenv s frame)"
  unfolding client_session_handle_request_def
  by (intro dkeeps_intros dkeeps_simple_requests dkeeps_admin_requests)

end

section \<open>The state of the daemon\<close>

text \<open>
  The state of a daemon whose registry holds \<open>regs\<close>: a well-formed manager, registered
  sessions allocated, and the subscriptions of every session active and within the
  bound.
\<close>

definition registry_is :: "nat list \<Rightarrow> poseidon_channel_manager \<Rightarrow> bool" where
  "registry_is regs m \<longleftrightarrow> mgr_ok m \<and> m_sessions m = regs"

definition daemon_ok :: "nat list \<Rightarrow> daemon \<Rightarrow> bool" where
  "daemon_ok regs d \<longleftrightarrow> registry_is regs (d_mgr d) \<and> (\<forall>s \<in> set regs. d_sessions d s \<noteq> None)
     \<and> (\<forall>s cs. d_sessions d s = Some cs \<longrightarrow> length (cs_subscriptions cs) \<le> CLIENT_SESSION_MAX_SUBSCRIPTIONS
          \<and> list_all csub_active (cs_subscriptions cs))"

lemma join_register_sessions: "m_sessions (snd (join_register env cenv t m)) = m_sessions m"
  by (cases rule: join_register_cases [of env cenv t m]) (simp_all add: add_channel_def)

lemma destroy_sessions: "poseidon_channel_manager_destroy_channel nid m = Done (r, m', es) \<Longrightarrow> m_sessions m' = m_sessions m"
  by (erule destroy_channel_cases) simp_all

lemma create_channel_sessions:
  "m_sessions (snd (poseidon_channel_manager_create_channel env cenv kt name cfg m)) = m_sessions m"
  by (auto simp: poseidon_channel_manager_create_channel_def add_channel_def Let_def split_def split: option.split)

lemma csub_subscribe_bound:
  assumes "length subs \<le> CLIENT_SESSION_MAX_SUBSCRIPTIONS" "list_all csub_active subs"
  shows "length (snd (csub_subscribe t l subs)) \<le> CLIENT_SESSION_MAX_SUBSCRIPTIONS"
    "list_all csub_active (snd (csub_subscribe t l subs))"
proof -
  have same: "map csub_active (update_first (csub_is t) (\<lambda>u. u\<lparr>csub_loopback := l\<rparr>) subs) = map csub_active subs"
    by (rule map_update_first) simp
  have all: "list_all csub_active xs \<longleftrightarrow> list_all id (map csub_active xs)" for xs
    by (simp add: list.pred_map)
  have "list_all csub_active (update_first (csub_is t) (\<lambda>u. u\<lparr>csub_loopback := l\<rparr>) subs)"
    using assms(2) by (simp only: all same)
  with assms show "length (snd (csub_subscribe t l subs)) \<le> CLIENT_SESSION_MAX_SUBSCRIPTIONS"
    "list_all csub_active (snd (csub_subscribe t l subs))"
    by (auto simp: csub_subscribe_def)
qed

lemma csub_unsubscribe_bound:
  assumes "length subs \<le> CLIENT_SESSION_MAX_SUBSCRIPTIONS" "list_all csub_active subs"
  shows "length (snd (csub_unsubscribe t subs)) \<le> CLIENT_SESSION_MAX_SUBSCRIPTIONS"
    "list_all csub_active (snd (csub_unsubscribe t subs))"
  using assms by (auto simp: csub_unsubscribe_def list_all_iff dest: in_set_takeD in_set_dropD split: option.split)

interpretation daemon_state: daemon_requests "registry_is regs" "daemon_ok regs" for regs
proof
  show "registry_is regs m \<Longrightarrow> registry_is regs (m\<lparr>m_dial := d\<rparr>)" for regs m d
    by (auto simp: registry_is_def mgr_ok_def)
  show "registry_is regs m \<Longrightarrow> registry_is regs (snd (poseidon_channel_manager_add_tombstone t m))" for regs m t
    using mgr_state.tombstone_upd [of m t]
    by (simp add: registry_is_def poseidon_channel_manager_add_tombstone_def split: prod.splits)
  show "registry_is regs m \<Longrightarrow> registry_is regs (poseidon_channel_manager_expire_tombstones now m)" for regs m now
    using mgr_state.expire_upd [of m now] by (simp add: registry_is_def poseidon_channel_manager_expire_tombstones_def)
  show "registry_is regs m \<Longrightarrow> registry_is regs (set_dial_quasar ((ch_quasar (m_dial m))\<lparr>q_seen := b\<rparr>) n m)" for regs m b n
    using mgr_state.seen_upd [of m b n] by (simp add: registry_is_def set_dial_quasar_def)
  show "registry_is regs m \<Longrightarrow> m_heap m p = Some c \<Longrightarrow> registry_is regs (m\<lparr>m_heap := (m_heap m)(p \<mapsto> c')\<rparr>)" for regs m p c c'
    using mgr_state.heap_upd [of m p c c'] by (simp add: registry_is_def)
  show "daemon_ok regs d \<Longrightarrow> d_sessions d s = Some cs \<Longrightarrow>
      daemon_ok regs (d\<lparr>d_sessions := (d_sessions d)(s \<mapsto> cs\<lparr>cs_subscriptions := snd (csub_subscribe t l (cs_subscriptions cs))\<rparr>)\<rparr>)"
    for regs d s cs t l
    using csub_subscribe_bound [of "cs_subscriptions cs" t l] by (auto simp: daemon_ok_def)
  show "daemon_ok regs d \<Longrightarrow> d_sessions d s = Some cs \<Longrightarrow>
      daemon_ok regs (d\<lparr>d_sessions := (d_sessions d)(s \<mapsto> cs\<lparr>cs_subscriptions := snd (csub_unsubscribe t (cs_subscriptions cs))\<rparr>)\<rparr>)"
    for regs d s cs t
    using csub_unsubscribe_bound [of "cs_subscriptions cs" t] by (auto simp: daemon_ok_def)
qed (auto simp: registry_is_def daemon_ok_def mgr_ok_pending mgr_ok_create_channel mgr_ok_join_register
    join_register_sessions destroy_sessions create_channel_sessions intro: mgr_ok_destroy)

section \<open>Answers\<close>

definition is_answer :: "client_frame \<Rightarrow> int \<times> cbor_item option \<Rightarrow> bool" where
  "is_answer frame r \<longleftrightarrow>
     (\<exists>code text. snd r = client_protocol_encode_response (cf_request_id frame) code (Some text)
        \<and> (fst r = 0 \<and> code = CLIENT_ERROR_OK \<or> fst r = - 1 \<and> code \<noteq> CLIENT_ERROR_OK \<and> text = []))"

definition answers :: "client_frame \<Rightarrow> (int \<times> cbor_item option) dact \<Rightarrow> bool" where
  "answers frame a \<longleftrightarrow> (\<forall>d r d' es. a d = Done (r, d', es) \<longrightarrow> is_answer frame r)"

named_theorems answers_intros "actions whose result is the answer to a request"

lemma answers_respond [answers_intros]:
  "code \<noteq> CLIENT_ERROR_OK \<Longrightarrow> answers frame (respond frame (- 1) code [])"
  "answers frame (respond frame 0 CLIENT_ERROR_OK text)"
  by (auto simp: answers_def respond_def d_ret_def is_answer_def)

lemma answers_bind [answers_intros]: "(\<And>x. answers frame (f x)) \<Longrightarrow> answers frame (d_bind a f)"
  unfolding answers_def d_bind_Done by blast

lemma answers_if [answers_intros]: "answers frame a \<Longrightarrow> answers frame b \<Longrightarrow> answers frame (if c then a else b)"
  by simp

lemma answers_case_option [answers_intros]:
  "answers frame a \<Longrightarrow> (\<And>x. answers frame (f x)) \<Longrightarrow> answers frame (case r of None \<Rightarrow> a | Some x \<Rightarrow> f x)"
  by (cases r) simp_all

lemma answers_let [answers_intros]: "(\<And>x. answers frame (f x)) \<Longrightarrow> answers frame (Let r f)"
  by simp

lemmas client_error_defs = CLIENT_ERROR_OK_def CLIENT_ERROR_UNKNOWN_METHOD_def CLIENT_ERROR_INVALID_PARAMS_def
  CLIENT_ERROR_CHANNEL_NOT_FOUND_def CLIENT_ERROR_ALIAS_AMBIGUOUS_def CLIENT_ERROR_NOT_AUTHORIZED_def
  CLIENT_ERROR_TOO_MANY_CHANNELS_def CLIENT_ERROR_TRANSPORT_def

lemma error_codes [answers_intros]:
  "CLIENT_ERROR_UNKNOWN_METHOD \<noteq> CLIENT_ERROR_OK" "CLIENT_ERROR_INVALID_PARAMS \<noteq> CLIENT_ERROR_OK"
  "CLIENT_ERROR_CHANNEL_NOT_FOUND \<noteq> CLIENT_ERROR_OK" "CLIENT_ERROR_ALIAS_AMBIGUOUS \<noteq> CLIENT_ERROR_OK"
  "CLIENT_ERROR_NOT_AUTHORIZED \<noteq> CLIENT_ERROR_OK" "CLIENT_ERROR_TOO_MANY_CHANNELS \<noteq> CLIENT_ERROR_OK"
  "CLIENT_ERROR_TRANSPORT \<noteq> CLIENT_ERROR_OK"
  by (simp_all add: client_error_defs)

lemma answers_with_channel [answers_intros]:
  "(\<And>p. answers frame (k p)) \<Longrightarrow> answers frame (with_channel env cs frame k)"
  unfolding with_channel_def by (intro answers_intros)

lemma answers_request: "answers frame (client_session_handle_request n env cenv s frame)"
  unfolding client_session_handle_request_def request_create_def request_join_def request_subscribe_def
    request_unsubscribe_def request_publish_def request_alias_register_def request_alias_unregister_def
    request_alias_resolve_def request_destroy_def request_modify_def
  by (intro answers_intros)

text \<open>
  C11. Every request that is handled is answered once, with its own identifier: success
  is status 0 with the code for success, failure is status -1 with an error code and
  no data. The registered sessions stay the same, stay allocated and within their
  bound, and the manager stays well formed, whatever the request was.
\<close>

theorem request_answered:
  assumes "daemon_ok regs d" "client_session_handle_request n env cenv s frame d = Done ((rc, out), d', es)"
  shows "(\<exists>code text. out = client_protocol_encode_response (cf_request_id frame) code (Some text)
        \<and> (rc = 0 \<and> code = CLIENT_ERROR_OK \<or> rc = - 1 \<and> code \<noteq> CLIENT_ERROR_OK \<and> text = []))
    \<and> daemon_ok regs d'"
proof -
  have "is_answer frame (rc, out)"
    using answers_request [of frame n env cenv s] assms(2) unfolding answers_def by blast
  then show ?thesis
    using daemon_state.dkeeps_request [THEN dkeepsD, OF assms] by (auto simp: is_answer_def)
qed

text \<open>A daemon with two sessions, of which the second subscribes to the topic of the only channel.\<close>

definition example_session :: "int \<Rightarrow> client_subscription list \<Rightarrow> client_session" where
  "example_session fd subs =
     \<lparr>cs_session_id = 1, cs_client_fd = fd, cs_transport = Some 0, cs_manager = True, cs_subscriptions = subs,
      cs_next_request_id = 1\<rparr>"

definition example_daemon :: daemon where
  "example_daemon =
     \<lparr>d_mgr = (example_state \<lparr>nid_hash = [1], nid_str = [66]\<rparr>)\<lparr>m_sessions := [0, 1]\<rparr>,
      d_sessions = [0 \<mapsto> example_session 10 [],
                    1 \<mapsto> example_session 11 [\<lparr>csub_topic_path = [66], csub_active = True, csub_loopback = False\<rparr>]],
      d_publisher = (\<lambda>_. None)\<rparr>"

lemma example_daemon_ok: "daemon_ok [0, 1] example_daemon"
  using example_state_ok(1) [of "\<lparr>nid_hash = [1], nid_str = [66]\<rparr>"]
  by (auto simp: daemon_ok_def registry_is_def example_daemon_def mgr_ok_def example_session_def
      CLIENT_SESSION_MAX_SUBSCRIPTIONS_def POSEIDON_SESSION_REGISTRY_MAX_def split: if_splits)

theorem request_answered_witness:
  "\<exists>d' es. client_session_handle_request 1 example_env example_cenv 1 (request_frame 9 CLIENT_METHOD_CHANNEL_LEAVE [66] [])
       example_daemon = Done ((- 1, client_protocol_encode_response 9 CLIENT_ERROR_UNKNOWN_METHOD (Some [])), d', es)
     \<and> daemon_ok [0, 1] d'"
proof -
  have "client_session_handle_request 1 example_env example_cenv 1 (request_frame 9 CLIENT_METHOD_CHANNEL_LEAVE [66] [])
      example_daemon = Done ((- 1, client_protocol_encode_response 9 CLIENT_ERROR_UNKNOWN_METHOD (Some [])), example_daemon, [])"
    by (simp add: client_session_handle_request_def d_bind_def d_session_def example_daemon_def request_frame_def
        client_method_defs respond_def d_ret_def)
  with request_answered [OF example_daemon_ok this] show ?thesis
    by blast
qed

section \<open>Authorization\<close>

lemma with_channel_found:
  assumes "cs_manager cs" "find_channel_by_topic (cf_topic_path frame) (d_mgr d) = Done (Some p, d_mgr d, [])"
  shows "with_channel env cs frame k d = k p d"
  using assms by (simp add: with_channel_def d_bind_def on_mgr_def split: run.split prod.split)

lemma on_mgr_read:
  assumes "m_heap (d_mgr d) p = Some c"
  shows "on_mgr env (act_read_channel p) d = Done (c, d, [])"
  using assms by (simp add: on_mgr_def act_read_channel_def)

lemma admin_request_refused:
  assumes "cf_method frame = CLIENT_METHOD_CHANNEL_DESTROY \<or> cf_method frame = CLIENT_METHOD_CHANNEL_MODIFY"
    and "d_sessions d s = Some cs" "cs_manager cs"
    and "find_channel_by_topic (cf_topic_path frame) (d_mgr d) = Done (Some p, d_mgr d, [])" "m_heap (d_mgr d) p = Some c"
    and "verify_channel_owner_signature (me_ssl env) c frame \<noteq> 0"
  shows "client_session_handle_request n env cenv s frame d =
    Done ((- 1, client_protocol_encode_response (cf_request_id frame) CLIENT_ERROR_NOT_AUTHORIZED (Some [])), d, [])"
proof -
  have "request_destroy n env cs frame d =
        Done ((- 1, client_protocol_encode_response (cf_request_id frame) CLIENT_ERROR_NOT_AUTHORIZED (Some [])), d, [])"
      "request_modify n env cs frame d =
        Done ((- 1, client_protocol_encode_response (cf_request_id frame) CLIENT_ERROR_NOT_AUTHORIZED (Some [])), d, [])"
    unfolding request_destroy_def request_modify_def with_channel_found [OF assms(3,4)] using assms(6)
    by (simp_all add: d_bind_def on_mgr_read [OF assms(5)] respond_def d_ret_def)
  with assms(1,2) show ?thesis
    by (auto simp: client_session_handle_request_def d_bind_def d_session_def client_method_defs)
qed

text \<open>
  C12. Destroying or modifying a channel needs the signature of its owner: when the
  signature of a request does not verify against the channel's own key, or there is
  none, the request is refused and nothing changes, nothing is sent.
\<close>

theorem admin_requests_authorized:
  assumes "cf_method frame = CLIENT_METHOD_CHANNEL_DESTROY \<or> cf_method frame = CLIENT_METHOD_CHANNEL_MODIFY"
    and "d_sessions d s = Some cs" "cs_manager cs"
    and "find_channel_by_topic (cf_topic_path frame) (d_mgr d) = Done (Some p, d_mgr d, [])" "m_heap (d_mgr d) p = Some c"
    and "cf_signature frame = [] \<or> verify_channel_owner_signature (me_ssl env) c frame \<noteq> 0"
  shows "client_session_handle_request n env cenv s frame d =
    Done ((- 1, client_protocol_encode_response (cf_request_id frame) CLIENT_ERROR_NOT_AUTHORIZED (Some [])), d, [])"
proof -
  have "verify_channel_owner_signature (me_ssl env) c frame \<noteq> 0"
    using assms(6) by (auto simp: verify_channel_owner_signature_def)
  with assms(1-5) show ?thesis
    by (rule admin_request_refused)
qed

theorem admin_requests_authorized_witness:
  "client_session_handle_request 1 example_env example_cenv 0
     ((request_frame 9 CLIENT_METHOD_CHANNEL_DESTROY [66] [])\<lparr>cf_signature := [8]\<rparr>) example_daemon =
   Done ((- 1, client_protocol_encode_response 9 CLIENT_ERROR_NOT_AUTHORIZED (Some [])), example_daemon, [])"
proof -
  let ?frame = "(request_frame 9 CLIENT_METHOD_CHANNEL_DESTROY [66] [])\<lparr>cf_signature := [8]\<rparr>"
  have "verify_channel_owner_signature (me_ssl example_env) (example_channel \<lparr>nid_hash = [1], nid_str = [66]\<rparr>) ?frame \<noteq> 0"
    by (simp add: verify_channel_owner_signature_def example_env_def example_ssl_def example_channel_def example_key_def
        poseidon_key_pair_get_public_key_def poseidon_key_pair_get_key_type_def poseidon_verify_signature_with_key_def)
  then show ?thesis
    using admin_requests_authorized [of ?frame example_daemon 0 "example_session 10 []" 0
        "example_channel \<lparr>nid_hash = [1], nid_str = [66]\<rparr>" example_env 1 example_cenv]
    by (simp add: example_daemon_def request_frame_def example_session_def find_channel_by_topic_def act_find_chan_def
        example_state_def example_channel_def poseidon_channel_get_topic_def)
qed

section \<open>Delivery to clients\<close>

definition recipients :: "(nat \<Rightarrow> client_session option) \<Rightarrow> nat option \<Rightarrow> bytes \<Rightarrow> nat list \<Rightarrow> nat list" where
  "recipients sessions publisher topic regs =
     filter (\<lambda>r. case sessions r of
                   None \<Rightarrow> False
                 | Some cs \<Rightarrow> client_session_is_subscribed cs topic
                     \<and> (publisher = Some r \<longrightarrow> client_session_has_loopback cs topic)
                     \<and> cs_transport cs \<noteq> None \<and> cs_client_fd cs \<ge> 0) regs"

definition session_send :: "(nat \<Rightarrow> client_session option) \<Rightarrow> bytes \<Rightarrow> nat \<Rightarrow> session_effect" where
  "session_send sessions buf r =
     (case sessions r of Some cs \<Rightarrow> Transport_send (the (cs_transport cs)) (cs_client_fd cs) buf)"

lemma deliver_to_alive:
  assumes "\<forall>r \<in> set regs. sessions r \<noteq> None"
  shows "deliver_to sessions publisher topic buf regs =
    Done (map (session_send sessions buf) (recipients sessions publisher topic regs))"
  using assms
proof (induction regs)
  case (Cons r regs)
  then obtain cs where "sessions r = Some cs"
    by auto
  with Cons show ?case
    by (auto simp: recipients_def session_send_def split: option.split)
qed (simp add: recipients_def)

lemma find_chan_same:
  assumes "heap p = Some c" "P c' = P c"
  shows "find_chan P (heap(p \<mapsto> c')) ps = find_chan P heap ps"
  using assms by (induction ps) (auto split: option.split)

lemma dispatch_nets: "dispatch_effects env (map Net outs) d = Done (map (\<lambda>e. Chan (Net e)) outs)"
  by (induction outs) auto

lemma act_publish_subscribed:
  assumes "m_heap m p = Some c" "q_on_message (ch_quasar c)" "locally_subscribed (ch_quasar c) t"
    and "channel_deliver (me_malloc env) c t (Some payload) = Ret ces"
  obtains c' outs k where "act_publish env p t payload m = Done (0, m\<lparr>m_heap := (m_heap m)(p \<mapsto> c'), m_draws := k\<rparr>,
      ces @ map Net outs)" "ch_node_id c' = ch_node_id c"
proof -
  obtain c' outs where "poseidon_channel_publish (me_malloc env) (me_xxh env) (\<lambda>i. me_mids env (m_draws m + i)) c
       (Some t) (Some payload) = Ret (0, c', ces @ map Net outs)" "ch_node_id c' = ch_node_id c"
  proof -
    obtain c' outs where pub: "poseidon_channel_publish (me_malloc env) (me_xxh env) (\<lambda>i. me_mids env (m_draws m + i)) c
         (Some t) (Some payload) =
         cbind (channel_deliver (me_malloc env) c t (Some payload)) (\<lambda>ces. Ret (0, c', ces @ map Net outs))"
      using channel_publish_subscribed [OF assms(3,2)] by metis
    moreover from pub assms(4) have "ch_node_id c' = ch_node_id c"
      by (auto simp: poseidon_channel_publish_def Let_def split: prod.splits)
    ultimately show thesis
      using that assms(4) by simp
  qed
  with assms(1) show thesis
    by (intro that [where c' = c' and k = "m_draws m + publish_draws c t" and outs = outs]) (simp_all add: act_publish_def)
qed

lemma dispatch_message_alive:
  assumes "malloc_ok (me_malloc env)" "c_string 256 t" "c_string 256 sub" "length data \<le> 65536"
    and "find_chan (\<lambda>c. poseidon_channel_get_topic c = t) (m_heap (d_mgr d)) (m_channels (d_mgr d)) = Done (Some p)"
    and "\<forall>r \<in> set (m_sessions (d_mgr d)). d_sessions d r \<noteq> None"
  obtains buf where "session_dispatch_message env t sub (Some data) d =
      Done (map (session_send (d_sessions d) buf) (recipients (d_sessions d) (d_publisher d p) t (m_sessions (d_mgr d))))"
    "client_receive (me_malloc env) buf = Ret (event_frame CLIENT_EVENT_MESSAGE t sub data)"
proof -
  obtain buf where buf: "client_protocol_serialize (me_malloc env)
        (client_protocol_encode_event CLIENT_EVENT_MESSAGE (Some t) (Some sub) data) = Some buf"
      "client_receive (me_malloc env) buf = Ret (event_frame CLIENT_EVENT_MESSAGE t sub data)"
    using event_travels [OF assms(1-4)] by blast
  have "c_str (take (CLIENT_MAX_TOPIC_PATH - 1) t) = t"
    using assms(2) by (simp add: c_string_def CLIENT_MAX_TOPIC_PATH_def c_str_id)
  with buf assms(5,6) show thesis
    by (intro that [of buf]) (simp_all add: session_dispatch_message_def Let_def deliver_to_alive)
qed


definition example_subscriber :: poseidon_channel where
  "example_subscriber =
     (example_channel \<lparr>nid_hash = [1], nid_str = [66]\<rparr>)\<lparr>ch_quasar :=
        (quasar_create None 5 3 4096 3)\<lparr>q_on_message := True, q_local_subs := [\<lparr>sub_topic = [66], sub_ttl = 0\<rparr>]\<rparr>\<rparr>"

definition example_subscribed :: daemon where
  "example_subscribed =
     example_daemon\<lparr>d_mgr := (d_mgr example_daemon)\<lparr>m_heap := (m_heap (d_mgr example_daemon))(0 \<mapsto> example_subscriber)\<rparr>\<rparr>"

lemma example_subscribed_ok: "daemon_ok [0, 1] example_subscribed"
  unfolding example_subscribed_def
  by (rule daemon_state.mgr_upd [OF example_daemon_ok], rule daemon_state.heap_upd, rule daemon_state.mgr_part,
      rule example_daemon_ok) (simp add: example_daemon_def example_state_def)

lemma break_not_loaded: "cbor_load_item (\<lambda>_. True) [0xFF] = None"
  by code_simp


end
