(* ===== verification/TransportUnix.thy ===== *)
theory TransportUnix
  imports ClientSession
begin

text \<open>
  The Unix socket transport (\<open>src/ClientAPIs/transport_unix.c\<close>): frames with a length
  prefix on a byte stream, the connections of clients, and the life of their sessions.

  What the kernel has ready on a connection is an argument of the read callback; \<open>recv\<close>
  takes as much of it as the buffer has room for.
\<close>

definition UNIX_MAX_CLIENTS :: nat where "UNIX_MAX_CLIENTS = 128"
definition UNIX_READ_BUF_SIZE :: nat where "UNIX_READ_BUF_SIZE = 65536"
definition UNIX_FRAME_HEADER_SIZE :: nat where "UNIX_FRAME_HEADER_SIZE = 4"

lemmas unix_size_defs = UNIX_MAX_CLIENTS_def UNIX_READ_BUF_SIZE_def UNIX_FRAME_HEADER_SIZE_def

text \<open>\<open>uc_read_buf\<close> holds the \<open>read_len\<close> bytes that are in use.\<close>

record unix_client =
  uc_fd :: int
  uc_session :: nat
  uc_read_buf :: bytes

text \<open>
  \<open>ut_next_session\<close> is the static counter of session identifiers, \<open>ut_next\<close> the next
  session object, \<open>ut_self\<close> the transport itself.
\<close>

record unix_transport =
  ut_self :: nat
  ut_daemon :: daemon
  ut_clients :: "unix_client list"
  ut_next_session :: u32
  ut_next :: nat

section \<open>Frames\<close>

definition read_frame_header :: "bytes \<Rightarrow> nat option" where
  "read_frame_header buf =
     (let len = unat (ntohl_bytes buf) in if 0 < len \<and> len \<le> UNIX_READ_BUF_SIZE then Some len else None)"

definition write_frame_header :: "u32 \<Rightarrow> bytes" where
  "write_frame_header len = htonl_bytes len"

definition unix_transport_send :: "bytes \<Rightarrow> bytes" where
  "unix_transport_send data = write_frame_header (of_nat (length data)) @ data"

text \<open>One frame of \<open>process_client_data\<close>.\<close>

definition process_frame :: "nat \<Rightarrow> mgr_env \<Rightarrow> channel_env \<Rightarrow> nat \<Rightarrow> int \<Rightarrow> nat \<Rightarrow> bytes \<Rightarrow> unit dact" where
  "process_frame n env cenv self fd s data =
     (case client_receive (me_malloc env) data of
        Undef \<Rightarrow> (\<lambda>_. Undefined)
      | Fail \<Rightarrow> d_ret ()
      | Ret frame \<Rightarrow>
          d_bind (client_session_handle_request n env cenv s frame) (\<lambda>(rc, response).
            case client_protocol_serialize (me_malloc env) response of
              None \<Rightarrow> d_ret ()
            | Some resp_buf \<Rightarrow> (\<lambda>d. Done ((), d, [Transport_send self fd resp_buf]))))"

function process_client_data :: "nat \<Rightarrow> mgr_env \<Rightarrow> channel_env \<Rightarrow> nat \<Rightarrow> int \<Rightarrow> nat \<Rightarrow> bytes \<Rightarrow> bytes dact" where
  "process_client_data n env cenv self fd s buf =
     (if length buf < UNIX_FRAME_HEADER_SIZE then d_ret buf
      else case read_frame_header buf of
        None \<Rightarrow> d_ret buf
      | Some frame_len \<Rightarrow>
          if length buf < UNIX_FRAME_HEADER_SIZE + frame_len then d_ret buf
          else d_bind (process_frame n env cenv self fd s (take frame_len (drop UNIX_FRAME_HEADER_SIZE buf))) (\<lambda>_.
                 process_client_data n env cenv self fd s (drop (UNIX_FRAME_HEADER_SIZE + frame_len) buf)))"
  by auto
termination
  by (relation "measure (\<lambda>(n, env, cenv, self, fd, s, buf). length buf)") (auto simp: UNIX_FRAME_HEADER_SIZE_def)

declare process_client_data.simps [simp del]

section \<open>Connections\<close>

definition run_daemon :: "'a dact \<Rightarrow> unix_transport \<Rightarrow> ('a \<times> unix_transport \<times> session_effect list) run" where
  "run_daemon a t =
     (case a (ut_daemon t) of
        Done (x, d, es) \<Rightarrow> Done (x, t\<lparr>ut_daemon := d\<rparr>, es)
      | Undefined \<Rightarrow> Undefined
      | Overflow \<Rightarrow> Overflow)"

definition unix_client_create :: "int \<Rightarrow> unix_transport \<Rightarrow> unix_client \<times> unix_transport" where
  "unix_client_create fd t =
     (let session = (client_session_create (ut_next_session t) True)\<lparr>cs_client_fd := fd, cs_transport := Some (ut_self t)\<rparr>;
          d = ut_daemon t
      in (\<lparr>uc_fd = fd, uc_session = ut_next t, uc_read_buf = []\<rparr>,
          t\<lparr>ut_next_session := ut_next_session t + 1, ut_next := Suc (ut_next t),
            ut_daemon := d\<lparr>d_sessions := (d_sessions d)(ut_next t \<mapsto> session)\<rparr>\<rparr>))"

definition unix_client_destroy :: "unix_client \<Rightarrow> unix_transport \<Rightarrow> unix_transport" where
  "unix_client_destroy client t =
     t\<lparr>ut_daemon := (ut_daemon t)\<lparr>d_sessions := (d_sessions (ut_daemon t))(uc_session client := None)\<rparr>\<rparr>"

text \<open>\<open>watched\<close> tells whether the event loop had a watcher for the new connection.\<close>

definition unix_accept_callback :: "int \<Rightarrow> bool \<Rightarrow> unix_transport \<Rightarrow> unix_transport" where
  "unix_accept_callback client_fd watched t =
     (if client_fd < 0 then t
      else if length (ut_clients t) \<ge> UNIX_MAX_CLIENTS then t
      else case unix_client_create client_fd t of
        (client, t1) \<Rightarrow>
          if \<not> watched then unix_client_destroy client t1
          else t1\<lparr>ut_clients := ut_clients t1 @ [client],
                 ut_daemon := (ut_daemon t1)\<lparr>d_mgr :=
                   snd (poseidon_channel_manager_register_session (uc_session client) (d_mgr (ut_daemon t1)))\<rparr>\<rparr>)"

definition unix_client_disconnect ::
  "mgr_env \<Rightarrow> nat \<Rightarrow> unix_transport \<Rightarrow> (unit \<times> unix_transport \<times> session_effect list) run" where
  "unix_client_disconnect env i t =
     (let client = ut_clients t ! i
      in case run_daemon (client_session_cleanup_subscriptions env (uc_session client)) t of
           Done (_, t1, es) \<Rightarrow>
             let d = ut_daemon t1;
                 t2 = t1\<lparr>ut_daemon := d\<lparr>d_mgr :=
                        snd (poseidon_channel_manager_unregister_session (uc_session client) (d_mgr d))\<rparr>,
                        ut_clients := swap_remove i (ut_clients t1)\<rparr>
             in Done ((), unix_client_destroy client t2, es)
         | Undefined \<Rightarrow> Undefined
         | Overflow \<Rightarrow> Overflow)"

text \<open>
  An event of a connection. \<open>readable\<close> and \<open>ended\<close> are the flags of the event; when it is
  readable, \<open>ready\<close> is what the kernel has received, and nothing received, or no room for
  it, is the end of the connection.
\<close>

definition unix_read_callback ::
  "nat \<Rightarrow> mgr_env \<Rightarrow> channel_env \<Rightarrow> nat \<Rightarrow> bool \<Rightarrow> bool \<Rightarrow> bytes \<Rightarrow> unix_transport
     \<Rightarrow> (unit \<times> unix_transport \<times> session_effect list) run" where
  "unix_read_callback n env cenv i readable ended ready t =
     (let client = ut_clients t ! i;
          chunk = take (UNIX_READ_BUF_SIZE - length (uc_read_buf client)) ready
      in if readable \<and> chunk = [] then unix_client_disconnect env i t
         else if readable then
           (case run_daemon (process_client_data n env cenv (ut_self t) (uc_fd client) (uc_session client)
                               (uc_read_buf client @ chunk)) t of
              Done (buf, t1, es) \<Rightarrow>
                let t2 = t1\<lparr>ut_clients := (ut_clients t1)[i := client\<lparr>uc_read_buf := buf\<rparr>]\<rparr>
                in if ended
                   then (case unix_client_disconnect env i t2 of
                           Done (_, t3, es') \<Rightarrow> Done ((), t3, es @ es')
                         | Undefined \<Rightarrow> Undefined
                         | Overflow \<Rightarrow> Overflow)
                   else Done ((), t2, es)
            | Undefined \<Rightarrow> Undefined
            | Overflow \<Rightarrow> Overflow)
         else if ended then unix_client_disconnect env i t
         else Done ((), t, []))"

definition unix_transport_stop :: "unix_transport \<Rightarrow> unix_transport" where
  "unix_transport_stop t = (fold unix_client_destroy (ut_clients t) t)\<lparr>ut_clients := []\<rparr>"

definition poseidon_transport_unix_create :: "nat \<Rightarrow> daemon \<Rightarrow> unix_transport" where
  "poseidon_transport_unix_create self d =
     \<lparr>ut_self = self, ut_daemon = d, ut_clients = [], ut_next_session = 1, ut_next = 0\<rparr>"

section \<open>Framing\<close>

text \<open>The reference: the frames a byte stream starts with, and what is left of it.\<close>

function split_frames :: "bytes \<Rightarrow> bytes list \<times> bytes" where
  "split_frames buf =
     (if length buf < UNIX_FRAME_HEADER_SIZE then ([], buf)
      else case read_frame_header buf of
        None \<Rightarrow> ([], buf)
      | Some len \<Rightarrow>
          if length buf < UNIX_FRAME_HEADER_SIZE + len then ([], buf)
          else (case split_frames (drop (UNIX_FRAME_HEADER_SIZE + len) buf) of
                  (fs, rest) \<Rightarrow> (take len (drop UNIX_FRAME_HEADER_SIZE buf) # fs, rest)))"
  by auto
termination
  by (relation "measure length") (auto simp: UNIX_FRAME_HEADER_SIZE_def)

declare split_frames.simps [simp del]

fun process_frames :: "nat \<Rightarrow> mgr_env \<Rightarrow> channel_env \<Rightarrow> nat \<Rightarrow> int \<Rightarrow> nat \<Rightarrow> bytes list \<Rightarrow> unit dact" where
  "process_frames n env cenv self fd s [] = d_ret ()"
| "process_frames n env cenv self fd s (f # fs) =
     d_bind (process_frame n env cenv self fd s f) (\<lambda>_. process_frames n env cenv self fd s fs)"

lemma d_bind_assoc: "d_bind (d_bind a f) g = d_bind a (\<lambda>x. d_bind (f x) g)"
  by (rule ext) (simp add: d_bind_def split: run.split prod.split)

lemma d_bind_ret: "d_bind (d_ret x) f = f x"
  by (rule ext) (simp add: d_bind_def d_ret_def split: run.split prod.split)

lemma process_client_data_split:
  "process_client_data n env cenv self fd s buf =
     d_bind (process_frames n env cenv self fd s (fst (split_frames buf))) (\<lambda>_. d_ret (snd (split_frames buf)))"
proof (induction buf rule: split_frames.induct)
  case (1 buf)
  show ?case
  proof (cases "length buf < UNIX_FRAME_HEADER_SIZE")
    case False
    show ?thesis
    proof (cases "read_frame_header buf")
      case (Some len)
      show ?thesis
      proof (cases "length buf < UNIX_FRAME_HEADER_SIZE + len")
        case False
        with 1 [OF \<open>\<not> length buf < UNIX_FRAME_HEADER_SIZE\<close> Some] \<open>\<not> length buf < UNIX_FRAME_HEADER_SIZE\<close> Some
        show ?thesis
          by (simp add: process_client_data.simps [of _ _ _ _ _ _ buf] split_frames.simps [of buf] d_bind_assoc split_def)
      qed (use Some False in \<open>simp add: process_client_data.simps split_frames.simps d_bind_ret\<close>)
    qed (use False in \<open>simp add: process_client_data.simps split_frames.simps d_bind_ret\<close>)
  qed (simp add: process_client_data.simps split_frames.simps d_bind_ret)
qed

lemma read_frame_header_append: "UNIX_FRAME_HEADER_SIZE \<le> length a \<Longrightarrow> read_frame_header (a @ b) = read_frame_header a"
  by (auto simp: read_frame_header_def ntohl_bytes_def nth_append UNIX_FRAME_HEADER_SIZE_def)

lemma split_frames_append:
  "split_frames (a @ b) =
     (fst (split_frames a) @ fst (split_frames (snd (split_frames a) @ b)), snd (split_frames (snd (split_frames a) @ b)))"
proof (induction a rule: split_frames.induct)
  case (1 a)
  show ?case
  proof (cases "length a < UNIX_FRAME_HEADER_SIZE")
    case True
    then show ?thesis
      by (simp add: split_frames.simps [of a])
  next
    case long: False
    show ?thesis
    proof (cases "read_frame_header a")
      case None
      with long show ?thesis
        by (simp add: split_frames.simps [of a])
    next
      case (Some len)
      show ?thesis
      proof (cases "length a < UNIX_FRAME_HEADER_SIZE + len")
        case True
        with long Some show ?thesis
          by (simp add: split_frames.simps [of a])
      next
        case False
        with 1 [OF long Some] long Some read_frame_header_append [of a b] show ?thesis
          by (simp add: split_frames.simps [of a] split_frames.simps [of "a @ b"] split_def)
      qed
    qed
  qed
qed

lemma split_frames_rest: "split_frames (snd (split_frames b)) = ([], snd (split_frames b))"
proof (induction b rule: split_frames.induct)
  case (1 b)
  then show ?case
    by (simp add: split_frames.simps [of b] split_def split: option.split)
qed

text \<open>The reads of a connection, one after the other.\<close>

fun read_chunks :: "nat \<Rightarrow> mgr_env \<Rightarrow> channel_env \<Rightarrow> nat \<Rightarrow> int \<Rightarrow> nat \<Rightarrow> bytes \<Rightarrow> bytes list \<Rightarrow> bytes dact" where
  "read_chunks n env cenv self fd s buf [] = d_ret buf"
| "read_chunks n env cenv self fd s buf (c # cs) =
     d_bind (process_client_data n env cenv self fd s (buf @ c)) (\<lambda>rest. read_chunks n env cenv self fd s rest cs)"

lemma process_frames_append:
  "process_frames n env cenv self fd s (fs @ gs) =
     d_bind (process_frames n env cenv self fd s fs) (\<lambda>_. process_frames n env cenv self fd s gs)"
  by (induction fs) (simp_all add: d_bind_ret d_bind_assoc)

lemma read_chunks_split:
  assumes "fst (split_frames buf) = []"
  shows "read_chunks n env cenv self fd s buf cs =
    d_bind (process_frames n env cenv self fd s (fst (split_frames (buf @ concat cs))))
      (\<lambda>_. d_ret (snd (split_frames (buf @ concat cs))))"
  using assms
proof (induction cs arbitrary: buf)
  case Nil
  moreover have "snd (split_frames buf) = buf" if "fst (split_frames buf) = []"
    using that by (auto simp: split_frames.simps [of buf] split: option.splits prod.splits if_splits)
  ultimately show ?case
    by (simp add: d_bind_ret)
next
  case (Cons c cs)
  let ?rest = "snd (split_frames (buf @ c))"
  have "split_frames ?rest = ([], ?rest)"
    by (rule split_frames_rest)
  then show ?case
    using Cons.IH [of ?rest] split_frames_append [of "buf @ c" "concat cs"]
    by (simp add: process_client_data_split d_bind_assoc d_bind_ret process_frames_append)
qed

lemma split_frames_send:
  assumes "0 < length f" "length f \<le> UNIX_READ_BUF_SIZE"
  shows "split_frames (unix_transport_send f @ bs) = (f # fst (split_frames bs), snd (split_frames bs))"
proof -
  have "unat (of_nat (length f) :: u32) = length f"
    using assms(2) by (intro unat_of_nat_u32) (simp add: UNIX_READ_BUF_SIZE_def)
  with assms have "read_frame_header (unix_transport_send f @ bs) = Some (length f)"
    by (simp add: read_frame_header_def unix_transport_send_def write_frame_header_def)
  then show ?thesis
    by (subst split_frames.simps) (simp add: split_def unix_transport_send_def write_frame_header_def UNIX_FRAME_HEADER_SIZE_def)
qed

lemma split_frames_stream:
  assumes "list_all (\<lambda>f. 0 < length f \<and> length f \<le> UNIX_READ_BUF_SIZE) fs"
  shows "split_frames (concat (map unix_transport_send fs) @ bs) = (fs @ fst (split_frames bs), snd (split_frames bs))"
  using assms by (induction fs) (simp_all add: split_frames_send)

lemma split_frames_length: "length (snd (split_frames b)) \<le> length b"
proof (induction b rule: split_frames.induct)
  case (1 b)
  then show ?case
    by (fastforce simp: split_frames.simps [of b] split_def split: option.split)
qed

text \<open>Of the frames of a sender that fit the buffer, an unfinished one always leaves room.\<close>

lemma split_frames_room:
  assumes "list_all (\<lambda>f. 0 < length f \<and> length f \<le> 65532) fs" "concat (map unix_transport_send fs) = bs @ left" "left \<noteq> []"
  shows "length (snd (split_frames bs)) < UNIX_READ_BUF_SIZE"
  using assms
proof (induction fs arbitrary: bs)
  case (Cons f fs)
  let ?sf = "unix_transport_send f"
  have len: "length ?sf \<le> 65536"
    using Cons.prems(1) by (simp add: unix_transport_send_def write_frame_header_def)
  show ?case
  proof (cases "length ?sf \<le> length bs")
    case True
    then obtain cs where bs: "bs = ?sf @ cs"
      using Cons.prems(2) by (metis append_eq_append_conv_if append_take_drop_id concat.simps(2) list.simps(9))
    with Cons show ?thesis
      by (simp add: split_frames_send UNIX_READ_BUF_SIZE_def)
  next
    case False
    with len split_frames_length [of bs] show ?thesis
      by (simp add: UNIX_READ_BUF_SIZE_def)
  qed
qed simp

text \<open>
  C13. The transport recovers the frames of a client whatever the reads are that the
  kernel cuts the stream into: reading the chunks one after the other handles the same
  frames in the same order, with the same result and effects, as if every frame had
  arrived alone, and nothing is left over. For frames of at most 65532 bytes there is
  always room for the next read.
\<close>

theorem unix_framing:
  assumes "list_all (\<lambda>f. 0 < length f \<and> length f \<le> 65532) fs" "concat cs = concat (map unix_transport_send fs)"
  shows "read_chunks n env cenv self fd s [] cs = d_bind (process_frames n env cenv self fd s fs) (\<lambda>_. d_ret [])
    \<and> (\<forall>k < length cs. length (snd (split_frames (concat (take k cs)))) < UNIX_READ_BUF_SIZE \<or> concat (drop k cs) = [])"
proof (intro conjI allI impI)
  have e: "split_frames [] = ([], [])"
    by (simp add: split_frames.simps UNIX_FRAME_HEADER_SIZE_def)
  have "list_all (\<lambda>f. 0 < length f \<and> length f \<le> UNIX_READ_BUF_SIZE) fs"
    using assms(1) by (auto simp: list_all_iff UNIX_READ_BUF_SIZE_def)
  from split_frames_stream [OF this, of "[]"] e
  show "read_chunks n env cenv self fd s [] cs = d_bind (process_frames n env cenv self fd s fs) (\<lambda>_. d_ret [])"
    by (simp add: read_chunks_split assms(2))
  fix k
  have "concat (map unix_transport_send fs) = concat (take k cs) @ concat (drop k cs)"
    by (metis append_take_drop_id assms(2) concat_append)
  with split_frames_room [OF assms(1)]
  show "length (snd (split_frames (concat (take k cs)))) < UNIX_READ_BUF_SIZE \<or> concat (drop k cs) = []"
    by blast
qed

theorem unix_framing_witness:
  "read_chunks 1 example_env example_cenv 0 10 5 [] [[0, 0, 0], [2, 7], [8, 0, 0, 0, 1, 9]] =
     d_bind (process_frames 1 example_env example_cenv 0 10 5 [[7, 8], [9]]) (\<lambda>_. d_ret [])"
  by (rule unix_framing [THEN conjunct1])
    (simp_all add: unix_transport_send_def write_frame_header_def htonl_bytes_def)

section \<open>Sessions and connections\<close>

text \<open>Requests neither register nor free sessions.\<close>

definition daemon_is :: "nat list \<Rightarrow> nat set \<Rightarrow> daemon \<Rightarrow> bool" where
  "daemon_is regs A d \<longleftrightarrow> daemon_ok regs d \<and> dom (d_sessions d) = A"

interpretation daemon_alloc: daemon_requests "registry_is regs" "daemon_is regs A" for regs A
proof unfold_locales
  show "daemon_is regs A d \<Longrightarrow> d_sessions d s = Some cs \<Longrightarrow>
      daemon_is regs A (d\<lparr>d_sessions := (d_sessions d)(s \<mapsto> cs\<lparr>cs_subscriptions := snd (csub_subscribe t l (cs_subscriptions cs))\<rparr>)\<rparr>)"
    for regs A d s cs t l
    using daemon_state.subscribe_upd [of regs d s cs t l] by (auto simp: daemon_is_def)
  show "daemon_is regs A d \<Longrightarrow> d_sessions d s = Some cs \<Longrightarrow>
      daemon_is regs A (d\<lparr>d_sessions := (d_sessions d)(s \<mapsto> cs\<lparr>cs_subscriptions := snd (csub_unsubscribe t (cs_subscriptions cs))\<rparr>)\<rparr>)"
    for regs A d s cs t
    using daemon_state.unsubscribe_upd [of regs d s cs t] by (auto simp: daemon_is_def)
qed (auto simp: daemon_is_def daemon_ok_def)

context daemon_requests
begin

lemma dkeeps_process_frames: "dkeeps J (process_frames n env cenv self fd s fs)"
proof (induction fs)
  case (Cons f fs)
  have "dkeeps J (process_frame n env cenv self fd s f)"
    unfolding process_frame_def
    by (auto intro!: dkeeps_intros split: cres.split prod.split option.split) (auto simp: dkeeps_def)
  with Cons show ?case
    by (auto intro: dkeeps_intros)
qed (simp add: dkeeps_intros)

lemma dkeeps_process_data: "dkeeps J (process_client_data n env cenv self fd s buf)"
  unfolding process_client_data_split by (intro dkeeps_intros dkeeps_process_frames)

end

text \<open>
  The state of the transport: registered sessions belong to connected clients, each
  client has its own allocated session, and there is nothing else.
\<close>

definition unix_ok :: "unix_transport \<Rightarrow> bool" where
  "unix_ok t \<longleftrightarrow>
     daemon_is (m_sessions (d_mgr (ut_daemon t))) (uc_session ` set (ut_clients t)) (ut_daemon t)
     \<and> distinct (m_sessions (d_mgr (ut_daemon t)))
     \<and> set (m_sessions (d_mgr (ut_daemon t))) \<subseteq> uc_session ` set (ut_clients t)
     \<and> distinct (map uc_session (ut_clients t)) \<and> length (ut_clients t) \<le> UNIX_MAX_CLIENTS
     \<and> (\<forall>c \<in> set (ut_clients t). uc_session c < ut_next t)"

lemma unix_ok_run:
  assumes "unix_ok t" "run_daemon a t = Done (x, t', es)"
    and "\<And>regs A. dkeeps (daemon_is regs A) a"
  shows "unix_ok t'" "ut_clients t' = ut_clients t" "ut_next t' = ut_next t"
proof -
  let ?regs = "m_sessions (d_mgr (ut_daemon t))" and ?A = "uc_session ` set (ut_clients t)"
  obtain d where d: "a (ut_daemon t) = Done (x, d, es)" "t' = t\<lparr>ut_daemon := d\<rparr>"
    using assms(2) by (auto simp: run_daemon_def split: run.splits prod.splits)
  have "daemon_is ?regs ?A d"
    using dkeepsD [OF assms(3) _ d(1)] assms(1) by (simp add: unix_ok_def)
  moreover from this have "m_sessions (d_mgr d) = ?regs"
    by (simp add: daemon_is_def daemon_ok_def registry_is_def)
  ultimately show "unix_ok t'" "ut_clients t' = ut_clients t" "ut_next t' = ut_next t"
    using assms(1) d(2) by (simp_all add: unix_ok_def)
qed

lemma unix_ok_accept:
  assumes "unix_ok t"
  shows "unix_ok (unix_accept_callback fd watched t)"
proof (cases "fd < 0 \<or> length (ut_clients t) \<ge> UNIX_MAX_CLIENTS")
  case False
  let ?d = "ut_daemon t" and ?s = "ut_next t"
  let ?m = "d_mgr ?d" and ?cs = "(client_session_create (ut_next_session t) True)\<lparr>cs_client_fd := fd, cs_transport := Some (ut_self t)\<rparr>"
  let ?m' = "snd (poseidon_channel_manager_register_session ?s ?m)"
  let ?d' = "?d\<lparr>d_sessions := (d_sessions ?d)(?s \<mapsto> ?cs), d_mgr := ?m'\<rparr>"
  have t: "unix_accept_callback fd watched t =
      (if watched then t\<lparr>ut_next_session := ut_next_session t + 1, ut_next := Suc ?s,
         ut_clients := ut_clients t @ [\<lparr>uc_fd = fd, uc_session = ?s, uc_read_buf = []\<rparr>], ut_daemon := ?d'\<rparr>
       else t\<lparr>ut_next_session := ut_next_session t + 1, ut_next := Suc ?s,
         ut_daemon := ?d\<lparr>d_sessions := (d_sessions ?d)(?s := None)\<rparr>\<rparr>)"
    using False by (auto simp: unix_accept_callback_def unix_client_create_def unix_client_destroy_def Let_def)
  have fresh: "?s \<notin> uc_session ` set (ut_clients t)"
    using assms by (auto simp: unix_ok_def)
  then have "(d_sessions ?d)(?s := None) = d_sessions ?d"
    using assms by (auto simp: unix_ok_def daemon_is_def)
  note unwatched = this
  have regs: "m_sessions ?m' = m_sessions ?m \<or> m_sessions ?m' = m_sessions ?m @ [?s]"
    by (simp add: poseidon_channel_manager_register_session_def)
  have "mgr_ok ?m'"
    using mgr_state.sessions_upd(1) assms by (simp add: unix_ok_def daemon_is_def daemon_ok_def registry_is_def)
  then have "daemon_is (m_sessions ?m') (insert ?s (uc_session ` set (ut_clients t))) ?d'"
    using assms regs by (auto simp: unix_ok_def daemon_is_def daemon_ok_def registry_is_def client_session_create_def)
  then show ?thesis
    using assms fresh regs False unwatched by (auto simp: t unix_ok_def less_Suc_eq)
qed (use assms in \<open>auto simp: unix_accept_callback_def\<close>)

lemma unregister_session:
  assumes "distinct (m_sessions m)"
  shows "set (m_sessions (snd (poseidon_channel_manager_unregister_session s m))) = set (m_sessions m) - {s}
    \<and> distinct (m_sessions (snd (poseidon_channel_manager_unregister_session s m)))"
proof (cases "find_index (\<lambda>r. r = s) (m_sessions m)")
  case None
  then have "s \<notin> set (m_sessions m)"
    by (auto simp: find_index_None_iff list_ex_iff)
  with None assms show ?thesis
    by (simp add: poseidon_channel_manager_unregister_session_def)
next
  case (Some i)
  with set_swap_remove [OF assms, of i] find_index_SomeD [OF Some] show ?thesis
    by (simp add: poseidon_channel_manager_unregister_session_def)
qed

lemma unix_ok_disconnect:
  assumes "unix_ok t" "i < length (ut_clients t)" "unix_client_disconnect env i t = Done (x, t', es)"
  shows "unix_ok t'"
proof -
  let ?c = "ut_clients t ! i"
  let ?s = "uc_session ?c"
  obtain y t1 where t1: "run_daemon (client_session_cleanup_subscriptions env ?s) t = Done (y, t1, es)"
    using assms(3) by (auto simp: unix_client_disconnect_def Let_def split: run.splits prod.splits)
  have ok: "unix_ok t1" and same: "ut_clients t1 = ut_clients t" "ut_next t1 = ut_next t"
    using unix_ok_run [OF assms(1) t1 daemon_alloc.dkeeps_cleanup] .
  let ?d = "ut_daemon t1"
  let ?m' = "snd (poseidon_channel_manager_unregister_session ?s (d_mgr ?d))"
  let ?cl = "swap_remove i (ut_clients t)"
  have t': "t' = t1\<lparr>ut_clients := ?cl, ut_daemon := ?d\<lparr>d_mgr := ?m', d_sessions := (d_sessions ?d)(?s := None)\<rparr>\<rparr>"
    using assms(3) t1 same by (simp add: unix_client_disconnect_def unix_client_destroy_def Let_def)
  have dist: "distinct (map uc_session (ut_clients t))"
    using assms(1) by (simp add: unix_ok_def)
  have "map uc_session ?cl = swap_remove i (map uc_session (ut_clients t))"
    using assms(2) by (intro map_swap_remove) auto
  with set_swap_remove [OF dist, of i] assms(2)
  have cl: "distinct (map uc_session ?cl)" "uc_session ` set ?cl = uc_session ` set (ut_clients t) - {?s}"
    "length ?cl \<le> length (ut_clients t)"
    by (simp_all add: swap_remove_def flip: set_map)
  note regs = unregister_session [of "d_mgr ?d" ?s]
  have "mgr_ok ?m'"
    using mgr_state.sessions_upd(2) ok by (simp add: unix_ok_def daemon_is_def daemon_ok_def registry_is_def)
  then have "daemon_is (m_sessions ?m') (uc_session ` set ?cl) (ut_daemon t')"
    using ok regs by (auto simp: t' cl(2) same unix_ok_def daemon_is_def daemon_ok_def registry_is_def)
  moreover have "\<forall>c \<in> set ?cl. uc_session c < ut_next t"
  proof
    fix c
    assume "c \<in> set ?cl"
    then have "uc_session c \<in> uc_session ` set (ut_clients t)"
      using cl(2) by blast
    then show "uc_session c < ut_next t"
      using assms(1) by (auto simp: unix_ok_def)
  qed
  ultimately show ?thesis
    using ok regs cl assms(1) by (auto simp: t' unix_ok_def same)
qed

lemma unix_ok_buffer: "unix_ok t \<Longrightarrow> i < length (ut_clients t) \<Longrightarrow>
  unix_ok (t\<lparr>ut_clients := (ut_clients t)[i := (ut_clients t ! i)\<lparr>uc_read_buf := buf\<rparr>]\<rparr>)"
proof -
  assume ok: "unix_ok t" and i: "i < length (ut_clients t)"
  let ?cl = "(ut_clients t)[i := (ut_clients t ! i)\<lparr>uc_read_buf := buf\<rparr>]"
  have same: "map uc_session ?cl = map uc_session (ut_clients t)"
    using i by (simp add: map_update list_update_same_conv)
  have "\<forall>s \<in> set (map uc_session ?cl). s < ut_next t"
    using ok unfolding same by (simp add: unix_ok_def)
  then have bound: "\<forall>c \<in> set ?cl. uc_session c < ut_next t"
    by simp
  from same have "uc_session ` set ?cl = uc_session ` set (ut_clients t)"
    by (metis set_map)
  with ok same bound show ?thesis
    by (simp add: unix_ok_def)
qed

lemma unix_ok_read:
  assumes "unix_ok t" "i < length (ut_clients t)" "unix_read_callback n env cenv i readable ended ready t = Done (x, t', es)"
  shows "unix_ok t'"
proof -
  let ?c = "ut_clients t ! i"
  let ?chunk = "take (UNIX_READ_BUF_SIZE - length (uc_read_buf ?c)) ready"
  show ?thesis
  proof (cases "readable \<and> ?chunk \<noteq> []")
    case False
    with assms(3) consider "unix_client_disconnect env i t = Done (x, t', es)" | "t' = t"
      by (auto simp: unix_read_callback_def Let_def split: if_splits)
    then show ?thesis
      using unix_ok_disconnect [OF assms(1,2)] assms(1) by cases auto
  next
    case True
    with assms(3) obtain buf t1 es1 where
      run: "run_daemon (process_client_data n env cenv (ut_self t) (uc_fd ?c) (uc_session ?c) (uc_read_buf ?c @ ?chunk)) t
        = Done (buf, t1, es1)"
      by (auto simp: unix_read_callback_def Let_def split: run.splits prod.splits)
    note kept = unix_ok_run [OF assms(1) run daemon_alloc.dkeeps_process_data]
    let ?t2 = "t1\<lparr>ut_clients := (ut_clients t1)[i := ?c\<lparr>uc_read_buf := buf\<rparr>]\<rparr>"
    have ok: "unix_ok ?t2"
      using unix_ok_buffer [OF kept(1), of i buf] assms(2) by (simp add: kept(2))
    from True assms(3) run consider "t' = ?t2" | es' where "unix_client_disconnect env i ?t2 = Done ((), t', es')"
      by (auto simp: unix_read_callback_def Let_def split: run.splits prod.splits if_splits)
    then show ?thesis
      using unix_ok_disconnect [OF ok] ok assms(2) by cases (auto simp: kept(2))
  qed
qed

text \<open>
  What happens to the daemon of a Unix transport: connections come, send and go, and
  the manager runs its timers and receives messages of the overlay in between.
\<close>

inductive unix_step :: "unix_transport \<Rightarrow> unix_transport \<Rightarrow> bool" where
  unix_step_accept: "unix_step t (unix_accept_callback fd watched t)"
| unix_step_read: "i < length (ut_clients t) \<Longrightarrow> unix_read_callback n env cenv i readable ended ready t = Done (x, t', es)
    \<Longrightarrow> unix_step t t'"
| unix_step_manager: "mgr_step (d_mgr (ut_daemon t)) m' \<Longrightarrow> m_sessions m' = m_sessions (d_mgr (ut_daemon t))
    \<Longrightarrow> unix_step t (t\<lparr>ut_daemon := (ut_daemon t)\<lparr>d_mgr := m'\<rparr>\<rparr>)"

inductive unix_reach :: "unix_transport \<Rightarrow> bool" where
  unix_reach_init: "poseidon_channel_manager_create env cenv kp port s e = Some m \<Longrightarrow>
    unix_reach (poseidon_transport_unix_create self \<lparr>d_mgr = m, d_sessions = Map.empty, d_publisher = Map.empty\<rparr>)"
| unix_reach_step: "unix_reach t \<Longrightarrow> unix_step t t' \<Longrightarrow> unix_reach t'"

lemma unix_step_ok: "unix_step t t' \<Longrightarrow> unix_ok t \<Longrightarrow> unix_ok t'"
proof (induction rule: unix_step.induct)
  case (unix_step_manager t m')
  then have "mgr_ok m'"
    using mgr_state.step_keeps by (auto simp: unix_ok_def daemon_is_def daemon_ok_def registry_is_def)
  with unix_step_manager show ?case
    by (simp add: unix_ok_def daemon_is_def daemon_ok_def registry_is_def)
qed (auto intro: unix_ok_accept unix_ok_read)

lemma unix_reach_ok: "unix_reach t \<Longrightarrow> unix_ok t"
proof (induction rule: unix_reach.induct)
  case (unix_reach_init env cenv kp port s e m self)
  then have "mgr_ok m" "m_sessions m = []"
    using create_ok by (auto simp: poseidon_channel_manager_create_def Let_def split: option.splits prod.splits if_splits)
  then show ?case
    by (simp add: poseidon_transport_unix_create_def unix_ok_def daemon_is_def daemon_ok_def registry_is_def)
qed (rule unix_step_ok)

lemma find_chan_returns:
  assumes "mgr_ok m"
  shows "\<exists>r. find_chan P (m_heap m) (m_channels m) = Done r"
proof -
  have "\<forall>p \<in> set (m_channels m). m_heap m p \<noteq> None"
    using assms by (auto simp: mgr_ok_def)
  then show ?thesis
    by (rule find_chan_ok [where P = P]) auto
qed

lemma dispatch_message_returns:
  assumes "daemon_ok regs d"
  shows "\<exists>es. session_dispatch_message env topic sub data d = Done es"
proof -
  obtain r where r: "find_chan (\<lambda>c. poseidon_channel_get_topic c = c_str (take (CLIENT_MAX_TOPIC_PATH - 1) topic))
      (m_heap (d_mgr d)) (m_channels (d_mgr d)) = Done r"
    using find_chan_returns assms unfolding daemon_ok_def registry_is_def by blast
  have "\<forall>s \<in> set (m_sessions (d_mgr d)). d_sessions d s \<noteq> None"
    using assms by (simp add: daemon_ok_def registry_is_def)
  with r show ?thesis
    by (simp add: session_dispatch_message_def Let_def deliver_to_alive split: option.split)
qed


definition example_unix :: "poseidon_channel_manager \<Rightarrow> unix_transport" where
  "example_unix m =
     poseidon_transport_unix_create 0 \<lparr>d_mgr = m, d_sessions = Map.empty, d_publisher = Map.empty\<rparr>"

lemma example_unix_reach:
  assumes "poseidon_channel_manager_create example_env example_cenv (Some example_key) 4000 5000 6000 = Some m"
  shows "unix_reach (unix_accept_callback 10 True (example_unix m))"
  unfolding example_unix_def by (rule unix_reach_step [OF unix_reach_init [OF assms] unix_step_accept])


lemma stop_sessions:
  "d_mgr (ut_daemon (fold unix_client_destroy cs t)) = d_mgr (ut_daemon t)
   \<and> d_sessions (ut_daemon (fold unix_client_destroy cs t)) = (d_sessions (ut_daemon t)) |` (- (uc_session ` set cs))"
proof (induction cs arbitrary: t)
  case (Cons c cs)
  then show ?case
    by (auto simp: unix_client_destroy_def restrict_map_def)
qed (simp add: restrict_map_def)

text \<open>
  Stopping the Unix transport leaves the manager with freed sessions: it destroys
  the clients without unregistering their sessions, so the next message that is
  delivered reads a session that was freed.
\<close>

theorem unix_stop_dangles:
  assumes "unix_reach t" "m_sessions (d_mgr (ut_daemon t)) \<noteq> []"
    and "malloc_ok (me_malloc env)" "c_string 256 topic" "c_string 256 sub" "length data \<le> 65536"
  shows "session_dispatch_message env topic sub (Some data) (ut_daemon (unix_transport_stop t)) = Undefined"
proof -
  have ok: "unix_ok t"
    by (rule unix_reach_ok [OF assms(1)])
  let ?d = "ut_daemon (unix_transport_stop t)"
  have d: "d_mgr ?d = d_mgr (ut_daemon t)" "d_sessions ?d = Map.empty"
    using stop_sessions [of "ut_clients t" t] ok
    by (simp_all add: unix_transport_stop_def unix_ok_def daemon_is_def restrict_map_def fun_eq_iff)
      (metis domIff)+
  obtain s ss where regs: "m_sessions (d_mgr ?d) = s # ss"
    using assms(2) by (auto simp: d neq_Nil_conv)
  have topic: "c_str (take (CLIENT_MAX_TOPIC_PATH - 1) topic) = topic"
    using assms(4) by (simp add: c_string_def CLIENT_MAX_TOPIC_PATH_def c_str_id)
  have "mgr_ok (d_mgr ?d)"
    using ok by (simp add: d unix_ok_def daemon_is_def daemon_ok_def registry_is_def)
  then obtain r where r: "find_chan (\<lambda>c. poseidon_channel_get_topic c = topic) (m_heap (d_mgr ?d)) (m_channels (d_mgr ?d)) = Done r"
    using find_chan_returns by blast
  obtain buf where "client_protocol_serialize (me_malloc env)
      (client_protocol_encode_event CLIENT_EVENT_MESSAGE (Some topic) (Some sub) data) = Some buf"
    using event_travels [OF assms(3-6)] by blast
  with r regs d(2) topic show ?thesis
    by (simp add: session_dispatch_message_def Let_def)
qed

theorem unix_stop_dangles_witness:
  "\<exists>m. poseidon_channel_manager_create example_env example_cenv (Some example_key) 4000 5000 6000 = Some m
     \<and> session_dispatch_message example_env [65] [] (Some [])
         (ut_daemon (unix_transport_stop (unix_accept_callback 10 True (example_unix m)))) = Undefined"
proof -
  obtain m where m: "poseidon_channel_manager_create example_env example_cenv (Some example_key) 4000 5000 6000 = Some m"
    using example_manager by blast
  then have "m_sessions m = []"
    by (auto simp: poseidon_channel_manager_create_def Let_def split: option.splits prod.splits if_splits)
  then have "m_sessions (d_mgr (ut_daemon (unix_accept_callback 10 True (example_unix m)))) \<noteq> []"
    by (simp add: unix_accept_callback_def example_unix_def poseidon_transport_unix_create_def unix_client_create_def
        Let_def unix_size_defs poseidon_channel_manager_register_session_def POSEIDON_SESSION_REGISTRY_MAX_def)
  from unix_stop_dangles [OF example_unix_reach [OF m] this] m show ?thesis
    by (simp add: example_env_def malloc_ok_def c_string_def)
qed

text \<open>
  The frame header accepts frames of up to 65536 bytes, but the buffer of a client
  holds 65536 bytes with the header: a frame of 65533 to 65536 bytes never completes.
  The first read fills the buffer without handling anything, and the next one, with no
  room left, disconnects the client although the rest of the frame is there to be read.
\<close>

theorem unix_frame_never_fits:
  assumes "65532 < length f" "length f \<le> 65536"
    and "i < length (ut_clients t)" "uc_read_buf (ut_clients t ! i) = []"
  shows "read_frame_header (unix_transport_send f) = Some (length f)
    \<and> (\<exists>t1. unix_read_callback n env cenv i True False (unix_transport_send f) t = Done ((), t1, [])
         \<and> ut_daemon t1 = ut_daemon t
         \<and> unix_read_callback n env cenv i True False (drop UNIX_READ_BUF_SIZE (unix_transport_send f)) t1 =
             unix_client_disconnect env i t1)"
proof -
  let ?s = "unix_transport_send f"
  let ?c = "ut_clients t ! i"
  let ?buf = "take UNIX_READ_BUF_SIZE ?s"
  let ?t1 = "t\<lparr>ut_clients := (ut_clients t)[i := ?c\<lparr>uc_read_buf := ?buf\<rparr>]\<rparr>"
  have hdr: "read_frame_header (htonl_bytes (of_nat (length f)) @ xs) = Some (length f)" for xs
    using assms(1,2) unat_of_nat_u32 [of "length f"] by (auto simp: read_frame_header_def unix_size_defs)
  have "?buf = htonl_bytes (of_nat (length f)) @ take 65532 f"
    by (simp add: unix_transport_send_def write_frame_header_def unix_size_defs)
  with hdr have "read_frame_header ?buf = Some (length f)"
    by simp
  moreover have full: "length ?buf = UNIX_READ_BUF_SIZE"
    using assms(1) by (simp add: unix_transport_send_def write_frame_header_def unix_size_defs)
  ultimately have "process_client_data n env cenv (ut_self t) (uc_fd ?c) (uc_session ?c) ?buf = d_ret ?buf"
    using assms(1) by (simp add: process_client_data.simps unix_size_defs)
  moreover have "?s \<noteq> []" "UNIX_READ_BUF_SIZE \<noteq> 0"
    by (simp_all add: unix_transport_send_def write_frame_header_def htonl_bytes_def UNIX_READ_BUF_SIZE_def)
  ultimately have "unix_read_callback n env cenv i True False ?s t = Done ((), ?t1, [])"
    using assms by (simp add: unix_read_callback_def run_daemon_def d_ret_def Let_def)
  moreover have "unix_read_callback n env cenv i True False (drop UNIX_READ_BUF_SIZE ?s) ?t1 = unix_client_disconnect env i ?t1"
    using assms(3) full by (simp add: unix_read_callback_def)
  moreover have "read_frame_header ?s = Some (length f)"
    using hdr by (simp add: unix_transport_send_def write_frame_header_def)
  ultimately show ?thesis
    by (intro conjI exI [of _ ?t1]) simp_all
qed

theorem unix_frame_never_fits_witness:
  "let t = (example_unix (example_state \<lparr>nid_hash = [1], nid_str = [66]\<rparr>))
             \<lparr>ut_clients := [\<lparr>uc_fd = 10, uc_session = 0, uc_read_buf = []\<rparr>]\<rparr>
   in \<exists>t1. unix_read_callback 1 example_env example_cenv 0 True False (unix_transport_send (replicate 65536 7)) t = Done ((), t1, [])
        \<and> unix_read_callback 1 example_env example_cenv 0 True False
              (drop UNIX_READ_BUF_SIZE (unix_transport_send (replicate 65536 7))) t1 =
            unix_client_disconnect example_env 0 t1"
  unfolding Let_def
  using unix_frame_never_fits [of "replicate 65536 7" 0 "(example_unix (example_state \<lparr>nid_hash = [1], nid_str = [66]\<rparr>))
      \<lparr>ut_clients := [\<lparr>uc_fd = 10, uc_session = 0, uc_read_buf = []\<rparr>]\<rparr>" 1 example_env example_cenv]
  by (simp only: length_replicate unix_transport.select_convs unix_transport.update_convs unix_client.select_convs
      nth_Cons_0 list.size) auto

end
