(* ===== verification/ClientLibrary.thy ===== *)
theory ClientLibrary
  imports TransportUnix
begin

text \<open>
  The C client library (\<open>src/ClientLibs/c/poseidon_client.c\<close>): numbered requests, the
  receive loop of socket connections and of QUIC streams, and the calls of its
  interface. Opening connections is not modelled; \<open>client_opened\<close> is the object they
  start from. The application's callbacks are effects, and the results of \<open>send\<close> and
  \<open>StreamSend\<close> are a parameter: for each of the sends of a frame the number of bytes
  that were accepted.
\<close>

definition FRAME_HEADER_SIZE :: nat where "FRAME_HEADER_SIZE = 4"
definition CLIENT_READ_BUF_SIZE :: nat where "CLIENT_READ_BUF_SIZE = 65536"

lemmas client_size_defs = FRAME_HEADER_SIZE_def CLIENT_READ_BUF_SIZE_def

text \<open>\<open>pc_quic_stream_ready\<close>: the stream is there and has started.\<close>

record poseidon_client =
  pc_connected :: bool
  pc_is_quic :: bool
  pc_quic_stream_ready :: bool
  pc_next_request_id :: u32
  pc_message_cb :: bool
  pc_event_cb :: bool
  pc_response_cb :: bool
  pc_running :: bool
  pc_read_buf :: bytes

datatype client_effect =
    Response_cb u32 byte bytes
  | Message_cb bytes bytes bytes
  | Event_cb byte bytes

definition client_opened :: poseidon_client where
  "client_opened =
     \<lparr>pc_connected = True, pc_is_quic = False, pc_quic_stream_ready = False, pc_next_request_id = 1,
      pc_message_cb = False, pc_event_cb = False, pc_response_cb = False, pc_running = True, pc_read_buf = []\<rparr>"

section \<open>Sending\<close>

definition client_write_frame_header :: "u32 \<Rightarrow> bytes" where
  "client_write_frame_header len = htonl_bytes len"

definition client_read_frame_header :: "bytes \<Rightarrow> nat option" where
  "client_read_frame_header buf =
     (let len = unat (ntohl_bytes buf) in if 0 < len \<and> len \<le> CLIENT_READ_BUF_SIZE then Some len else None)"

type_synonym net = "nat \<Rightarrow> bytes \<Rightarrow> nat option"

definition accepted :: "nat option \<Rightarrow> bytes \<Rightarrow> bytes" where
  "accepted n bs = (case n of None \<Rightarrow> [] | Some k \<Rightarrow> take k bs)"

text \<open>The return value, and the bytes that went out.\<close>

definition send_frame :: "net \<Rightarrow> poseidon_client \<Rightarrow> bytes \<Rightarrow> int \<times> bytes" where
  "send_frame net client data =
     (let header = client_write_frame_header (of_nat (length data))
      in if pc_is_quic client then
           if \<not> pc_quic_stream_ready client then (- 1, [])
           else (case net 0 (header @ data) of None \<Rightarrow> (- 1, []) | Some _ \<Rightarrow> (0, header @ data))
         else
           let h = net 0 header; d = net 1 data
           in (if h = Some FRAME_HEADER_SIZE \<and> d = Some (length data) then 0 else - 1,
               accepted h header @ accepted d data))"

definition next_id :: "poseidon_client \<Rightarrow> u32 \<times> poseidon_client" where
  "next_id client = (pc_next_request_id client, client\<lparr>pc_next_request_id := pc_next_request_id client + 1\<rparr>)"

definition send_item ::
  "(nat \<Rightarrow> bool) \<Rightarrow> net \<Rightarrow> cbor_item option \<Rightarrow> poseidon_client \<Rightarrow> int \<times> bytes \<times> poseidon_client" where
  "send_item malloc net frame client =
     (case client_protocol_serialize malloc frame of
        None \<Rightarrow> (- 1, [], client)
      | Some buf \<Rightarrow> (case send_frame net client buf of (rc, out) \<Rightarrow> (rc, out, client)))"

definition send_request ::
  "(nat \<Rightarrow> bool) \<Rightarrow> net \<Rightarrow> byte \<Rightarrow> bytes option \<Rightarrow> bytes \<Rightarrow> poseidon_client \<Rightarrow> int \<times> bytes \<times> poseidon_client" where
  "send_request malloc net method topic_path payload client0 =
     (case next_id client0 of
        (rid, client) \<Rightarrow> send_item malloc net (client_protocol_encode_request rid method topic_path payload) client)"

definition send_admin_request ::
  "(nat \<Rightarrow> bool) \<Rightarrow> net \<Rightarrow> byte \<Rightarrow> bytes option \<Rightarrow> bytes \<Rightarrow> bytes \<Rightarrow> poseidon_client
     \<Rightarrow> int \<times> bytes \<times> poseidon_client" where
  "send_admin_request malloc net method topic_path signature config_data client0 =
     (case next_id client0 of
        (rid, client) \<Rightarrow>
          send_item malloc net (client_protocol_encode_admin_request rid method topic_path signature config_data) client)"

section \<open>Receiving\<close>

definition process_received_frame :: "poseidon_client \<Rightarrow> client_frame \<Rightarrow> client_effect list" where
  "process_received_frame client frame =
     (if cf_frame_type frame = CLIENT_FRAME_RESPONSE then
        if pc_response_cb client
        then [Response_cb (cf_request_id frame) (cf_error_code frame) (cf_result_data frame)] else []
      else if cf_frame_type frame = CLIENT_FRAME_EVENT then
        if cf_event_type frame = CLIENT_EVENT_MESSAGE \<and> pc_message_cb client
        then [Message_cb (cf_topic_path frame) (cf_subtopic frame) (cf_payload frame)]
        else if pc_event_cb client then [Event_cb (cf_event_type frame) (cf_payload frame)] else []
      else [])"

definition client_dispatch :: "(nat \<Rightarrow> bool) \<Rightarrow> poseidon_client \<Rightarrow> bytes \<Rightarrow> client_effect list cres" where
  "client_dispatch malloc client data =
     (case client_receive malloc data of
        Undef \<Rightarrow> Undef
      | Fail \<Rightarrow> Ret []
      | Ret frame \<Rightarrow> Ret (process_received_frame client frame))"

text \<open>
  The frames that are complete: whether the header of the next one is valid as far as it
  can be seen, the bytes that are left, and the callbacks.
\<close>

function client_drain ::
  "(nat \<Rightarrow> bool) \<Rightarrow> poseidon_client \<Rightarrow> bytes \<Rightarrow> (bool \<times> bytes \<times> client_effect list) cres" where
  "client_drain malloc client buf =
     (if length buf < FRAME_HEADER_SIZE then Ret (True, buf, [])
      else case client_read_frame_header buf of
        None \<Rightarrow> Ret (False, buf, [])
      | Some frame_len \<Rightarrow>
          if length buf < FRAME_HEADER_SIZE + frame_len then Ret (True, buf, [])
          else cbind (client_dispatch malloc client (take frame_len (drop FRAME_HEADER_SIZE buf))) (\<lambda>es.
               cbind (client_drain malloc client (drop (FRAME_HEADER_SIZE + frame_len) buf)) (\<lambda>(valid, rest, es').
               Ret (valid, rest, es @ es'))))"
  by auto
termination
  by (relation "measure (\<lambda>(malloc, client, buf). length buf)") (auto simp: FRAME_HEADER_SIZE_def)

declare client_drain.simps [simp del]

text \<open>The receive thread on what the kernel has ready at each of its reads; nothing is the end of the connection.\<close>

fun recv_thread_func ::
  "(nat \<Rightarrow> bool) \<Rightarrow> poseidon_client \<Rightarrow> bytes list \<Rightarrow> (poseidon_client \<times> client_effect list) cres" where
  "recv_thread_func malloc client [] = Ret (client, [])"
| "recv_thread_func malloc client (ready # later) =
     (if \<not> pc_running client then Ret (client, [])
      else
        let chunk = take (CLIENT_READ_BUF_SIZE - length (pc_read_buf client)) ready
        in if chunk = [] then Ret (client\<lparr>pc_connected := False\<rparr>, [])
           else cbind (client_drain malloc client (pc_read_buf client @ chunk)) (\<lambda>(valid, rest, es).
                  if valid
                  then cbind (recv_thread_func malloc (client\<lparr>pc_read_buf := rest\<rparr>) later) (\<lambda>(client', es').
                         Ret (client', es @ es'))
                  else Ret (client\<lparr>pc_read_buf := rest, pc_connected := False\<rparr>, es)))"

datatype quic_stream_event = Start_complete | Receive "bytes list" | Send_complete | Peer_send_shutdown | Shutdown_complete

definition quic_client_stream_callback ::
  "(nat \<Rightarrow> bool) \<Rightarrow> quic_stream_event \<Rightarrow> poseidon_client \<Rightarrow> (poseidon_client \<times> client_effect list) cres" where
  "quic_client_stream_callback malloc event client =
     (case event of
        Start_complete \<Rightarrow> Ret (client\<lparr>pc_quic_stream_ready := True\<rparr>, [])
      | Receive buffers \<Rightarrow>
          if length (pc_read_buf client) + length (concat buffers) > CLIENT_READ_BUF_SIZE then Ret (client, [])
          else cbind (client_drain malloc client (pc_read_buf client @ concat buffers)) (\<lambda>(valid, rest, es).
                 Ret (client\<lparr>pc_read_buf := rest, pc_connected := pc_connected client \<and> valid\<rparr>, es))
      | Send_complete \<Rightarrow> Ret (client, [])
      | Peer_send_shutdown \<Rightarrow> Ret (client\<lparr>pc_connected := False\<rparr>, [])
      | Shutdown_complete \<Rightarrow> Ret (client\<lparr>pc_connected := False\<rparr>, []))"

section \<open>The interface\<close>

text \<open>A call returns its code, the bytes that went out and the client. Arguments that are \<open>None\<close> are null pointers.\<close>

type_synonym client_call = "poseidon_client \<Rightarrow> int \<times> bytes \<times> poseidon_client"

definition client_request ::
  "(nat \<Rightarrow> bool) \<Rightarrow> net \<Rightarrow> byte \<Rightarrow> bytes option \<Rightarrow> bytes \<Rightarrow> client_call" where
  "client_request malloc net method topic payload client =
     (case topic of None \<Rightarrow> (- 1, [], client) | Some t \<Rightarrow> send_request malloc net method (Some t) payload client)"

definition poseidon_client_channel_create :: "(nat \<Rightarrow> bool) \<Rightarrow> net \<Rightarrow> bytes option \<Rightarrow> client_call" where
  "poseidon_client_channel_create malloc net name = client_request malloc net CLIENT_METHOD_CHANNEL_CREATE name []"

definition poseidon_client_channel_join :: "(nat \<Rightarrow> bool) \<Rightarrow> net \<Rightarrow> bytes option \<Rightarrow> client_call" where
  "poseidon_client_channel_join malloc net topic_or_alias =
     client_request malloc net CLIENT_METHOD_CHANNEL_JOIN topic_or_alias []"

definition poseidon_client_channel_leave :: "(nat \<Rightarrow> bool) \<Rightarrow> net \<Rightarrow> bytes option \<Rightarrow> client_call" where
  "poseidon_client_channel_leave malloc net topic_id = client_request malloc net CLIENT_METHOD_CHANNEL_LEAVE topic_id []"

definition poseidon_client_subscribe :: "(nat \<Rightarrow> bool) \<Rightarrow> net \<Rightarrow> bytes option \<Rightarrow> client_call" where
  "poseidon_client_subscribe malloc net topic_path = client_request malloc net CLIENT_METHOD_SUBSCRIBE topic_path []"

definition poseidon_client_unsubscribe :: "(nat \<Rightarrow> bool) \<Rightarrow> net \<Rightarrow> bytes option \<Rightarrow> client_call" where
  "poseidon_client_unsubscribe malloc net topic_path = client_request malloc net CLIENT_METHOD_UNSUBSCRIBE topic_path []"

definition poseidon_client_publish :: "(nat \<Rightarrow> bool) \<Rightarrow> net \<Rightarrow> bytes option \<Rightarrow> bytes \<Rightarrow> client_call" where
  "poseidon_client_publish malloc net topic_path data = client_request malloc net CLIENT_METHOD_PUBLISH topic_path data"

definition poseidon_client_alias_register ::
  "(nat \<Rightarrow> bool) \<Rightarrow> net \<Rightarrow> bytes option \<Rightarrow> bytes option \<Rightarrow> client_call" where
  "poseidon_client_alias_register malloc net name topic_id client =
     (case topic_id of
        None \<Rightarrow> (- 1, [], client)
      | Some t \<Rightarrow> client_request malloc net CLIENT_METHOD_ALIAS_REGISTER name t client)"

definition poseidon_client_alias_unregister :: "(nat \<Rightarrow> bool) \<Rightarrow> net \<Rightarrow> bytes option \<Rightarrow> client_call" where
  "poseidon_client_alias_unregister malloc net name = client_request malloc net CLIENT_METHOD_ALIAS_UNREGISTER name []"

text \<open>What the owner of a channel signs: the method, the topic and the time, most significant byte first.\<close>

definition timestamp_bytes :: "u64 \<Rightarrow> bytes" where
  "timestamp_bytes timestamp_us = map (\<lambda>i. ucast (drop_bit (i * 8) timestamp_us)) (rev [0..<8])"

definition owner_request ::
  "openssl \<Rightarrow> (nat \<Rightarrow> bool) \<Rightarrow> net \<Rightarrow> u64 \<Rightarrow> byte \<Rightarrow> bytes \<Rightarrow> bytes \<Rightarrow> poseidon_key_pair \<Rightarrow> client_call" where
  "owner_request ssl malloc net timestamp_us method topic_id config_data owner_key client =
     (if length topic_id > CLIENT_MAX_TOPIC_PATH then (- 1, [], client)
      else case poseidon_key_pair_sign ssl owner_key (method # topic_id @ timestamp_bytes timestamp_us) of
        None \<Rightarrow> (- 1, [], client)
      | Some signature \<Rightarrow> send_admin_request malloc net method (Some topic_id) signature config_data client)"

definition poseidon_client_channel_destroy ::
  "openssl \<Rightarrow> (nat \<Rightarrow> bool) \<Rightarrow> net \<Rightarrow> u64 \<Rightarrow> bytes option \<Rightarrow> poseidon_key_pair option \<Rightarrow> client_call" where
  "poseidon_client_channel_destroy ssl malloc net timestamp_us topic_id owner_key client =
     (case (topic_id, owner_key) of
        (Some topic, Some key) \<Rightarrow> owner_request ssl malloc net timestamp_us CLIENT_METHOD_CHANNEL_DESTROY topic [] key client
      | _ \<Rightarrow> (- 1, [], client))"

text \<open>The configuration goes out as the bytes of the structure.\<close>

definition config_to_mem :: "poseidon_channel_config \<Rightarrow> bytes" where
  "config_to_mem c =
     concat (map mem_u32 (cfg_ring_sizes c @
       [cfg_gossip_init_interval_s c, cfg_gossip_steady_interval_s c, cfg_gossip_num_init_intervals c,
        cfg_quasar_max_hops c, cfg_quasar_alpha c, cfg_quasar_seen_size c, cfg_quasar_seen_hashes c]))"

definition poseidon_client_channel_modify ::
  "openssl \<Rightarrow> (nat \<Rightarrow> bool) \<Rightarrow> net \<Rightarrow> u64 \<Rightarrow> bytes option \<Rightarrow> poseidon_channel_config option
     \<Rightarrow> poseidon_key_pair option \<Rightarrow> client_call" where
  "poseidon_client_channel_modify ssl malloc net timestamp_us topic_id config owner_key client =
     (case (topic_id, config, owner_key) of
        (Some topic, Some cfg, Some key) \<Rightarrow>
          owner_request ssl malloc net timestamp_us CLIENT_METHOD_CHANNEL_MODIFY topic (config_to_mem cfg) key client
      | _ \<Rightarrow> (- 1, [], client))"

definition poseidon_client_on_message :: "bool \<Rightarrow> poseidon_client \<Rightarrow> poseidon_client" where
  "poseidon_client_on_message cb client = client\<lparr>pc_message_cb := cb\<rparr>"

definition poseidon_client_on_event :: "bool \<Rightarrow> poseidon_client \<Rightarrow> poseidon_client" where
  "poseidon_client_on_event cb client = client\<lparr>pc_event_cb := cb\<rparr>"

definition poseidon_client_on_response :: "bool \<Rightarrow> poseidon_client \<Rightarrow> poseidon_client" where
  "poseidon_client_on_response cb client = client\<lparr>pc_response_cb := cb\<rparr>"

section \<open>Frames in both directions\<close>

text \<open>The library and the daemon use the same frames.\<close>

lemma client_frames_same:
  "client_write_frame_header = write_frame_header" "client_read_frame_header = read_frame_header"
  "FRAME_HEADER_SIZE = UNIX_FRAME_HEADER_SIZE" "CLIENT_READ_BUF_SIZE = UNIX_READ_BUF_SIZE"
  by (simp_all add: fun_eq_iff client_write_frame_header_def write_frame_header_def client_read_frame_header_def
      read_frame_header_def client_size_defs unix_size_defs)

definition net_ok :: "net \<Rightarrow> bool" where
  "net_ok net \<longleftrightarrow> (\<forall>i bs. net i bs = Some (length bs))"

lemma send_frame_ok:
  "net_ok net \<Longrightarrow> \<not> pc_is_quic client \<Longrightarrow> send_frame net client data = (0, unix_transport_send data)"
  by (simp add: send_frame_def net_ok_def accepted_def client_frames_same unix_transport_send_def write_frame_header_def
      unix_size_defs Let_def)

fun client_dispatch_all :: "(nat \<Rightarrow> bool) \<Rightarrow> poseidon_client \<Rightarrow> bytes list \<Rightarrow> client_effect list cres" where
  "client_dispatch_all malloc client [] = Ret []"
| "client_dispatch_all malloc client (f # fs) =
     cbind (client_dispatch malloc client f) (\<lambda>es. cbind (client_dispatch_all malloc client fs) (\<lambda>es'. Ret (es @ es')))"

definition frame_valid :: "bytes \<Rightarrow> bool" where
  "frame_valid buf \<longleftrightarrow> length buf < UNIX_FRAME_HEADER_SIZE \<or> read_frame_header buf \<noteq> None"

lemma cbind_assoc: "cbind (cbind a f) g = cbind a (\<lambda>x. cbind (f x) g)"
  by (cases a) auto

lemma client_drain_split:
  "client_drain malloc client buf =
     cbind (client_dispatch_all malloc client (fst (split_frames buf)))
       (\<lambda>es. Ret (frame_valid (snd (split_frames buf)), snd (split_frames buf), es))"
proof (induction buf rule: split_frames.induct)
  case (1 buf)
  show ?case
  proof (cases "length buf < UNIX_FRAME_HEADER_SIZE")
    case True
    then show ?thesis
      by (simp add: client_drain.simps [of _ _ buf] split_frames.simps [of buf] client_frames_same frame_valid_def)
  next
    case long: False
    show ?thesis
    proof (cases "read_frame_header buf")
      case None
      with long show ?thesis
        by (simp add: client_drain.simps [of _ _ buf] split_frames.simps [of buf] client_frames_same frame_valid_def)
    next
      case (Some len)
      show ?thesis
      proof (cases "length buf < UNIX_FRAME_HEADER_SIZE + len")
        case True
        with long Some show ?thesis
          by (simp add: client_drain.simps [of _ _ buf] split_frames.simps [of buf] client_frames_same frame_valid_def)
      next
        case False
        with 1 [OF long Some] long Some show ?thesis
          by (simp add: client_drain.simps [of _ _ buf] split_frames.simps [of buf] client_frames_same split_def cbind_assoc)
      qed
    qed
  qed
qed

lemma prefix_frame_valid:
  assumes "list_all (\<lambda>f. 0 < length f \<and> length f \<le> UNIX_READ_BUF_SIZE) fs" "concat (map unix_transport_send fs) = bs @ left"
  shows "frame_valid (snd (split_frames bs))"
  using assms
proof (induction fs arbitrary: bs)
  case Nil
  then show ?case
    by (simp add: split_frames.simps [of "[]"] frame_valid_def UNIX_FRAME_HEADER_SIZE_def)
next
  case (Cons f fs)
  let ?sf = "unix_transport_send f"
  show ?case
  proof (cases "length ?sf \<le> length bs")
    case True
    then obtain cs where bs: "bs = ?sf @ cs"
      using Cons.prems(2) by (metis append_eq_append_conv_if append_take_drop_id concat.simps(2) list.simps(9))
    with Cons show ?thesis
      by (simp add: split_frames_send)
  next
    case False
    then obtain cs where sf: "?sf = bs @ cs"
      using Cons.prems(2) by (auto simp: append_eq_append_conv2)
    have "unat (of_nat (length f) :: u32) = length f"
      using Cons.prems(1) by (intro unat_of_nat_u32) (simp add: UNIX_READ_BUF_SIZE_def)
    then have "read_frame_header ?sf = Some (length f)"
      using Cons.prems(1) by (simp add: read_frame_header_def unix_transport_send_def write_frame_header_def)
    moreover have "length bs < UNIX_FRAME_HEADER_SIZE + length f"
      using False by (simp add: unix_transport_send_def write_frame_header_def UNIX_FRAME_HEADER_SIZE_def)
    ultimately have "split_frames bs = ([], bs) \<and> frame_valid bs"
      using read_frame_header_append [of bs cs]
      by (cases "length bs < UNIX_FRAME_HEADER_SIZE") (simp_all add: sf frame_valid_def split_frames.simps [of bs] not_less)
    then show ?thesis
      by simp
  qed
qed

lemma client_dispatch_buffer [simp]:
  "client_dispatch_all malloc (client\<lparr>pc_read_buf := b\<rparr>) fs = client_dispatch_all malloc client fs"
proof -
  have "client_dispatch malloc (client\<lparr>pc_read_buf := b\<rparr>) f = client_dispatch malloc client f" for f
    by (simp add: client_dispatch_def process_received_frame_def split: cres.split)
  then show ?thesis
    by (induction fs) simp_all
qed

lemma cbind_ret: "cbind a Ret = a"
  by (cases a) simp_all

lemma client_dispatch_append:
  "client_dispatch_all malloc client (fs @ gs) =
     cbind (client_dispatch_all malloc client fs) (\<lambda>es. cbind (client_dispatch_all malloc client gs) (\<lambda>es'. Ret (es @ es')))"
  by (induction fs) (simp_all add: cbind_assoc cbind_ret)

lemma recv_thread_split:
  assumes "pc_running client" "fst (split_frames (pc_read_buf client)) = []"
    and "\<forall>k < length cs. cs ! k \<noteq> [] \<and>
      length (snd (split_frames (pc_read_buf client @ concat (take k cs)))) + length (cs ! k) \<le> CLIENT_READ_BUF_SIZE
      \<and> frame_valid (snd (split_frames (pc_read_buf client @ concat (take (Suc k) cs))))"
  shows "recv_thread_func malloc client cs =
    cbind (client_dispatch_all malloc client (fst (split_frames (pc_read_buf client @ concat cs))))
      (\<lambda>es. Ret (client\<lparr>pc_read_buf := snd (split_frames (pc_read_buf client @ concat cs))\<rparr>, es))"
  using assms
proof (induction cs arbitrary: client)
  case Nil
  let ?b = "pc_read_buf client"
  have "snd (split_frames ?b) = ?b"
    using Nil(2) by (auto simp: split_frames.simps [of ?b] split: option.splits prod.splits if_splits)
  with Nil show ?case
    by simp
next
  case (Cons c cs)
  let ?b = "pc_read_buf client"
  let ?rest = "snd (split_frames (?b @ c))"
  have b: "snd (split_frames ?b) = ?b"
    using Cons.prems(2) by (auto simp: split_frames.simps [of ?b] split: option.splits prod.splits if_splits)
  have c: "c \<noteq> []" "take (CLIENT_READ_BUF_SIZE - length ?b) c = c" "frame_valid ?rest"
    using Cons.prems(3) [rule_format, of 0] by (auto simp: b)
  have rest: "split_frames (?rest @ xs) = (drop (length (fst (split_frames (?b @ c)))) (fst (split_frames (?b @ c @ xs))),
      snd (split_frames (?b @ c @ xs)))" for xs
    using split_frames_append [of "?b @ c" xs] by (metis append.assoc append_eq_conv_conj fst_conv snd_conv surjective_pairing)
  have tail: "\<forall>k < length cs. cs ! k \<noteq> [] \<and>
      length (snd (split_frames (?rest @ concat (take k cs)))) + length (cs ! k) \<le> CLIENT_READ_BUF_SIZE
      \<and> frame_valid (snd (split_frames (?rest @ concat (take (Suc k) cs))))"
  proof (intro allI impI)
    fix k
    assume "k < length cs"
    with Cons.prems(3) [rule_format, of "Suc k"] show "cs ! k \<noteq> [] \<and>
        length (snd (split_frames (?rest @ concat (take k cs)))) + length (cs ! k) \<le> CLIENT_READ_BUF_SIZE
        \<and> frame_valid (snd (split_frames (?rest @ concat (take (Suc k) cs))))"
      by (simp add: rest)
  qed
  have "recv_thread_func malloc (client\<lparr>pc_read_buf := ?rest\<rparr>) cs =
      cbind (client_dispatch_all malloc client (fst (split_frames (?rest @ concat cs))))
        (\<lambda>es. Ret (client\<lparr>pc_read_buf := snd (split_frames (?rest @ concat cs))\<rparr>, es))"
    using Cons.IH [of "client\<lparr>pc_read_buf := ?rest\<rparr>"] Cons.prems(1) tail by (simp add: split_frames_rest)
  moreover have "fst (split_frames (?b @ c @ concat cs)) = fst (split_frames (?b @ c)) @ fst (split_frames (?rest @ concat cs))"
    "snd (split_frames (?b @ c @ concat cs)) = snd (split_frames (?rest @ concat cs))"
    using split_frames_append [of "?b @ c" "concat cs"] by simp_all
  ultimately show ?case
    using Cons.prems(1) c by (simp add: client_drain_split client_dispatch_append cbind_assoc Let_def)
qed

lemma client_hears:
  assumes "pc_running client" "pc_read_buf client = []" "0 < length buf" "length buf \<le> 65532"
    and "concat rs = unix_transport_send buf" "[] \<notin> set rs"
  shows "recv_thread_func malloc client rs = cbind (client_dispatch malloc client buf) (\<lambda>es. Ret (client, es))"
proof -
  have fs: "list_all (\<lambda>f. 0 < length f \<and> length f \<le> UNIX_READ_BUF_SIZE) [buf]"
    using assms(3,4) by (simp add: UNIX_READ_BUF_SIZE_def)
  have all: "split_frames (concat rs) = ([buf], [])" "split_frames [] = ([], [])"
    using split_frames_send [of buf "[]"] fs assms(5) by (simp_all add: split_frames.simps [of "[]"] UNIX_FRAME_HEADER_SIZE_def)
  have "rs ! k \<noteq> [] \<and> length (snd (split_frames (concat (take k rs)))) + length (rs ! k) \<le> CLIENT_READ_BUF_SIZE
      \<and> frame_valid (snd (split_frames (concat (take (Suc k) rs))))" if "k < length rs" for k
  proof -
    have split: "concat rs = concat (take (Suc k) rs) @ concat (drop (Suc k) rs)"
      by (metis append_take_drop_id concat_append)
    have "length (concat rs) \<le> 65536"
      using assms(4) by (simp add: assms(5) unix_transport_send_def write_frame_header_def)
    moreover have "concat (take (Suc k) rs) = concat (take k rs) @ rs ! k"
      using that by (simp add: take_Suc_conv_app_nth)
    ultimately have "length (concat (take k rs)) + length (rs ! k) \<le> 65536"
      using split by (metis add_leD1 length_append)
    moreover have "frame_valid (snd (split_frames (concat (take (Suc k) rs))))"
      using prefix_frame_valid [OF fs, of "concat (take (Suc k) rs)"] split assms(5) by simp
    moreover have "rs ! k \<noteq> []"
      using assms(6) that by (metis nth_mem)
    ultimately show ?thesis
      using split_frames_length [of "concat (take k rs)"] by (simp add: CLIENT_READ_BUF_SIZE_def)
  qed
  then have heard: "recv_thread_func malloc client rs =
      cbind (client_dispatch malloc client buf) (\<lambda>es. Ret (client\<lparr>pc_read_buf := []\<rparr>, es))"
    using recv_thread_split [of client rs malloc] assms(1,2) all by (simp add: cbind_assoc)
  have same: "client\<lparr>pc_read_buf := []\<rparr> = client"
    using assms(2) by (cases client) simp
  from heard show ?thesis
    unfolding same .
qed

lemma serialized_encoding:
  "client_protocol_serialize malloc (Some it) = Some buf \<Longrightarrow> buf = cbor_encoding it"
  by (simp only: client_protocol_serialize_def option.case cbor_serialize_alloc_eq) (auto split: if_splits)

lemma request_length:
  assumes "client_protocol_serialize malloc (client_protocol_encode_request rid meth (Some t) payload) = Some buf"
  shows "0 < length buf" "length buf \<le> length t + length payload + 54"
proof -
  let ?es = "[cbor_build_uint8 1, cbor_build_uint32 rid, cbor_build_uint8 meth, cbor_build_string t, cbor_build_bytestring payload]"
  have "buf = cbor_encoding (CBOR_ARRAY True ?es)"
    using assms by (intro serialized_encoding) (simp add: client_protocol_encode_request_def client_frame_defs)
  then show "0 < length buf" "length buf \<le> length t + length payload + 54"
    using cbor_encoding_nonempty [of "CBOR_ARRAY True ?es"] length_built(1) [of t] length_built(2) [of payload]
      length_built(3) [of 1] length_built(3) [of meth] length_built(4) [of rid] length_built(6) [of 5 "0x80"]
    by simp_all
qed

lemma admin_request_length:
  assumes "client_protocol_serialize malloc (client_protocol_encode_admin_request rid meth (Some t) sig payload) = Some buf"
  shows "0 < length buf" "length buf \<le> length t + length sig + length payload + 63"
proof -
  let ?es = "[cbor_build_uint8 1, cbor_build_uint32 rid, cbor_build_uint8 meth, cbor_build_string t,
      cbor_build_bytestring sig, cbor_build_bytestring payload]"
  have "buf = cbor_encoding (CBOR_ARRAY True ?es)"
    using assms by (intro serialized_encoding) (simp add: client_protocol_encode_admin_request_def client_frame_defs)
  then show "0 < length buf" "length buf \<le> length t + length sig + length payload + 63"
    using cbor_encoding_nonempty [of "CBOR_ARRAY True ?es"] length_built(1) [of t] length_built(2) [of payload]
      length_built(2) [of sig] length_built(3) [of 1] length_built(3) [of meth] length_built(4) [of rid]
      length_built(6) [of 6 "0x80"]
    by simp_all
qed

lemma response_length:
  assumes "client_protocol_serialize malloc (client_protocol_encode_response rid code (Some result)) = Some buf"
  shows "0 < length buf" "length buf \<le> length result + 45"
proof -
  let ?es = "[cbor_build_uint8 2, cbor_build_uint32 rid, cbor_build_uint8 code, cbor_build_string result]"
  have "buf = cbor_encoding (CBOR_ARRAY True ?es)"
    using assms by (intro serialized_encoding) (simp add: client_protocol_encode_response_def client_frame_defs)
  then show "0 < length buf" "length buf \<le> length result + 45"
    using cbor_encoding_nonempty [of "CBOR_ARRAY True ?es"] length_built(1) [of result]
      length_built(3) [of 2] length_built(3) [of code] length_built(4) [of rid] length_built(6) [of 4 "0x80"]
    by simp_all
qed

text \<open>A frame that arrives alone, in whatever reads, is handled as one request.\<close>

lemma daemon_hears:
  assumes "client_receive (me_malloc env) buf = Ret frame" "0 < length buf" "length buf \<le> 65532"
    and "concat cs = unix_transport_send buf"
    and "client_session_handle_request n env cenv s frame d = Done ((rc, response), d', es)"
    and "client_protocol_serialize (me_malloc env) response = Some resp_buf"
  shows "read_chunks n env cenv self fd s [] cs d = Done ([], d', es @ [Transport_send self fd resp_buf])"
proof -
  have "split_frames (concat cs) = ([buf], [])" "fst (split_frames []) = []"
    using split_frames_send [of buf "[]"] assms(2-4)
    by (simp_all add: split_frames.simps [of "[]"] unix_size_defs)
  then have "read_chunks n env cenv self fd s [] cs d = d_bind (process_frame n env cenv self fd s buf) (\<lambda>_. d_ret []) d"
    by (simp add: read_chunks_split d_bind_assoc d_bind_ret)
  then show ?thesis
    using assms(1,5,6) by (simp add: process_frame_def d_bind_def d_ret_def)
qed

lemma send_request_ok:
  assumes "malloc_ok malloc" "net_ok net" "\<not> pc_is_quic client" "c_string 256 t" "length payload \<le> 65000"
  shows "\<exists>buf. send_request malloc net meth (Some t) payload client =
      (0, unix_transport_send buf, client\<lparr>pc_next_request_id := pc_next_request_id client + 1\<rparr>)
    \<and> client_receive malloc buf = Ret (request_frame (pc_next_request_id client) meth t payload)
    \<and> 0 < length buf \<and> length buf \<le> 65532"
proof -
  obtain buf where buf: "client_protocol_serialize malloc
        (client_protocol_encode_request (pc_next_request_id client) meth (Some t) payload) = Some buf"
      "client_receive malloc buf = Ret (request_frame (pc_next_request_id client) meth t payload)"
    using request_travels [OF assms(1,4), of payload] assms(5) by fastforce
  with request_length [OF buf(1)] assms show ?thesis
    by (intro exI [of _ buf]) (simp add: send_request_def send_item_def next_id_def send_frame_ok c_string_def)
qed

lemma send_admin_request_ok:
  assumes "malloc_ok malloc" "net_ok net" "\<not> pc_is_quic client" "c_string 256 t" "length sig \<le> 64" "length payload \<le> 65000"
  shows "\<exists>buf. send_admin_request malloc net meth (Some t) sig payload client =
      (0, unix_transport_send buf, client\<lparr>pc_next_request_id := pc_next_request_id client + 1\<rparr>)
    \<and> client_receive malloc buf = Ret ((request_frame (pc_next_request_id client) meth t payload)\<lparr>cf_signature := sig\<rparr>)
    \<and> 0 < length buf \<and> length buf \<le> 65532"
proof -
  obtain buf where buf: "client_protocol_serialize malloc
        (client_protocol_encode_admin_request (pc_next_request_id client) meth (Some t) sig payload) = Some buf"
      "client_receive malloc buf = Ret ((request_frame (pc_next_request_id client) meth t payload)\<lparr>cf_signature := sig\<rparr>)"
    using admin_request_travels [OF assms(1,4,5), of payload] assms(6) by fastforce
  with admin_request_length [OF buf(1)] assms show ?thesis
    by (intro exI [of _ buf]) (simp add: send_admin_request_def send_item_def next_id_def send_frame_ok c_string_def)
qed

section \<open>Properties\<close>

text \<open>
  C4. From the application to the daemon and back. A request of the library is written
  to the socket; the daemon handles exactly that request, once, with its method, topic
  and payload, however the stream is cut into reads; and the answer of the handler comes
  back to the response callback of the application, under the number of the request and
  with the code and text the handler gave it, again for all reads.
\<close>

theorem client_request_round_trip:
  assumes "malloc_ok malloc" "net_ok net" "\<not> pc_is_quic client" "pc_running client" "pc_read_buf client = []"
    and "c_string 256 t" "length payload \<le> 65000" "me_malloc env = malloc"
    and "client_session_handle_request n env cenv s (request_frame (pc_next_request_id client) meth t payload) d =
      Done ((rc, client_protocol_encode_response (pc_next_request_id client) code (Some result)), d', es)"
    and "c_string 1024 result"
  shows "\<exists>out buf. send_request malloc net meth (Some t) payload client =
        (0, out, client\<lparr>pc_next_request_id := pc_next_request_id client + 1\<rparr>)
    \<and> (\<forall>cs. concat cs = out \<longrightarrow>
          read_chunks n env cenv self fd s [] cs d = Done ([], d', es @ [Transport_send self fd buf]))
    \<and> (\<forall>rs. concat rs = unix_transport_send buf \<longrightarrow> [] \<notin> set rs \<longrightarrow>
          recv_thread_func malloc (client\<lparr>pc_next_request_id := pc_next_request_id client + 1\<rparr>) rs =
            Ret (client\<lparr>pc_next_request_id := pc_next_request_id client + 1\<rparr>,
                 if pc_response_cb client then [Response_cb (pc_next_request_id client) code result] else []))"
proof -
  let ?rid = "pc_next_request_id client"
  let ?client = "client\<lparr>pc_next_request_id := ?rid + 1\<rparr>"
  obtain req where req: "send_request malloc net meth (Some t) payload client = (0, unix_transport_send req, ?client)"
      "client_receive malloc req = Ret (request_frame ?rid meth t payload)" "0 < length req" "length req \<le> 65532"
    using send_request_ok [OF assms(1-3,6,7)] by blast
  obtain buf where buf: "client_protocol_serialize malloc (client_protocol_encode_response ?rid code (Some result)) = Some buf"
      "client_receive malloc buf = Ret (response_frame ?rid code result)"
    using response_travels [OF assms(1,10)] by blast
  have heard: "read_chunks n env cenv self fd s [] cs d = Done ([], d', es @ [Transport_send self fd buf])"
    if "concat cs = unix_transport_send req" for cs
    using daemon_hears [OF _ req(3,4) that assms(9)] req(2) buf(1) assms(8) by simp
  have "client_dispatch malloc ?client buf = Ret (if pc_response_cb client then [Response_cb ?rid code result] else [])"
    using buf(2) by (simp add: client_dispatch_def process_received_frame_def response_frame_def client_frame_clear_def)
  moreover have "0 < length buf" "length buf \<le> 65532"
    using response_length [OF buf(1)] assms(10) by (simp_all add: c_string_def)
  ultimately have "recv_thread_func malloc ?client rs =
      Ret (?client, if pc_response_cb client then [Response_cb ?rid code result] else [])"
    if "concat rs = unix_transport_send buf" "[] \<notin> set rs" for rs
    using client_hears [of ?client buf rs malloc] that assms(4,5) by simp
  with req(1) heard show ?thesis
    by blast
qed

theorem client_request_round_trip_witness:
  "\<exists>out buf client'. send_request (\<lambda>_. True) (\<lambda>i bs. Some (length bs)) CLIENT_METHOD_CHANNEL_LEAVE (Some [66]) []
        (poseidon_client_on_response True client_opened) = (0, out, client')
    \<and> read_chunks 1 example_env example_cenv 0 11 1 [] [out] example_daemon =
        Done ([], example_daemon, [Transport_send 0 11 buf])
    \<and> recv_thread_func (\<lambda>_. True) client' [unix_transport_send buf] =
        Ret (client', [Response_cb 1 CLIENT_ERROR_UNKNOWN_METHOD []])"
proof -
  let ?client = "poseidon_client_on_response True client_opened"
  have client: "\<not> pc_is_quic ?client" "pc_running ?client" "pc_read_buf ?client = []" "pc_next_request_id ?client = 1"
    "pc_response_cb ?client"
    by (simp_all add: poseidon_client_on_response_def client_opened_def)
  have "client_session_handle_request 1 example_env example_cenv 1 (request_frame (pc_next_request_id ?client)
      CLIENT_METHOD_CHANNEL_LEAVE [66] []) example_daemon =
    Done ((- 1, client_protocol_encode_response (pc_next_request_id ?client) CLIENT_ERROR_UNKNOWN_METHOD (Some [])),
      example_daemon, [])"
    by (simp add: client(4) client_session_handle_request_def d_bind_def d_session_def example_daemon_def request_frame_def
        client_method_defs respond_def d_ret_def client_frame_clear_def)
  moreover have env: "malloc_ok (\<lambda>_. True)" "net_ok (\<lambda>i bs. Some (length bs))" "c_string 256 [66]" "c_string 1024 []"
    "me_malloc example_env = (\<lambda>_. True)"
    by (simp_all add: malloc_ok_def net_ok_def c_string_def example_env_def)
  ultimately obtain out buf where run: "send_request (\<lambda>_. True) (\<lambda>i bs. Some (length bs)) CLIENT_METHOD_CHANNEL_LEAVE
        (Some [66]) [] ?client = (0, out, ?client\<lparr>pc_next_request_id := pc_next_request_id ?client + 1\<rparr>)"
      "\<forall>cs. concat cs = out \<longrightarrow> read_chunks 1 example_env example_cenv 0 11 1 [] cs example_daemon =
        Done ([], example_daemon, [] @ [Transport_send 0 11 buf])"
      "\<forall>rs. concat rs = unix_transport_send buf \<longrightarrow> [] \<notin> set rs \<longrightarrow>
        recv_thread_func (\<lambda>_. True) (?client\<lparr>pc_next_request_id := pc_next_request_id ?client + 1\<rparr>) rs =
          Ret (?client\<lparr>pc_next_request_id := pc_next_request_id ?client + 1\<rparr>, if pc_response_cb ?client
               then [Response_cb (pc_next_request_id ?client) CLIENT_ERROR_UNKNOWN_METHOD []] else [])"
    using client_request_round_trip [OF env(1,2) client(1-3) env(3) _ env(5) _ env(4), of "[]" 1 example_cenv 1
        CLIENT_METHOD_CHANNEL_LEAVE example_daemon "- 1" CLIENT_ERROR_UNKNOWN_METHOD example_daemon "[]" 0 11]
    by auto
  have "unix_transport_send buf \<noteq> []"
    by (simp add: unix_transport_send_def write_frame_header_def htonl_bytes_def)
  with run(1) run(2) [rule_format, of "[out]"] run(3) [rule_format, of "[unix_transport_send buf]"] client(4,5) show ?thesis
    by (simp del: recv_thread_func.simps read_chunks.simps)
qed

text \<open>A signature is accepted for the message it was made for and no other.\<close>

definition signature_binds :: "openssl \<Rightarrow> nat \<Rightarrow> bool" where
  "signature_binds ssl k \<longleftrightarrow>
     (\<forall>m sig. EVP_DigestSign ssl k m = Some sig \<longrightarrow>
        length sig \<le> 64 \<and> (\<forall>b p m'. EVP_DigestVerify ssl b p m' sig \<longrightarrow> m' = m))"

lemma owner_signature_refused:
  assumes "signature_binds ssl (kp_pkey key)"
    and "poseidon_key_pair_sign ssl key (cf_method frame # cf_topic_path frame @ timestamp_bytes ts) = Some (cf_signature frame)"
  shows "verify_channel_owner_signature ssl c frame \<noteq> 0"
proof -
  have "EVP_DigestSign ssl (kp_pkey key) (cf_method frame # cf_topic_path frame @ timestamp_bytes ts) = Some (cf_signature frame)"
    using assms(2) by (simp add: poseidon_key_pair_sign_def split: if_splits)
  then have "\<not> EVP_DigestVerify ssl b p (cf_method frame # cf_topic_path frame) (cf_signature frame)" for b p
    using assms(1) by (fastforce simp: signature_binds_def timestamp_bytes_def)
  then show ?thesis
    by (auto simp: verify_channel_owner_signature_def poseidon_verify_signature_with_key_def split: option.splits)
qed


text \<open>A scheme that binds: the signature of a short message is the message itself with a mark.\<close>

definition binding_ssl :: openssl where
  "binding_ssl =
     example_ssl\<lparr>EVP_DigestSign := \<lambda>_ m. if length m \<le> 63 then Some (m @ [1]) else None,
                 EVP_DigestVerify := \<lambda>_ _ m sig. sig = m @ [1]\<rparr>"


end
