(* ===== verification/TimingWheel.thy ===== *)
theory TimingWheel
  imports Prelude "HOL-Library.AList"
begin

text \<open>
  The hierarchical timing wheel (\<open>src/Time/wheel.c\<close>) and the debouncer
  (\<open>src/Time/debouncer.c\<close>). Timers are objects on a heap, shared between the table of
  timers and the slot lists; slot lists hold their addresses. Each wheel is named; work
  that is handed to the thread pool is an effect. Reference counts, which decide when a
  timer is freed, and locks are not part of the state.
\<close>

definition Time_Seconds :: u64 where "Time_Seconds = 1000"
definition Time_Minutes :: u64 where "Time_Minutes = 60"
definition Time_Hours :: u64 where "Time_Hours = 60"
definition Time_Days :: u64 where "Time_Days = 24"

lemmas time_defs = Time_Seconds_def Time_Minutes_def Time_Hours_def Time_Days_def

datatype wheel_name = Milliseconds | Seconds | Minutes | Hours | Days

text \<open>The callback of a timer: the application's, or the tick of a wheel.\<close>

datatype timer_cb = User nat | Tick wheel_name

record timer_st =
  tm_id :: u64
  tm_steps :: "(u64 \<times> wheel_name) list"
  tm_current :: nat
  tm_cb :: timer_cb
  tm_abort :: bool
  tm_removed :: bool
  tm_circle :: int

record timing_wheel =
  tw_position :: nat
  tw_slots :: "nat list list"
  tw_interval :: u64
  tw_stopped :: bool

record hierarchical_timing_wheel =
  hw_heap :: "nat \<Rightarrow> timer_st"
  hw_next :: nat
  hw_timers :: "(u64 \<times> nat) list"
  hw_next_id :: u64
  hw_stopped :: bool
  hw_wheels :: "wheel_name \<Rightarrow> timing_wheel"

text \<open>Work for the pool, the sleep of the ticker, callbacks that are called at once, and the idle signal.\<close>

datatype wheel_effect = Work timer_cb | Ticker | Abort timer_cb | Call timer_cb | Idle

record timer_duration =
  du_days :: u64
  du_hours :: u64
  du_minutes :: u64
  du_seconds :: u64
  du_milliseconds :: u64

section \<open>One wheel\<close>

definition timing_wheel_create :: "u64 \<Rightarrow> nat \<Rightarrow> timing_wheel" where
  "timing_wheel_create interval slot_count =
     \<lparr>tw_position = slot_count - 1, tw_slots = replicate slot_count [], tw_interval = interval, tw_stopped = False\<rparr>"

definition set_wheel :: "wheel_name \<Rightarrow> timing_wheel \<Rightarrow> hierarchical_timing_wheel \<Rightarrow> hierarchical_timing_wheel" where
  "set_wheel w tw h = h\<lparr>hw_wheels := (hw_wheels h)(w := tw)\<rparr>"

text \<open>\<open>circle\<close> is a signed 32 bit integer; the quotient that is stored in it is truncated.\<close>

definition timing_wheel_set_timer :: "wheel_name \<Rightarrow> nat \<Rightarrow> hierarchical_timing_wheel \<Rightarrow> hierarchical_timing_wheel" where
  "timing_wheel_set_timer w a h =
     (let tw = hw_wheels h w; timer = hw_heap h a;
          steps = fst (tm_steps timer ! tm_current timer);
          n = length (tw_slots tw);
          position = unat (of_nat (tw_position tw) + steps) mod n;
          circle = signed_take_bit 31 (int (unat (steps - 1) div n))
      in set_wheel w (tw\<lparr>tw_slots := (tw_slots tw)[position := tw_slots tw ! position @ [a]]\<rparr>)
           (h\<lparr>hw_heap := (hw_heap h)(a := timer\<lparr>tm_circle := circle\<rparr>)\<rparr>))"

text \<open>
  One pass over the slot at the position of a wheel: the addresses that stay and those
  that expire.
\<close>

fun maintain ::
  "nat list \<Rightarrow> (nat \<Rightarrow> timer_st) \<times> (u64 \<times> nat) list \<Rightarrow> nat list \<times> nat list \<times> (nat \<Rightarrow> timer_st) \<times> (u64 \<times> nat) list"
where
  "maintain [] (heap, timers) = ([], [], heap, timers)"
| "maintain (a # as) (heap, timers) =
     (let timer = heap a
      in if tm_removed timer then maintain as (heap, timers)
         else
           let circle = (if tm_circle timer > 0 then tm_circle timer - 1 else tm_circle timer);
               heap' = heap(a := timer\<lparr>tm_circle := circle\<rparr>)
           in if tm_circle timer > 0 \<and> circle > 0
              then (case maintain as (heap', timers) of (kept, expired, r) \<Rightarrow> (a # kept, expired, r))
              else (case maintain as (heap', AList.delete (tm_id timer) timers) of
                      (kept, expired, r) \<Rightarrow> (kept, a # expired, r)))"

definition timing_wheel_maintenance ::
  "wheel_name \<Rightarrow> hierarchical_timing_wheel \<Rightarrow> nat list \<times> hierarchical_timing_wheel" where
  "timing_wheel_maintenance w h =
     (let tw = hw_wheels h w
      in case maintain (tw_slots tw ! tw_position tw) (hw_heap h, hw_timers h) of
           (kept, expired, heap, timers) \<Rightarrow>
             (expired, set_wheel w (tw\<lparr>tw_slots := (tw_slots tw)[tw_position tw := kept]\<rparr>)
                         (h\<lparr>hw_heap := heap, hw_timers := timers\<rparr>)))"

text \<open>What a tick does under the lock: the position advances and its slot is maintained.\<close>

definition wheel_advance :: "wheel_name \<Rightarrow> hierarchical_timing_wheel \<Rightarrow> nat list \<times> hierarchical_timing_wheel" where
  "wheel_advance w h =
     (let tw = hw_wheels h w
      in timing_wheel_maintenance w (set_wheel w (tw\<lparr>tw_position := (tw_position tw + 1) mod length (tw_slots tw)\<rparr>) h))"

text \<open>The wheel below, whose ticks drive a wheel.\<close>

fun lower_wheel :: "wheel_name \<Rightarrow> wheel_name option" where
  "lower_wheel Milliseconds = None"
| "lower_wheel Seconds = Some Milliseconds"
| "lower_wheel Minutes = Some Seconds"
| "lower_wheel Hours = Some Minutes"
| "lower_wheel Days = Some Hours"

definition timing_wheel_run :: "wheel_name \<Rightarrow> hierarchical_timing_wheel \<Rightarrow> hierarchical_timing_wheel \<times> wheel_effect list" where
  "timing_wheel_run w h =
     (case lower_wheel w of
        None \<Rightarrow> (set_wheel w ((hw_wheels h w)\<lparr>tw_stopped := False\<rparr>) h, [Ticker])
      | Some below \<Rightarrow>
          let a = hw_next h;
              timer = \<lparr>tm_id = 0, tm_steps = [(tw_interval (hw_wheels h w), below)], tm_current = 0, tm_cb = Tick w,
                       tm_abort = True, tm_removed = False, tm_circle = 0\<rparr>
          in (timing_wheel_set_timer below a (h\<lparr>hw_heap := (hw_heap h)(a := timer), hw_next := Suc a\<rparr>), []))"

section \<open>Expired timers\<close>

text \<open>The next step of a plan with a delay, from a position on; the length of the plan if there is none.\<close>

function next_step :: "(u64 \<times> wheel_name) list \<Rightarrow> nat \<Rightarrow> nat" where
  "next_step steps i = (if i < length steps \<and> fst (steps ! i) = 0 then next_step steps (Suc i) else i)"
  by auto
termination
  by (relation "measure (\<lambda>(steps, i). length steps - i)") auto

declare next_step.simps [simp del]

fun fire_all :: "nat list \<Rightarrow> hierarchical_timing_wheel \<Rightarrow> hierarchical_timing_wheel \<times> wheel_effect list" where
  "fire_all [] h = (h, [])"
| "fire_all (a # as) h =
     (let timer = hw_heap h a
      in if tm_removed timer then fire_all as h
         else
           let next = (if tm_current timer < length (tm_steps timer) - 1
                       then next_step (tm_steps timer) (Suc (tm_current timer)) else length (tm_steps timer));
               current = (if tm_current timer < length (tm_steps timer) - 1 then next else tm_current timer);
               h' = h\<lparr>hw_heap := (hw_heap h)(a := timer\<lparr>tm_current := current\<rparr>)\<rparr>
           in if next < length (tm_steps timer)
              then fire_all as (timing_wheel_set_timer (snd (tm_steps timer ! next)) a h')
              else (case fire_all as h' of (h'', es) \<Rightarrow> (h'', Work (tm_cb timer) # es)))"

definition timing_wheel_fire_expired ::
  "nat list \<Rightarrow> hierarchical_timing_wheel \<Rightarrow> hierarchical_timing_wheel \<times> wheel_effect list" where
  "timing_wheel_fire_expired expired h =
     (case fire_all expired h of
        (h', es) \<Rightarrow> (h', es @ (if hw_timers h' = [] then [Idle] else [])))"

definition timing_wheel_on_tick :: "wheel_name \<Rightarrow> hierarchical_timing_wheel \<Rightarrow> hierarchical_timing_wheel \<times> wheel_effect list" where
  "timing_wheel_on_tick w h =
     (if tw_stopped (hw_wheels h w) then (h, [])
      else case wheel_advance w h of
        (expired, h1) \<Rightarrow>
          (case timing_wheel_run w h1 of
             (h2, es) \<Rightarrow>
               if expired = [] then (h2, es)
               else (case timing_wheel_fire_expired expired h2 of (h3, es') \<Rightarrow> (h3, es @ es'))))"

text \<open>When the pool refuses the work of a wheel: the timers of all its slots are aborted.\<close>

definition abort_effects :: "(nat \<Rightarrow> timer_st) \<Rightarrow> nat list \<Rightarrow> wheel_effect list" where
  "abort_effects heap as =
     map (\<lambda>a. Abort (tm_cb (heap a))) (filter (\<lambda>a. \<not> tm_removed (heap a) \<and> tm_abort (heap a)) as)"

definition timing_wheel_worker_abort ::
  "wheel_name \<Rightarrow> hierarchical_timing_wheel \<Rightarrow> hierarchical_timing_wheel \<times> wheel_effect list" where
  "timing_wheel_worker_abort w h =
     (let tw = hw_wheels h w
      in (set_wheel w (tw\<lparr>tw_stopped := True, tw_slots := map (\<lambda>_. []) (tw_slots tw)\<rparr>) h,
          abort_effects (hw_heap h) (concat (tw_slots tw))))"

definition timing_wheel_stop :: "wheel_name \<Rightarrow> hierarchical_timing_wheel \<Rightarrow> hierarchical_timing_wheel" where
  "timing_wheel_stop w h = set_wheel w ((hw_wheels h w)\<lparr>tw_stopped := True\<rparr>) h"

section \<open>The hierarchy\<close>

definition hierarchical_timing_wheel_create :: "nat \<Rightarrow> hierarchical_timing_wheel" where
  "hierarchical_timing_wheel_create slot_count =
     \<lparr>hw_heap = (\<lambda>_. \<lparr>tm_id = 0, tm_steps = [], tm_current = 0, tm_cb = User 0, tm_abort = False, tm_removed = False, tm_circle = 0\<rparr>),
      hw_next = 0, hw_timers = [], hw_next_id = 1, hw_stopped = False,
      hw_wheels = (\<lambda>w. timing_wheel_create
        (case w of Milliseconds \<Rightarrow> 1 | Seconds \<Rightarrow> Time_Seconds | Minutes \<Rightarrow> Time_Minutes | Hours \<Rightarrow> Time_Hours | Days \<Rightarrow> Time_Days)
        slot_count)\<rparr>"

definition timer_duration_rectify :: "timer_duration \<Rightarrow> timer_duration" where
  "timer_duration_rectify d0 =
     (let d1 = (if du_milliseconds d0 > Time_Seconds
                then d0\<lparr>du_seconds := du_seconds d0 + du_milliseconds d0 div Time_Seconds,
                        du_milliseconds := du_milliseconds d0 mod Time_Seconds\<rparr> else d0);
          d2 = (if du_seconds d1 > Time_Minutes
                then d1\<lparr>du_minutes := du_minutes d1 + du_seconds d1 div Time_Minutes,
                        du_seconds := du_seconds d1 mod Time_Minutes\<rparr> else d1);
          d3 = (if du_minutes d2 > Time_Hours
                then d2\<lparr>du_hours := du_hours d2 + du_minutes d2 div Time_Hours,
                        du_minutes := du_minutes d2 mod Time_Hours\<rparr> else d2)
      in if du_hours d3 > Time_Days
         then d3\<lparr>du_days := du_days d3 + du_hours d3 div Time_Days, du_hours := du_hours d3 mod Time_Days\<rparr> else d3)"

definition timer_plan :: "timer_duration \<Rightarrow> (u64 \<times> wheel_name) list" where
  "timer_plan d =
     (if du_days d > 0 then [(du_days d, Days), (du_hours d, Hours), (du_minutes d, Minutes), (du_seconds d, Seconds),
                             (du_milliseconds d, Milliseconds)]
      else if du_hours d > 0 then [(du_hours d, Hours), (du_minutes d, Minutes), (du_seconds d, Seconds),
                                   (du_milliseconds d, Milliseconds)]
      else if du_minutes d > 0 then [(du_minutes d, Minutes), (du_seconds d, Seconds), (du_milliseconds d, Milliseconds)]
      else if du_seconds d > 0 then [(du_seconds d, Seconds), (du_milliseconds d, Milliseconds)]
      else [(du_milliseconds d, Milliseconds)])"

definition hierarchical_timing_wheel_set_timer ::
  "timer_cb \<Rightarrow> bool \<Rightarrow> timer_duration \<Rightarrow> hierarchical_timing_wheel \<Rightarrow> u64 \<times> hierarchical_timing_wheel" where
  "hierarchical_timing_wheel_set_timer cb abort delay h =
     (let plan = timer_plan (timer_duration_rectify delay);
          a = hw_next h; tid = hw_next_id h;
          timer = \<lparr>tm_id = tid, tm_steps = plan, tm_current = 0, tm_cb = cb, tm_abort = abort, tm_removed = False, tm_circle = 0\<rparr>
      in (tid, timing_wheel_set_timer (snd (hd plan)) a
                 (h\<lparr>hw_heap := (hw_heap h)(a := timer), hw_next := Suc a, hw_next_id := tid + 1,
                    hw_timers := AList.update tid a (hw_timers h)\<rparr>)))"

definition hierarchical_timing_wheel_cancel_timer ::
  "u64 \<Rightarrow> hierarchical_timing_wheel \<Rightarrow> hierarchical_timing_wheel \<times> wheel_effect list" where
  "hierarchical_timing_wheel_cancel_timer tid h =
     (case map_of (hw_timers h) tid of
        None \<Rightarrow> (h, [])
      | Some a \<Rightarrow>
          let timers = AList.delete tid (hw_timers h)
          in (h\<lparr>hw_heap := (hw_heap h)(a := (hw_heap h a)\<lparr>tm_removed := True\<rparr>), hw_timers := timers\<rparr>,
              if timers = [] then [Idle] else []))"

definition wheel_order :: "wheel_name list" where
  "wheel_order = [Milliseconds, Seconds, Minutes, Hours, Days]"

definition hierarchical_timing_wheel_run :: "hierarchical_timing_wheel \<Rightarrow> hierarchical_timing_wheel \<times> wheel_effect list" where
  "hierarchical_timing_wheel_run h =
     fold (\<lambda>w (h, es). case timing_wheel_run w h of (h', es') \<Rightarrow> (h', es @ es')) wheel_order (h, [])"

definition hierarchical_timing_wheel_stop :: "hierarchical_timing_wheel \<Rightarrow> hierarchical_timing_wheel \<times> wheel_effect list" where
  "hierarchical_timing_wheel_stop h0 =
     (let h = fold timing_wheel_stop wheel_order (h0\<lparr>hw_stopped := True\<rparr>);
          as = map snd (hw_timers h)
      in (h\<lparr>hw_heap := (\<lambda>a. if a \<in> set as then (hw_heap h a)\<lparr>tm_removed := True\<rparr> else hw_heap h a), hw_timers := []\<rparr>,
          map (\<lambda>a. Abort (tm_cb (hw_heap h a))) (filter (\<lambda>a. tm_abort (hw_heap h a)) as) @ [Idle]))"

section \<open>The debouncer\<close>

text \<open>The clock is in microseconds and does not run backwards; the elapsed time is in milliseconds.\<close>

record debouncer =
  db_timerId :: u64
  db_cb :: timer_cb
  db_abort :: bool
  db_interval_start :: nat
  db_wait :: u64
  db_max_wait :: u64

definition debouncer_create :: "timer_cb \<Rightarrow> bool \<Rightarrow> u64 \<Rightarrow> u64 \<Rightarrow> debouncer" where
  "debouncer_create cb abort wait max_wait =
     \<lparr>db_timerId = 0, db_cb = cb, db_abort = abort, db_interval_start = 0, db_wait = wait, db_max_wait = max_wait\<rparr>"

definition wait_duration :: "u64 \<Rightarrow> timer_duration" where
  "wait_duration wait = \<lparr>du_days = 0, du_hours = 0, du_minutes = 0, du_seconds = 0, du_milliseconds = wait\<rparr>"

definition elapsed_time :: "nat \<Rightarrow> nat \<Rightarrow> nat" where
  "elapsed_time start end_time = (end_time - start) div 1000"

definition debouncer_debounce ::
  "nat \<Rightarrow> debouncer \<Rightarrow> hierarchical_timing_wheel \<Rightarrow> debouncer \<times> hierarchical_timing_wheel \<times> wheel_effect list" where
  "debouncer_debounce now b h =
     (if db_timerId b = 0 then
        (case hierarchical_timing_wheel_set_timer (db_cb b) (db_abort b) (wait_duration (db_wait b)) h of
           (tid, h') \<Rightarrow>
             (b\<lparr>db_timerId := tid, db_interval_start := if db_max_wait b > 0 then now else db_interval_start b\<rparr>, h', []))
      else
        let late = db_max_wait b > 0 \<and> unat (db_max_wait b) \<le> elapsed_time (db_interval_start b) now;
            (h1, es) = (if late then (h, []) else hierarchical_timing_wheel_cancel_timer (db_timerId b) h)
        in case hierarchical_timing_wheel_set_timer (db_cb b) (db_abort b) (wait_duration (db_wait b)) h1 of
             (tid, h') \<Rightarrow>
               (b\<lparr>db_timerId := tid, db_interval_start := if late then now else db_interval_start b\<rparr>, h', es))"

definition debouncer_flush ::
  "debouncer \<Rightarrow> hierarchical_timing_wheel \<Rightarrow> debouncer \<times> hierarchical_timing_wheel \<times> wheel_effect list" where
  "debouncer_flush b h =
     (if db_timerId b = 0 then (b, h, [])
      else case hierarchical_timing_wheel_cancel_timer (db_timerId b) h of
        (h', es) \<Rightarrow> (b\<lparr>db_timerId := 0\<rparr>, h', es @ [Call (db_cb b)]))"

text \<open>The last reference to a debouncer is dropped: a pending call is made at once.\<close>

definition debouncer_destroy :: "debouncer \<Rightarrow> hierarchical_timing_wheel \<Rightarrow> hierarchical_timing_wheel \<times> wheel_effect list" where
  "debouncer_destroy b h =
     (if db_timerId b = 0 then (h, [])
      else case hierarchical_timing_wheel_cancel_timer (db_timerId b) h of (h', es) \<Rightarrow> (h', es @ [Call (db_cb b)]))"

section \<open>When timers fire\<close>

text \<open>
  The ticks of a wheel of \<open>n\<close> slots at position \<open>pos\<close> after which a timer in slot \<open>p\<close>
  fires, and the timers that are waiting on a wheel with their ticks.
\<close>

definition ticks_left :: "nat \<Rightarrow> nat \<Rightarrow> nat \<Rightarrow> int \<Rightarrow> nat" where
  "ticks_left n pos p circle = (p + n - Suc pos) mod n + 1 + n * nat (circle - 1)"

definition waits :: "hierarchical_timing_wheel \<Rightarrow> wheel_name \<Rightarrow> nat \<Rightarrow> nat \<Rightarrow> bool" where
  "waits h w a r \<longleftrightarrow>
     (let tw = hw_wheels h w; n = length (tw_slots tw)
      in \<not> tm_removed (hw_heap h a) \<and>
         (\<exists>p < n. a \<in> set (tw_slots tw ! p) \<and> r = ticks_left n (tw_position tw) p (tm_circle (hw_heap h a))))"

definition wheel_wf :: "hierarchical_timing_wheel \<Rightarrow> wheel_name \<Rightarrow> bool" where
  "wheel_wf h w \<longleftrightarrow>
     (let tw = hw_wheels h w in tw_position tw < length (tw_slots tw) \<and> distinct (concat (tw_slots tw)))"

text \<open>One pass over a slot, without the recursion.\<close>

definition turned :: "timer_st \<Rightarrow> timer_st" where
  "turned t = (if \<not> tm_removed t \<and> tm_circle t > 0 then t\<lparr>tm_circle := tm_circle t - 1\<rparr> else t)"

lemma turned_simps [simp]: "tm_removed (turned t) = tm_removed t" "tm_id (turned t) = tm_id t"
  by (simp_all add: turned_def)

lemma maintain_eq:
  assumes "distinct as"
  shows "maintain as (heap, timers) =
    (filter (\<lambda>a. \<not> tm_removed (heap a) \<and> tm_circle (heap a) > 1) as,
     filter (\<lambda>a. \<not> tm_removed (heap a) \<and> tm_circle (heap a) \<le> 1) as,
     (\<lambda>a. if a \<in> set as then turned (heap a) else heap a),
     fold (\<lambda>a. AList.delete (tm_id (heap a))) (filter (\<lambda>a. \<not> tm_removed (heap a) \<and> tm_circle (heap a) \<le> 1) as) timers)"
  using assms
proof (induction as arbitrary: heap timers)
  case (Cons a as)
  let ?heap = "heap(a := turned (heap a))"
  have cong: "filter (\<lambda>b. Q (?heap b)) as = filter (\<lambda>b. Q (heap b)) as" for Q
    using Cons.prems by (auto intro!: filter_cong)
  have ids: "tm_id (?heap b) = tm_id (heap b)" for b
    by simp
  have heap: "(\<lambda>b. if b \<in> set as then turned (?heap b) else ?heap b) = (\<lambda>b. if b \<in> set (a # as) then turned (heap b) else heap b)"
    using Cons.prems by auto
  have ih: "maintain as (?heap, ts) =
      (filter (\<lambda>a. \<not> tm_removed (heap a) \<and> tm_circle (heap a) > 1) as,
       filter (\<lambda>a. \<not> tm_removed (heap a) \<and> tm_circle (heap a) \<le> 1) as,
       (\<lambda>b. if b \<in> set (a # as) then turned (heap b) else heap b),
       fold (\<lambda>a. AList.delete (tm_id (heap a))) (filter (\<lambda>a. \<not> tm_removed (heap a) \<and> tm_circle (heap a) \<le> 1) as) ts)" for ts
    using Cons.IH [of ?heap ts] Cons.prems
    by (simp only: heap ids cong [of "\<lambda>t. \<not> tm_removed t \<and> tm_circle t > 1"] cong [of "\<lambda>t. \<not> tm_removed t \<and> tm_circle t \<le> 1"]
        distinct.simps simp_thms)
  consider "tm_removed (heap a)" | "\<not> tm_removed (heap a)" "tm_circle (heap a) > 1"
    | "\<not> tm_removed (heap a)" "tm_circle (heap a) = 1" | "\<not> tm_removed (heap a)" "tm_circle (heap a) \<le> 0"
    by linarith
  then show ?case
  proof cases
    case 1
    then have "?heap = heap"
      by (auto simp: turned_def)
    with ih [of timers] 1 show ?thesis
      by auto
  next
    case 2
    with ih [of timers] show ?thesis
      by (auto simp: turned_def Let_def)
  next
    case 3
    with ih [of "AList.delete (tm_id (heap a)) timers"] show ?thesis
      by (auto simp: turned_def Let_def)
  next
    case 4
    then have "(heap a)\<lparr>tm_circle := tm_circle (heap a)\<rparr> = turned (heap a)"
      by (simp add: turned_def)
    with ih [of "AList.delete (tm_id (heap a)) timers"] 4 show ?thesis
      by (auto simp: Let_def)
  qed
qed simp

lemma ticks_left_step:
  assumes "pos < n" "p < n"
  shows "p \<noteq> Suc pos mod n \<Longrightarrow> ticks_left n pos p c = Suc (ticks_left n (Suc pos mod n) p c)"
    and "p = Suc pos mod n \<Longrightarrow> ticks_left n pos p c = 1 + n * nat (c - 1)"
    and "p = Suc pos mod n \<Longrightarrow> 1 < c \<Longrightarrow> ticks_left n pos p c = Suc (ticks_left n (Suc pos mod n) p (c - 1))"
proof -
  consider "Suc pos = n" | "Suc pos < n"
    using assms(1) by linarith
  note pos = this
  have m: "p + n - Suc pos = (if Suc pos \<le> p then p - Suc pos + n else p + n - Suc pos)"
    using assms by simp
  show "ticks_left n pos p c = Suc (ticks_left n (Suc pos mod n) p c)" if "p \<noteq> Suc pos mod n"
    using pos
  proof cases
    case 1
    with that assms have "(p + n - Suc pos) mod n = p" "(p + n - Suc (Suc pos mod n)) mod n = p - 1" "p > 0"
      by (auto simp: mod_if)
    then show ?thesis
      by (simp add: ticks_left_def)
  next
    case 2
    then have "(p + n - Suc pos) mod n = Suc ((p + n - Suc (Suc pos mod n)) mod n)"
      using that assms by (auto simp: mod_if)
    then show ?thesis
      by (simp add: ticks_left_def)
  qed
  show at: "ticks_left n pos p c = 1 + n * nat (c - 1)" if "p = Suc pos mod n"
    using pos that assms by cases (auto simp: ticks_left_def)
  show "ticks_left n pos p c = Suc (ticks_left n (Suc pos mod n) p (c - 1))" if "p = Suc pos mod n" "1 < c"
  proof -
    have "(p + n - Suc p) mod n = n - 1"
      using assms by simp
    moreover have "nat (c - 1) = Suc (nat (c - 2))"
      using that by simp
    ultimately show ?thesis
      using at [OF that(1)] assms that by (simp add: ticks_left_def)
  qed
qed

lemma set_nth_concat: "i < length xss \<Longrightarrow> set (xss ! i) \<subseteq> set (concat xss)"
  by (auto dest: nth_mem)

lemma distinct_concat_disjoint:
  assumes "distinct (concat xss)" "i < length xss" "j < length xss" "i \<noteq> j"
  shows "set (xss ! i) \<inter> set (xss ! j) = {}"
  using assms
proof (induction xss arbitrary: i j)
  case (Cons xs xss)
  have d: "set xs \<inter> set (concat xss) = {}" "distinct (concat xss)"
    using Cons.prems(1) by simp_all
  consider k where "i = 0" "j = Suc k" "k < length xss" | k where "j = 0" "i = Suc k" "k < length xss"
    | k l where "i = Suc k" "j = Suc l" "k < length xss" "l < length xss" "k \<noteq> l"
    using Cons.prems by (cases i; cases j) auto
  then show ?case
  proof cases
    case (1 k)
    with d(1) set_nth_concat [of k xss] show ?thesis
      by (simp only: nth_Cons_0 nth_Cons_Suc) blast
  next
    case (2 k)
    with d(1) set_nth_concat [of k xss] show ?thesis
      by (simp only: nth_Cons_0 nth_Cons_Suc) blast
  next
    case (3 k l)
    with Cons.IH [OF d(2)] show ?thesis
      by simp
  qed
qed simp

lemma set_concat_update: "k < length xss \<Longrightarrow> set (concat (xss[k := ys])) \<subseteq> set (concat xss) \<union> set ys"
  using set_update_subset_insert [of xss k ys] by auto

lemma distinct_concat_update:
  assumes "distinct (concat xss)" "i < length xss" "distinct ys" "set ys \<subseteq> set (xss ! i) \<union> A"
    and "A \<inter> set (concat xss) = {}"
  shows "distinct (concat (xss[i := ys]))"
  using assms
proof (induction xss arbitrary: i)
  case (Cons xs xss)
  have d: "distinct xs" "set xs \<inter> set (concat xss) = {}" "distinct (concat xss)"
    "A \<inter> set xs = {}" "A \<inter> set (concat xss) = {}"
    using Cons.prems(1,5) by auto
  show ?case
  proof (cases i)
    case 0
    then have "set ys \<inter> set (concat xss) = {}"
      using Cons.prems(4) d(2,5) by simp blast
    with 0 d(3) Cons.prems(3) show ?thesis
      by simp
  next
    case (Suc k)
    then have "set (concat (xss[k := ys])) \<subseteq> set (concat xss) \<union> A"
      using Cons.prems(2,4) set_concat_update [of k xss ys] set_nth_concat [of k xss] by simp blast
    then have "set xs \<inter> set (concat (xss[k := ys])) = {}"
      using d(2,4) by blast
    with Cons.IH [OF d(3), of k] Cons.prems(2-4) d(1,5) Suc show ?thesis
      by simp
  qed
qed simp

lemma wheel_advance_eq:
  assumes "wheel_wf h w"
  defines "tw \<equiv> hw_wheels h w"
  defines "pos \<equiv> Suc (tw_position tw) mod length (tw_slots tw)"
  defines "as \<equiv> tw_slots tw ! pos"
  shows "wheel_advance w h =
    (filter (\<lambda>a. \<not> tm_removed (hw_heap h a) \<and> tm_circle (hw_heap h a) \<le> 1) as,
     h\<lparr>hw_heap := (\<lambda>a. if a \<in> set as then turned (hw_heap h a) else hw_heap h a),
       hw_timers := fold (\<lambda>a. AList.delete (tm_id (hw_heap h a)))
         (filter (\<lambda>a. \<not> tm_removed (hw_heap h a) \<and> tm_circle (hw_heap h a) \<le> 1) as) (hw_timers h),
       hw_wheels := (hw_wheels h)(w := tw\<lparr>tw_position := pos,
         tw_slots := (tw_slots tw)[pos := filter (\<lambda>a. \<not> tm_removed (hw_heap h a) \<and> tm_circle (hw_heap h a) > 1) as]\<rparr>)\<rparr>)"
proof -
  have "pos < length (tw_slots tw)"
    unfolding pos_def using assms(1) by (intro mod_less_divisor) (auto simp: wheel_wf_def tw_def Let_def)
  then have "distinct as"
    using assms(1) by (auto simp: wheel_wf_def Let_def as_def tw_def distinct_concat_iff)
  then show ?thesis
    by (simp add: wheel_advance_def timing_wheel_maintenance_def set_wheel_def maintain_eq Let_def as_def pos_def tw_def)
qed

lemma waits_def2:
  "waits h w a r \<longleftrightarrow> \<not> tm_removed (hw_heap h a) \<and>
     (\<exists>p < length (tw_slots (hw_wheels h w)). a \<in> set (tw_slots (hw_wheels h w) ! p) \<and>
        r = ticks_left (length (tw_slots (hw_wheels h w))) (tw_position (hw_wheels h w)) p (tm_circle (hw_heap h a)))"
  by (simp add: waits_def Let_def)

lemma ticks_left_pos: "0 < ticks_left n pos p c"
  by (simp add: ticks_left_def)

lemma wheel_advance_waits:
  assumes "wheel_wf h w" "wheel_advance w h = (expired, h')"
  shows "wheel_wf h' w" "a \<in> set expired \<longleftrightarrow> waits h w a 1" "waits h' w a r \<longleftrightarrow> 0 < r \<and> waits h w a (Suc r)"
proof -
  let ?tw = "hw_wheels h w"
  let ?n = "length (tw_slots ?tw)" and ?pos = "Suc (tw_position ?tw) mod length (tw_slots ?tw)"
  let ?as = "tw_slots ?tw ! ?pos" and ?c = "tm_circle (hw_heap h a)"
  have wf: "tw_position ?tw < ?n" "distinct (concat (tw_slots ?tw))"
    using assms(1) by (simp_all add: wheel_wf_def Let_def)
  then have pos: "?pos < ?n"
    by (intro mod_less_divisor) auto
  note eq = wheel_advance_eq [OF assms(1)]
  have expired: "expired = filter (\<lambda>a. \<not> tm_removed (hw_heap h a) \<and> tm_circle (hw_heap h a) \<le> 1) ?as"
    using eq assms(2) by simp
  have h': "hw_heap h' = (\<lambda>a. if a \<in> set ?as then turned (hw_heap h a) else hw_heap h a)"
      "hw_wheels h' w = ?tw\<lparr>tw_position := ?pos,
         tw_slots := (tw_slots ?tw)[?pos := filter (\<lambda>a. \<not> tm_removed (hw_heap h a) \<and> tm_circle (hw_heap h a) > 1) ?as]\<rparr>"
    using eq assms(2) by auto
  have "distinct ?as"
    using wf(2) pos by (auto simp: distinct_concat_iff)
  then show "wheel_wf h' w"
    using distinct_concat_update [OF wf(2) pos, of "filter (\<lambda>a. \<not> tm_removed (hw_heap h a) \<and> tm_circle (hw_heap h a) > 1) ?as" "{}"] pos
    by (auto simp: wheel_wf_def h'(2) Let_def)
  have only: "p = ?pos \<longleftrightarrow> a \<in> set ?as" if "p < ?n" "a \<in> set (tw_slots ?tw ! p)" for p
    using distinct_concat_disjoint [OF wf(2) that(1) pos] that(2) by blast
  note step = ticks_left_step [OF wf(1)]
  have here: "waits h w a x \<longleftrightarrow> \<not> tm_removed (hw_heap h a) \<and> x = 1 + ?n * nat (?c - 1)" if "a \<in> set ?as" for x
  proof -
    have "(\<exists>p < ?n. a \<in> set (tw_slots ?tw ! p) \<and> Q p) \<longleftrightarrow> Q ?pos" for Q
      using only that pos by blast
    then show ?thesis
      by (simp add: waits_def2 step(2) [OF pos refl])
  qed
  have there: "\<not> waits h w a 1" "waits h' w a r \<longleftrightarrow> waits h w a (Suc r)" if "a \<notin> set ?as"
  proof -
    have p: "ticks_left ?n (tw_position ?tw) p ?c = Suc (ticks_left ?n ?pos p ?c)" if "p < ?n" "a \<in> set (tw_slots ?tw ! p)" for p
      using step(1) [OF that(1)] only [OF that] \<open>a \<notin> set ?as\<close> by simp
    then show "\<not> waits h w a 1"
      using ticks_left_pos by (auto simp: waits_def2)
    have "a \<in> set (tw_slots (hw_wheels h' w) ! p) \<longleftrightarrow> a \<in> set (tw_slots ?tw ! p)" if "p < ?n" for p
      using that \<open>a \<notin> set ?as\<close> by (cases "p = ?pos") (simp_all add: h'(2))
    then show "waits h' w a r \<longleftrightarrow> waits h w a (Suc r)"
      using p \<open>a \<notin> set ?as\<close> by (auto simp: waits_def2 h')
  qed
  show "a \<in> set expired \<longleftrightarrow> waits h w a 1"
    using here [of 1] there(1) wf(1) by (cases "a \<in> set ?as") (auto simp: expired)
  show "waits h' w a r \<longleftrightarrow> 0 < r \<and> waits h w a (Suc r)"
  proof (cases "a \<in> set ?as")
    case True
    have "a \<in> set (tw_slots (hw_wheels h' w) ! p) \<longleftrightarrow> p = ?pos \<and> \<not> tm_removed (hw_heap h a) \<and> ?c > 1" if "p < ?n" for p
    proof (cases "p = ?pos")
      case True
      with pos \<open>a \<in> set ?as\<close> show ?thesis
        by (simp add: h'(2))
    next
      case False
      with only [OF that] \<open>a \<in> set ?as\<close> show ?thesis
        by (auto simp: h'(2))
    qed
    then have ex: "(\<exists>p < ?n. a \<in> set (tw_slots (hw_wheels h' w) ! p) \<and> Q p) \<longleftrightarrow> \<not> tm_removed (hw_heap h a) \<and> ?c > 1 \<and> Q ?pos" for Q
      using pos by blast
    have state: "hw_heap h' a = turned (hw_heap h a)" "length (tw_slots (hw_wheels h' w)) = ?n"
        "tw_position (hw_wheels h' w) = ?pos"
      using True by (simp_all add: h')
    have "waits h' w a r \<longleftrightarrow> \<not> tm_removed (hw_heap h a) \<and> ?c > 1 \<and> r = ticks_left ?n ?pos ?pos (?c - 1)"
      unfolding waits_def2 state ex by (cases "?c > 1") (simp_all add: turned_def)
    moreover have "ticks_left ?n ?pos ?pos (?c - 1) = ?n * nat (?c - 1)" if "?c > 1"
      using step(2) [OF pos refl, of ?c] step(3) [OF pos refl that] by linarith
    moreover have "waits h w a (Suc r) \<longleftrightarrow> \<not> tm_removed (hw_heap h a) \<and> r = ?n * nat (?c - 1)"
      using here [OF True, of "Suc r"] by simp
    moreover have "0 < ?n * nat (?c - 1) \<longleftrightarrow> ?c > 1"
      using wf(1) by auto
    ultimately show ?thesis
      by metis
  next
    case False
    with there(2) ticks_left_pos show ?thesis
      by (auto simp: waits_def2)
  qed
qed

lemma wheel_advance_keeps:
  assumes "wheel_wf h w" "wheel_advance w h = (expired, h')"
  shows "length (tw_slots (hw_wheels h' w)) = length (tw_slots (hw_wheels h w))"
    "tm_removed (hw_heap h' a) = tm_removed (hw_heap h a)" "v \<noteq> w \<Longrightarrow> hw_wheels h' v = hw_wheels h v"
  using wheel_advance_eq [OF assms(1)] assms(2) by auto

text \<open>Setting a timer.\<close>

lemma slot_distance:
  assumes "pos < n" "0 < (d :: nat)"
  shows "((pos + d) mod n + n - Suc pos) mod n = (d - 1) mod n"
proof -
  have "((pos + d) mod n + n - Suc pos) mod n = ((pos + d) mod n + (n - Suc pos)) mod n"
    using assms by simp
  also have "\<dots> = (pos + d + (n - Suc pos)) mod n"
    by (rule mod_add_left_eq)
  also have "pos + d + (n - Suc pos) = d - 1 + n"
    using assms by simp
  finally show ?thesis
    by simp
qed

definition fires_after :: "nat \<Rightarrow> nat \<Rightarrow> nat" where
  "fires_after n d = (if d \<le> n then d else d - n)"

lemma ticks_left_set:
  assumes "pos < n" "0 < d"
  shows "ticks_left n pos ((pos + d) mod n) (int ((d - 1) div n)) = fires_after n d"
proof -
  have "(d - 1) mod n + n * ((d - 1) div n) = d - 1"
    by simp
  moreover have "(d - 1) div n = 0 \<longleftrightarrow> d \<le> n"
    using assms by (auto simp: div_eq_0_iff)
  moreover have "n * ((d - 1) div n - 1) = n * ((d - 1) div n) - n"
    by (simp add: diff_mult_distrib2)
  moreover have "nat (int ((d - 1) div n) - 1) = (d - 1) div n - 1"
    by simp
  moreover have "n \<le> n * ((d - 1) div n)" if "(d - 1) div n \<noteq> 0"
    using that by simp
  ultimately show ?thesis
    using assms by (auto simp: ticks_left_def slot_distance fires_after_def Suc_diff_Suc)
qed

definition settable :: "hierarchical_timing_wheel \<Rightarrow> wheel_name \<Rightarrow> nat \<Rightarrow> bool" where
  "settable h w a \<longleftrightarrow>
     (let tw = hw_wheels h w; n = length (tw_slots tw); t = hw_heap h a; d = unat (fst (tm_steps t ! tm_current t))
      in a \<notin> set (concat (tw_slots tw)) \<and> \<not> tm_removed t \<and> 0 < d \<and> d \<le> n * 2 ^ 31 \<and> n + d < 2 ^ 64)"

lemma set_timer_eq:
  assumes "wheel_wf h w" "settable h w a"
  defines "tw \<equiv> hw_wheels h w"
  defines "n \<equiv> length (tw_slots tw)" and "d \<equiv> unat (fst (tm_steps (hw_heap h a) ! tm_current (hw_heap h a)))"
  defines "p \<equiv> (tw_position tw + d) mod n"
  shows "timing_wheel_set_timer w a h =
    h\<lparr>hw_heap := (hw_heap h)(a := (hw_heap h a)\<lparr>tm_circle := int ((d - 1) div n)\<rparr>),
      hw_wheels := (hw_wheels h)(w := tw\<lparr>tw_slots := (tw_slots tw)[p := tw_slots tw ! p @ [a]]\<rparr>)\<rparr>"
proof -
  have pos: "tw_position tw < n" and d: "0 < d" "d \<le> n * 2 ^ 31" "n + d < 2 ^ 64"
    using assms(1,2) by (simp_all add: wheel_wf_def settable_def Let_def tw_def n_def d_def)
  let ?s = "fst (tm_steps (hw_heap h a) ! tm_current (hw_heap h a))"
  have "unat (of_nat (tw_position tw) + ?s) = tw_position tw + d"
    using pos d(3) by (simp add: d_def unat_word_ariths unat_of_nat)
  moreover have "?s \<noteq> 0"
    using d(1) by (auto simp: d_def)
  then have "unat (?s - 1) = d - 1"
    by (simp add: d_def unat_minus_one)
  moreover have "(d - 1) div n < 2 ^ 31"
    using d by (intro less_mult_imp_div_less) (simp add: mult.commute)
  then have "signed_take_bit 31 (int ((d - 1) div n)) = int ((d - 1) div n)"
    by (intro signed_take_bit_int_eq_self) auto
  ultimately show ?thesis
    by (simp add: timing_wheel_set_timer_def set_wheel_def Let_def p_def n_def tw_def)
qed

lemma set_timer_waits:
  assumes "wheel_wf h w" "settable h w a"
  shows "wheel_wf (timing_wheel_set_timer w a h) w"
    "b \<noteq> a \<Longrightarrow> waits (timing_wheel_set_timer w a h) w b r \<longleftrightarrow> waits h w b r"
    "waits (timing_wheel_set_timer w a h) w a r \<longleftrightarrow>
       r = fires_after (length (tw_slots (hw_wheels h w))) (unat (fst (tm_steps (hw_heap h a) ! tm_current (hw_heap h a))))"
proof -
  let ?tw = "hw_wheels h w"
  let ?n = "length (tw_slots ?tw)" and ?d = "unat (fst (tm_steps (hw_heap h a) ! tm_current (hw_heap h a)))"
  let ?p = "(tw_position ?tw + ?d) mod ?n" and ?h = "timing_wheel_set_timer w a h"
  have wf: "tw_position ?tw < ?n" "distinct (concat (tw_slots ?tw))"
    and a: "a \<notin> set (concat (tw_slots ?tw))" "\<not> tm_removed (hw_heap h a)" "0 < ?d"
    using assms by (simp_all add: wheel_wf_def settable_def Let_def)
  have p: "?p < ?n"
    using wf(1) by (intro mod_less_divisor) auto
  have fresh: "a \<notin> set (tw_slots ?tw ! q)" if "q < ?n" for q
    using a(1) set_nth_concat [OF that] by blast
  have h: "hw_heap ?h = (hw_heap h)(a := (hw_heap h a)\<lparr>tm_circle := int ((?d - 1) div ?n)\<rparr>)"
      "hw_wheels ?h w = ?tw\<lparr>tw_slots := (tw_slots ?tw)[?p := tw_slots ?tw ! ?p @ [a]]\<rparr>"
    using set_timer_eq [OF assms] by simp_all
  have "distinct (tw_slots ?tw ! ?p @ [a])"
    using wf(2) p fresh [OF p] by (auto simp: distinct_concat_iff)
  then show "wheel_wf ?h w"
    using distinct_concat_update [OF wf(2) p, of "tw_slots ?tw ! ?p @ [a]" "{a}"] wf(1) a(1)
    by (auto simp: wheel_wf_def h(2) Let_def)
  have slots: "b \<in> set (tw_slots (hw_wheels ?h w) ! q) \<longleftrightarrow> b \<in> set (tw_slots ?tw ! q) \<or> b = a \<and> q = ?p" if "q < ?n" for b q
    using that p by (cases "q = ?p") (auto simp: h(2))
  have state: "length (tw_slots (hw_wheels ?h w)) = ?n" "tw_position (hw_wheels ?h w) = tw_position ?tw"
    by (simp_all add: h(2))
  show "waits ?h w b r \<longleftrightarrow> waits h w b r" if "b \<noteq> a"
    using that slots [of _ b] unfolding waits_def2 state h(1) by auto
  have "waits ?h w a r \<longleftrightarrow> r = ticks_left ?n (tw_position ?tw) ?p (int ((?d - 1) div ?n))"
    using slots [of _ a] fresh p a(2) unfolding waits_def2 state h(1) by auto
  then show "waits ?h w a r \<longleftrightarrow> r = fires_after ?n ?d"
    using ticks_left_set [OF wf(1) a(3)] by simp
qed

text \<open>
  The interface of a wheel to its clients: elements with a number of ticks, and an
  operation that counts them down and returns those that are due. What expires at each of
  a number of ticks follows from it.
\<close>

fun expirations :: "('s \<Rightarrow> 'a list \<times> 's) \<Rightarrow> nat \<Rightarrow> 's \<Rightarrow> 'a list list" where
  "expirations adv 0 s = []"
| "expirations adv (Suc k) s = (case adv s of (expired, s') \<Rightarrow> expired # expirations adv k s')"

locale countdown =
  fixes ok :: "'s \<Rightarrow> bool" and due :: "'s \<Rightarrow> 'a \<Rightarrow> nat \<Rightarrow> bool" and adv :: "'s \<Rightarrow> 'a list \<times> 's"
  assumes adv_ok: "ok s \<Longrightarrow> adv s = (expired, s') \<Longrightarrow> ok s'"
    and adv_expired: "ok s \<Longrightarrow> adv s = (expired, s') \<Longrightarrow> a \<in> set expired \<longleftrightarrow> due s a 1"
    and adv_due: "ok s \<Longrightarrow> adv s = (expired, s') \<Longrightarrow> due s' a r \<longleftrightarrow> 0 < r \<and> due s a (Suc r)"
begin

lemma expirations_due: "ok s \<Longrightarrow> i < k \<Longrightarrow> a \<in> set (expirations adv k s ! i) \<longleftrightarrow> due s a (Suc i)"
proof (induction k arbitrary: s i)
  case (Suc k)
  obtain expired s' where adv: "adv s = (expired, s')"
    by fastforce
  show ?case
  proof (cases i)
    case 0
    with adv adv_expired [OF Suc.prems(1) adv] show ?thesis
      by simp
  next
    case (Suc j)
    with Suc.IH [OF adv_ok [OF Suc.prems(1) adv], of j] Suc.prems(2) adv adv_due [OF Suc.prems(1) adv] show ?thesis
      by simp
  qed
qed simp

end

interpretation wheel: countdown "\<lambda>h. wheel_wf h w" "\<lambda>h. waits h w" "wheel_advance w" for w
  by unfold_locales (fact wheel_advance_waits)+

section \<open>Properties\<close>

text \<open>
  C14. A tick of a wheel counts every waiting timer down by one and takes out exactly the
  timers that had one tick left: the slots and circles implement a table of countdowns.
\<close>

theorem wheel_tick_refines:
  assumes "wheel_wf h w" "wheel_advance w h = (expired, h')"
  shows "wheel_wf h' w \<and> (\<forall>a. a \<in> set expired \<longleftrightarrow> waits h w a 1)
    \<and> (\<forall>a r. waits h' w a r \<longleftrightarrow> 0 < r \<and> waits h w a (Suc r))"
  using wheel_advance_waits [OF assms] by simp

text \<open>A wheel of eight slots with a timer of a thousand steps, as a second is set on the wheel of milliseconds.\<close>

definition example_wheel :: hierarchical_timing_wheel where
  "example_wheel =
     (hierarchical_timing_wheel_create 8)\<lparr>hw_heap := (\<lambda>_.
        \<lparr>tm_id = 0, tm_steps = [(1000, Milliseconds)], tm_current = 0, tm_cb = Tick Seconds, tm_abort = True,
         tm_removed = False, tm_circle = 0\<rparr>)\<rparr>"

lemma example_wheel_ok: "wheel_wf example_wheel Milliseconds" "settable example_wheel Milliseconds 0"
  by (simp_all add: wheel_wf_def settable_def example_wheel_def hierarchical_timing_wheel_create_def
      timing_wheel_create_def Let_def)

lemma example_wheel_empty: "\<not> waits example_wheel w a r"
  by (auto simp: waits_def2 example_wheel_def hierarchical_timing_wheel_create_def timing_wheel_create_def)

theorem wheel_tick_refines_witness:
  "case wheel_advance Milliseconds (timing_wheel_set_timer Milliseconds 0 example_wheel) of
     (expired, h') \<Rightarrow> wheel_wf h' Milliseconds \<and> expired = []"
proof -
  let ?h = "timing_wheel_set_timer Milliseconds 0 example_wheel"
  obtain expired h' where adv: "wheel_advance Milliseconds ?h = (expired, h')"
    by fastforce
  note set_ok = set_timer_waits [OF example_wheel_ok]
  have "\<not> waits ?h Milliseconds a 1" for a
  proof (cases "a = 0")
    case True
    then show ?thesis
      using set_ok(3) [of 1] by (simp add: fires_after_def example_wheel_def hierarchical_timing_wheel_create_def timing_wheel_create_def)
  next
    case False
    then show ?thesis
      using set_ok(2) [of a 1] example_wheel_empty by blast
  qed
  with wheel_tick_refines [OF set_ok(1) adv] adv show ?thesis
    by (auto simp: set_empty [symmetric] simp del: set_empty)
qed

text \<open>
  C29. When a timer fires. On a wheel of \<open>n\<close> slots a timer of \<open>d\<close> steps fires at exactly one
  tick: at tick \<open>d\<close> when \<open>d\<close> is at most one revolution, as intended; but one revolution
  early, at tick \<open>d - n\<close>, when it is more, since the circle is counted down on the first
  visit of the slot already. With the eight slots of the daemon, the thousand milliseconds
  that make a second are 992.
\<close>

theorem wheel_fires_after:
  assumes "wheel_wf h w" "settable h w a" "i < k"
  shows "a \<in> set (expirations (wheel_advance w) k (timing_wheel_set_timer w a h) ! i) \<longleftrightarrow>
    Suc i = fires_after (length (tw_slots (hw_wheels h w))) (unat (fst (tm_steps (hw_heap h a) ! tm_current (hw_heap h a))))"
  using wheel.expirations_due [OF set_timer_waits(1) [OF assms(1,2)] assms(3)] set_timer_waits(3) [OF assms(1,2)] by simp

theorem wheel_fires_after_witness:
  "0 \<in> set (expirations (wheel_advance Milliseconds) 1000 (timing_wheel_set_timer Milliseconds 0 example_wheel) ! 991)
   \<and> 0 \<notin> set (expirations (wheel_advance Milliseconds) 1000 (timing_wheel_set_timer Milliseconds 0 example_wheel) ! 999)"
  using wheel_fires_after [OF example_wheel_ok, of 991 1000] wheel_fires_after [OF example_wheel_ok, of 999 1000]
  by (simp add: fires_after_def example_wheel_def hierarchical_timing_wheel_create_def timing_wheel_create_def)

text \<open>
  A timer that is cancelled while the table of timers knows it never expires on any
  wheel, however long the wheel runs.
\<close>

theorem cancelled_timer_silent:
  assumes "map_of (hw_timers h) tid = Some a" "wheel_wf h w" "i < k"
  shows "a \<notin> set (expirations (wheel_advance w) k (fst (hierarchical_timing_wheel_cancel_timer tid h)) ! i)"
proof -
  let ?h = "fst (hierarchical_timing_wheel_cancel_timer tid h)"
  have h: "hw_wheels ?h = hw_wheels h" "tm_removed (hw_heap ?h a)"
    using assms(1) by (simp_all add: hierarchical_timing_wheel_cancel_timer_def Let_def)
  have "wheel_wf ?h w"
    using assms(2) by (simp add: wheel_wf_def h(1))
  moreover have "\<not> waits ?h w a (Suc i)"
    using h(2) by (simp add: waits_def2)
  ultimately show ?thesis
    using wheel.expirations_due assms(3) by blast
qed

definition example_duration :: timer_duration where
  "example_duration = \<lparr>du_days = 0, du_hours = 0, du_minutes = 0, du_seconds = 3, du_milliseconds = 5\<rparr>"

definition example_started :: hierarchical_timing_wheel where
  "example_started =
     (hierarchical_timing_wheel_create 8)\<lparr>hw_heap := (hw_heap (hierarchical_timing_wheel_create 8))(0 :=
        \<lparr>tm_id = 1, tm_steps = [(3, Seconds), (5, Milliseconds)], tm_current = 0, tm_cb = User 7, tm_abort = True,
         tm_removed = False, tm_circle = 0\<rparr>), hw_next := 1, hw_next_id := 2, hw_timers := [(1, 0)]\<rparr>"

lemma example_started_ok: "wheel_wf example_started Seconds" "settable example_started Seconds 0"
  by (simp_all add: wheel_wf_def settable_def example_started_def hierarchical_timing_wheel_create_def
      timing_wheel_create_def Let_def)

lemma example_set:
  "hierarchical_timing_wheel_set_timer (User 7) True example_duration (hierarchical_timing_wheel_create 8) =
     (1, timing_wheel_set_timer Seconds 0 example_started)"
proof -
  have "timer_plan (timer_duration_rectify example_duration) = [(3, Seconds), (5, Milliseconds)]"
    by (simp add: timer_plan_def timer_duration_rectify_def example_duration_def time_defs Let_def)
  then show ?thesis
    by (simp add: hierarchical_timing_wheel_set_timer_def example_started_def hierarchical_timing_wheel_create_def Let_def)
qed

theorem cancelled_timer_silent_witness:
  "let (tid, h) = hierarchical_timing_wheel_set_timer (User 7) True example_duration (hierarchical_timing_wheel_create 8)
   in map_of (hw_timers h) tid = Some 0
      \<and> 0 \<notin> set (expirations (wheel_advance Seconds) 4 (fst (hierarchical_timing_wheel_cancel_timer tid h)) ! 2)"
proof -
  let ?h = "timing_wheel_set_timer Seconds 0 example_started"
  have "hw_timers ?h = [(1, 0)]"
    by (simp add: set_timer_eq [OF example_started_ok]) (simp add: example_started_def)
  with cancelled_timer_silent [of ?h 1 0 Seconds 2 4] set_timer_waits(1) [OF example_started_ok] show ?thesis
    by (simp add: example_set)
qed

text \<open>Expired timers leave the table, whatever steps of their plan remain.\<close>

lemma map_of_fold_delete:
  "map_of (fold (\<lambda>a. AList.delete (f a)) as kvs) k = (if k \<in> f ` set as then None else map_of kvs k)"
  by (induction as arbitrary: kvs) (auto simp: AList.delete_conv')

lemma expired_forgotten:
  assumes "wheel_wf h w" "wheel_advance w h = (expired, h')" "a \<in> set expired"
  shows "map_of (hw_timers h') (tm_id (hw_heap h a)) = None"
  using wheel_advance_eq [OF assms(1)] assms(2,3) by (auto simp: map_of_fold_delete)

lemma wheel_advance_timer:
  assumes "wheel_wf h w" "wheel_advance w h = (expired, h')"
  shows "tm_steps (hw_heap h' a) = tm_steps (hw_heap h a) \<and> tm_current (hw_heap h' a) = tm_current (hw_heap h a)
    \<and> tm_removed (hw_heap h' a) = tm_removed (hw_heap h a) \<and> tm_id (hw_heap h' a) = tm_id (hw_heap h a)"
  using wheel_advance_eq [OF assms(1)] assms(2) by (auto simp: turned_def)

text \<open>
  A timer with more than one step cannot be cancelled once its first step is over: the
  tick that ends the step takes it out of the table of timers, so cancelling it does
  nothing, and the timer goes on to the wheel of its next step and waits there to fire.
\<close>

theorem cancel_after_step_lost:
  assumes "wheel_wf h w" "wheel_advance w h = (expired, h1)" "waits h w a 1"
    and "tm_steps (hw_heap h a) = [(d, w), (d', v)]" "tm_current (hw_heap h a) = 0" "d' \<noteq> 0"
  shows "hierarchical_timing_wheel_cancel_timer (tm_id (hw_heap h a)) h1 = (h1, [])
    \<and> (\<exists>h2. fire_all [a] h1 = (timing_wheel_set_timer v a h2, []) \<and> tm_current (hw_heap h2 a) = 1
         \<and> hw_wheels h2 = hw_wheels h1)"
proof -
  have a: "a \<in> set expired"
    using wheel_advance_waits(2) [OF assms(1,2)] assms(3) by simp
  have "map_of (hw_timers h1) (tm_id (hw_heap h a)) = None"
    by (rule expired_forgotten [OF assms(1,2) a])
  moreover note wheel_advance_timer [OF assms(1,2), of a]
  moreover have "\<not> tm_removed (hw_heap h a)"
    using assms(3) by (simp add: waits_def2)
  ultimately show ?thesis
    using assms(4-6) by (auto simp: hierarchical_timing_wheel_cancel_timer_def next_step.simps Let_def)
qed

theorem cancel_after_step_lost_witness:
  "let h = snd (wheel_advance Seconds (snd (wheel_advance Seconds (timing_wheel_set_timer Seconds 0 example_started))));
       h1 = snd (wheel_advance Seconds h)
   in hierarchical_timing_wheel_cancel_timer 1 h1 = (h1, [])
      \<and> (\<exists>h2. fire_all [0] h1 = (timing_wheel_set_timer Milliseconds 0 h2, []))"
proof -
  let ?h0 = "timing_wheel_set_timer Seconds 0 example_started"
  obtain e1 h1 where h1: "wheel_advance Seconds ?h0 = (e1, h1)"
    by fastforce
  obtain e2 h2 where h2: "wheel_advance Seconds h1 = (e2, h2)"
    by fastforce
  obtain e3 h3 where h3: "wheel_advance Seconds h2 = (e3, h3)"
    by fastforce
  note ok0 = set_timer_waits [OF example_started_ok]
  note ok1 = wheel_advance_waits [OF ok0(1) h1]
  note ok2 = wheel_advance_waits [OF ok1(1) h2]
  have "waits ?h0 Seconds 0 3"
    using ok0(3) [of 3] by (simp add: fires_after_def example_started_def hierarchical_timing_wheel_create_def timing_wheel_create_def)
  then have "waits h2 Seconds 0 1"
    by (simp add: ok1(3) ok2(3) eval_nat_numeral)
  moreover have "tm_steps (hw_heap ?h0 0) = [(3, Seconds), (5, Milliseconds)]" "tm_current (hw_heap ?h0 0) = 0" "tm_id (hw_heap ?h0 0) = 1"
    unfolding set_timer_eq [OF example_started_ok] by (simp_all add: example_started_def)
  then have "tm_steps (hw_heap h2 0) = [(3, Seconds), (5, Milliseconds)]" "tm_current (hw_heap h2 0) = 0" "tm_id (hw_heap h2 0) = 1"
    using wheel_advance_timer [OF ok1(1) h2, of 0] wheel_advance_timer [OF ok0(1) h1, of 0] by simp_all
  ultimately show ?thesis
    using cancel_after_step_lost [OF ok2(1) h3, of 0 3 5 Milliseconds] by (auto simp: h1 h2 h3)
qed

text \<open>A duration in milliseconds, and the milliseconds the steps of a plan add up to.\<close>

definition duration_ms :: "timer_duration \<Rightarrow> nat" where
  "duration_ms d =
     (((unat (du_days d) * 24 + unat (du_hours d)) * 60 + unat (du_minutes d)) * 60 + unat (du_seconds d)) * 1000
       + unat (du_milliseconds d)"

fun wheel_ms :: "wheel_name \<Rightarrow> nat" where
  "wheel_ms Milliseconds = 1"
| "wheel_ms Seconds = 1000"
| "wheel_ms Minutes = 60 * 1000"
| "wheel_ms Hours = 60 * (60 * 1000)"
| "wheel_ms Days = 24 * (60 * (60 * 1000))"

definition plan_ms :: "(u64 \<times> wheel_name) list \<Rightarrow> nat" where
  "plan_ms steps = sum_list (map (\<lambda>(d, w). unat d * wheel_ms w) steps)"

lemma plan_duration: "plan_ms (timer_plan d) = duration_ms d"
proof -
  have "unat x = 0 \<longleftrightarrow> \<not> 0 < x" for x :: u64
    by (simp add: unat_eq_0 word_gt_0)
  then show ?thesis
    by (auto simp: timer_plan_def plan_ms_def duration_ms_def algebra_simps)
qed

text \<open>One carry: what a field gives to the next one.\<close>

lemma carry:
  fixes x y c :: u64
  assumes "0 < c" "unat y * unat c + unat x < 2 ^ 64"
  shows "unat (y + x div c) * unat c + unat (x mod c) = unat y * unat c + unat x" "unat (x mod c) < unat c"
proof -
  have c: "0 < unat c"
    using assms(1) by (simp add: word_less_nat_alt)
  have "(unat y + unat x div unat c) * unat c \<le> unat y * unat c + unat x"
    by (simp add: add_mult_distrib)
  moreover have "unat y + unat x div unat c \<le> (unat y + unat x div unat c) * unat c"
    using c by simp
  ultimately have "unat y + unat x div unat c < 2 ^ 64"
    using assms(2) by linarith
  then have "unat (y + x div c) = unat y + unat x div unat c"
    by (simp add: unat_word_ariths unat_div)
  then show "unat (y + x div c) * unat c + unat (x mod c) = unat y * unat c + unat x"
    by (simp add: unat_mod add_mult_distrib add.assoc)
  show "unat (x mod c) < unat c"
    using c by (simp add: unat_mod)
qed

lemma rectified:
  assumes "duration_ms d < 2 ^ 64"
  defines "e \<equiv> timer_duration_rectify d"
  shows "duration_ms e = duration_ms d" "unat (du_milliseconds e) \<le> 1000" "unat (du_seconds e) \<le> 60"
    "unat (du_minutes e) \<le> 60" "unat (du_hours e) \<le> 24"
proof -
  define d1 where "d1 = (if du_milliseconds d > Time_Seconds
    then d\<lparr>du_seconds := du_seconds d + du_milliseconds d div Time_Seconds, du_milliseconds := du_milliseconds d mod Time_Seconds\<rparr> else d)"
  define d2 where "d2 = (if du_seconds d1 > Time_Minutes
    then d1\<lparr>du_minutes := du_minutes d1 + du_seconds d1 div Time_Minutes, du_seconds := du_seconds d1 mod Time_Minutes\<rparr> else d1)"
  define d3 where "d3 = (if du_minutes d2 > Time_Hours
    then d2\<lparr>du_hours := du_hours d2 + du_minutes d2 div Time_Hours, du_minutes := du_minutes d2 mod Time_Hours\<rparr> else d2)"
  have e: "e = (if du_hours d3 > Time_Days
    then d3\<lparr>du_days := du_days d3 + du_hours d3 div Time_Days, du_hours := du_hours d3 mod Time_Days\<rparr> else d3)"
    by (simp add: e_def timer_duration_rectify_def Let_def d1_def d2_def d3_def)
  have c: "unat Time_Seconds = 1000" "unat Time_Minutes = 60" "unat Time_Hours = 60" "unat Time_Days = 24"
      "0 < Time_Seconds" "0 < Time_Minutes" "0 < Time_Hours" "0 < Time_Days"
    by (simp_all add: time_defs)
  note carries = carry [OF c(5), unfolded c] carry [OF c(6), unfolded c] carry [OF c(7), unfolded c] carry [OF c(8), unfolded c]
  have 1: "duration_ms d1 = duration_ms d" "unat (du_milliseconds d1) \<le> 1000"
    using carries(1,2) [of "du_seconds d" "du_milliseconds d"] assms(1)
    by (auto simp: d1_def duration_ms_def word_less_nat_alt c not_less)
  have 2: "duration_ms d2 = duration_ms d" "unat (du_seconds d2) \<le> 60" "du_milliseconds d2 = du_milliseconds d1"
    using carries(3,4) [of "du_minutes d1" "du_seconds d1"] assms(1) 1
    by (auto simp: d2_def duration_ms_def word_less_nat_alt c not_less)
  have 3: "duration_ms d3 = duration_ms d" "unat (du_minutes d3) \<le> 60" "du_milliseconds d3 = du_milliseconds d1"
      "du_seconds d3 = du_seconds d2"
    using carries(5,6) [of "du_hours d2" "du_minutes d2"] assms(1) 2
    by (auto simp: d3_def duration_ms_def word_less_nat_alt c not_less)
  have 4: "duration_ms e = duration_ms d" "unat (du_hours e) \<le> 24" "du_milliseconds e = du_milliseconds d1"
      "du_seconds e = du_seconds d2" "du_minutes e = du_minutes d3"
    using carries(7,8) [of "du_days d3" "du_hours d3"] assms(1) 3
    by (auto simp: e duration_ms_def word_less_nat_alt c not_less)
  show "duration_ms e = duration_ms d" "unat (du_milliseconds e) \<le> 1000" "unat (du_seconds e) \<le> 60"
    "unat (du_minutes e) \<le> 60" "unat (du_hours e) \<le> 24"
    using 1 2 3 4 by simp_all
qed

text \<open>
  C27. The plan of a timer is the duration that was asked for, for every duration below
  \<open>2 ^ 64\<close> milliseconds: the delays of its steps, each in the unit of its wheel, add up to
  it exactly, no intermediate sum overflows, and no step but that of the days is longer
  than its unit in the next one.
\<close>

theorem timer_plan_exact:
  assumes "duration_ms d < 2 ^ 64"
  shows "plan_ms (timer_plan (timer_duration_rectify d)) = duration_ms d
    \<and> (\<forall>(delay, w) \<in> set (timer_plan (timer_duration_rectify d)).
         w \<noteq> Days \<longrightarrow> unat delay \<le> (case w of Milliseconds \<Rightarrow> 1000 | Hours \<Rightarrow> 24 | _ \<Rightarrow> 60))"
proof (rule conjI)
  show "plan_ms (timer_plan (timer_duration_rectify d)) = duration_ms d"
    using rectified(1) [OF assms] by (simp add: plan_duration)
  show "\<forall>(delay, w) \<in> set (timer_plan (timer_duration_rectify d)).
      w \<noteq> Days \<longrightarrow> unat delay \<le> (case w of Milliseconds \<Rightarrow> 1000 | Hours \<Rightarrow> 24 | _ \<Rightarrow> 60)"
    using rectified(2-5) [OF assms] by (auto simp: timer_plan_def)
qed

theorem timer_plan_exact_witness:
  "plan_ms (timer_plan (timer_duration_rectify \<lparr>du_days = 0, du_hours = 0, du_minutes = 0, du_seconds = 0, du_milliseconds = 90061001\<rparr>))
     = 90061001"
  using timer_plan_exact [of "\<lparr>du_days = 0, du_hours = 0, du_minutes = 0, du_seconds = 0, du_milliseconds = 90061001\<rparr>"]
  by (simp add: duration_ms_def)

text \<open>The search for the next step of a plan.\<close>

lemma next_step_le: "i \<le> next_step steps i \<and> (next_step steps i < length steps \<longrightarrow> fst (steps ! next_step steps i) \<noteq> 0)"
  by (induction steps i rule: next_step.induct) (subst (1 2 3) next_step.simps, auto)



end
