(* ===== verification/MeridianQuery.thy ===== *)
theory MeridianQuery
  imports NodeId Cbor
begin

text \<open>
  What the overlay keeps of its exchanges with other nodes: queries with their
  deadline and the table of queries in flight
  (\<open>src/Network/Meridian/meridian_query.c\<close>), and the cache of measured latencies with
  the measure requests (\<open>src/Network/Meridian/meridian_measure.c\<close>). Readings of
  \<open>gettimeofday\<close> are arguments, one per call. Nodes are values; the reference counts
  on them are those of \<open>RefCounter\<close>. A write past the end of an allocated array is
  \<open>Undef\<close>.
\<close>

section \<open>Time values\<close>

text \<open>The \<open>timeradd\<close>, \<open>timersub\<close> and \<open>timercmp\<close> macros of \<open>sys/time.h\<close>.\<close>

record timeval =
  tv_sec :: int
  tv_usec :: int

definition timeradd :: "timeval \<Rightarrow> timeval \<Rightarrow> timeval" where
  "timeradd a b =
     (let s = tv_sec a + tv_sec b; u = tv_usec a + tv_usec b
      in if u \<ge> 1000000 then \<lparr>tv_sec = s + 1, tv_usec = u - 1000000\<rparr> else \<lparr>tv_sec = s, tv_usec = u\<rparr>)"

definition timersub :: "timeval \<Rightarrow> timeval \<Rightarrow> timeval" where
  "timersub a b =
     (let s = tv_sec a - tv_sec b; u = tv_usec a - tv_usec b
      in if u < 0 then \<lparr>tv_sec = s - 1, tv_usec = u + 1000000\<rparr> else \<lparr>tv_sec = s, tv_usec = u\<rparr>)"

definition timer_less :: "timeval \<Rightarrow> timeval \<Rightarrow> bool" where
  "timer_less a b = (if tv_sec a = tv_sec b then tv_usec a < tv_usec b else tv_sec a < tv_sec b)"

definition timer_ge :: "timeval \<Rightarrow> timeval \<Rightarrow> bool" where
  "timer_ge a b = (if tv_sec a = tv_sec b then tv_usec a \<ge> tv_usec b else tv_sec a \<ge> tv_sec b)"

text \<open>A number of milliseconds as the timeouts are stored.\<close>

definition timeval_of_ms :: "u32 \<Rightarrow> timeval" where
  "timeval_of_ms ms = \<lparr>tv_sec = uint (ms div 1000), tv_usec = uint ((ms mod 1000) * 1000)\<rparr>"

text \<open>The test of \<open>meridian_query_is_expired\<close> and of its copies for gossip and measurements.\<close>

definition deadline_passed :: "timeval \<Rightarrow> timeval \<Rightarrow> timeval \<Rightarrow> bool" where
  "deadline_passed start_time timeout now = timer_less (timeradd start_time timeout) now"

text \<open>Microseconds since the epoch; \<open>gettimeofday\<close> returns normalised values.\<close>

definition usecs :: "timeval \<Rightarrow> int" where
  "usecs t = tv_sec t * 1000000 + tv_usec t"

definition tv_ok :: "timeval \<Rightarrow> bool" where
  "tv_ok t \<longleftrightarrow> 0 \<le> tv_usec t \<and> tv_usec t < 1000000"

lemma usecs_timeradd: "usecs (timeradd a b) = usecs a + usecs b"
  by (simp add: timeradd_def usecs_def Let_def)

lemma tv_ok_timeradd: "tv_ok a \<Longrightarrow> tv_ok b \<Longrightarrow> tv_ok (timeradd a b)"
  by (simp add: timeradd_def tv_ok_def Let_def)

lemma usecs_timersub: "usecs (timersub a b) = usecs a - usecs b"
  by (simp add: timersub_def usecs_def Let_def)

lemma timer_less_iff: "tv_ok a \<Longrightarrow> tv_ok b \<Longrightarrow> timer_less a b \<longleftrightarrow> usecs a < usecs b"
  by (auto simp: timer_less_def usecs_def tv_ok_def)

lemma timer_ge_iff: "tv_ok a \<Longrightarrow> tv_ok b \<Longrightarrow> timer_ge a b \<longleftrightarrow> usecs b \<le> usecs a"
  by (auto simp: timer_ge_def usecs_def tv_ok_def)

lemma timeval_of_ms:
  "tv_ok (timeval_of_ms ms)" "usecs (timeval_of_ms ms) = uint ms * 1000"
proof -
  have u: "uint ((ms mod 1000) * 1000) = uint ms mod 1000 * 1000"
  proof -
    have "uint ms mod 1000 < 1000" by simp
    then have "uint ms mod 1000 * 1000 < 2 ^ 32" by simp
    then show ?thesis by (simp add: uint_word_ariths uint_mod)
  qed
  have d: "uint (ms div 1000) = uint ms div 1000" by (simp add: uint_div)
  show "tv_ok (timeval_of_ms ms)"
    unfolding tv_ok_def timeval_of_ms_def by (simp add: u)
  show "usecs (timeval_of_ms ms) = uint ms * 1000"
  proof -
    have "usecs (timeval_of_ms ms) = uint ms div 1000 * 1000000 + uint ms mod 1000 * 1000"
      unfolding usecs_def timeval_of_ms_def by (simp add: u d)
    also have "\<dots> = uint ms * 1000" using div_mult_mod_eq [of "uint ms" 1000] by linarith
    finally show ?thesis .
  qed
qed

lemma deadline_passed_iff:
  "tv_ok s \<Longrightarrow> tv_ok t \<Longrightarrow> tv_ok now \<Longrightarrow> deadline_passed s t now \<longleftrightarrow> usecs s + usecs t < usecs now"
  by (simp add: deadline_passed_def timer_less_iff tv_ok_timeradd usecs_timeradd)

section \<open>Queries\<close>

datatype meridian_query_type =
    MERIDIAN_QUERY_TYPE_GOSSIP | MERIDIAN_QUERY_TYPE_MEASURE | MERIDIAN_QUERY_TYPE_CLOSEST
  | MERIDIAN_QUERY_TYPE_CONSTRAINT | MERIDIAN_QUERY_TYPE_INFO

datatype meridian_query_status =
    MERIDIAN_QUERY_STATUS_INIT | MERIDIAN_QUERY_STATUS_WAITING
  | MERIDIAN_QUERY_STATUS_FINISHED | MERIDIAN_QUERY_STATUS_FAILED

definition MERIDIAN_QUERY_MAX_TARGETS :: nat where "MERIDIAN_QUERY_MAX_TARGETS = 256"

text \<open>\<open>num_targets\<close> is the length of the targets; the latencies are an array of fixed size.\<close>

record meridian_query =
  mq_query_id :: u64
  mq_type :: meridian_query_type
  mq_status :: meridian_query_status
  mq_start_time :: timeval
  mq_timeout :: timeval
  mq_source :: "meridian_node option"
  mq_targets :: "meridian_node list"
  mq_latencies :: "u32 list"
  mq_num_measured :: nat

definition meridian_query_create :: "timeval \<Rightarrow> u64 \<Rightarrow> meridian_query_type \<Rightarrow> u32 \<Rightarrow> meridian_query" where
  "meridian_query_create now query_id type timeout_ms =
     \<lparr>mq_query_id = query_id, mq_type = type, mq_status = MERIDIAN_QUERY_STATUS_INIT,
      mq_start_time = now, mq_timeout = timeval_of_ms timeout_ms, mq_source = None, mq_targets = [],
      mq_latencies = replicate MERIDIAN_QUERY_MAX_TARGETS 0, mq_num_measured = 0\<rparr>"

definition meridian_query_add_target :: "meridian_query \<Rightarrow> meridian_node option \<Rightarrow> int \<times> meridian_query" where
  "meridian_query_add_target query node =
     (case node of
        None \<Rightarrow> (- 1, query)
      | Some n \<Rightarrow>
          if length (mq_targets query) \<ge> MERIDIAN_QUERY_MAX_TARGETS then (- 1, query)
          else (0, query\<lparr>mq_targets := mq_targets query @ [n]\<rparr>))"

definition meridian_query_set_latency :: "meridian_query \<Rightarrow> nat \<Rightarrow> u32 \<Rightarrow> int \<times> meridian_query" where
  "meridian_query_set_latency query target_idx latency =
     (if target_idx \<ge> length (mq_targets query) then (- 1, query)
      else (0, query\<lparr>mq_latencies := (mq_latencies query)[target_idx := latency],
                     mq_num_measured := mq_num_measured query + 1\<rparr>))"

text \<open>The scan of \<open>meridian_query_get_closest\<close> from index \<open>i\<close> on.\<close>

fun closest_from :: "u32 list \<Rightarrow> nat \<Rightarrow> u32 \<Rightarrow> nat list \<Rightarrow> nat" where
  "closest_from latencies closest_idx closest_latency [] = closest_idx"
| "closest_from latencies closest_idx closest_latency (i # is) =
     (if latencies ! i < closest_latency then closest_from latencies i (latencies ! i) is
      else closest_from latencies closest_idx closest_latency is)"

definition meridian_query_get_closest :: "meridian_query \<Rightarrow> meridian_node option" where
  "meridian_query_get_closest query =
     (let n = length (mq_targets query)
      in if n = 0 then None
         else Some (mq_targets query
                    ! closest_from (mq_latencies query) 0 (mq_latencies query ! 0) [1..<n]))"

definition meridian_query_is_expired :: "timeval \<Rightarrow> meridian_query \<Rightarrow> bool" where
  "meridian_query_is_expired now query = deadline_passed (mq_start_time query) (mq_timeout query) now"

definition meridian_query_is_finished :: "meridian_query \<Rightarrow> bool" where
  "meridian_query_is_finished query =
     (mq_status query = MERIDIAN_QUERY_STATUS_FINISHED \<or> mq_status query = MERIDIAN_QUERY_STATUS_FAILED)"

definition meridian_query_finish :: "meridian_query \<Rightarrow> int \<times> meridian_query" where
  "meridian_query_finish query = (0, query\<lparr>mq_status := MERIDIAN_QUERY_STATUS_FINISHED\<rparr>)"

definition add_targets :: "meridian_node list \<Rightarrow> meridian_query \<Rightarrow> meridian_query" where
  "add_targets targets query =
     fold (\<lambda>t q. snd (meridian_query_add_target q (Some t))) (take MERIDIAN_QUERY_MAX_TARGETS targets) query"

definition meridian_gossip_query_create ::
  "timeval \<Rightarrow> u64 \<Rightarrow> meridian_node option \<Rightarrow> meridian_node list \<Rightarrow> u32 \<Rightarrow> meridian_query" where
  "meridian_gossip_query_create now query_id source targets timeout_ms =
     add_targets targets
       ((meridian_query_create now query_id MERIDIAN_QUERY_TYPE_GOSSIP timeout_ms)\<lparr>mq_source := source\<rparr>)"

definition meridian_closest_query_create ::
  "timeval \<Rightarrow> u64 \<Rightarrow> meridian_node option \<Rightarrow> meridian_node list \<Rightarrow> u32 \<Rightarrow> meridian_query" where
  "meridian_closest_query_create now query_id source targets timeout_ms =
     add_targets targets
       ((meridian_query_create now query_id MERIDIAN_QUERY_TYPE_CLOSEST timeout_ms)\<lparr>mq_source := source\<rparr>)"

definition meridian_measure_query_create ::
  "timeval \<Rightarrow> u64 \<Rightarrow> meridian_node option \<Rightarrow> meridian_node option \<Rightarrow> u32 \<Rightarrow> meridian_query" where
  "meridian_measure_query_create now query_id source target timeout_ms =
     snd (meridian_query_add_target
       ((meridian_query_create now query_id MERIDIAN_QUERY_TYPE_MEASURE timeout_ms)\<lparr>mq_source := source\<rparr>) target)"

section \<open>The table of queries\<close>

record meridian_query_table =
  mqt_queries :: "meridian_query list"
  mqt_capacity :: nat

definition meridian_query_table_create :: "nat \<Rightarrow> meridian_query_table" where
  "meridian_query_table_create capacity =
     \<lparr>mqt_queries = [], mqt_capacity = (if capacity = 0 then 64 else capacity)\<rparr>"

definition meridian_query_table_insert :: "meridian_query_table \<Rightarrow> meridian_query \<Rightarrow> int \<times> meridian_query_table" where
  "meridian_query_table_insert table query =
     (let cap = (if length (mqt_queries table) \<ge> mqt_capacity table
                 then mqt_capacity table * 2 else mqt_capacity table)
      in (0, \<lparr>mqt_queries = mqt_queries table @ [query], mqt_capacity = cap\<rparr>))"

definition meridian_query_table_remove :: "meridian_query_table \<Rightarrow> u64 \<Rightarrow> int \<times> meridian_query_table" where
  "meridian_query_table_remove table query_id =
     (if list_ex (\<lambda>q. mq_query_id q = query_id) (mqt_queries table)
      then (0, table\<lparr>mqt_queries := remove_first (\<lambda>q. mq_query_id q = query_id) (mqt_queries table)\<rparr>)
      else (- 1, table))"

definition meridian_query_table_lookup :: "meridian_query_table \<Rightarrow> u64 \<Rightarrow> meridian_query option" where
  "meridian_query_table_lookup table query_id = find (\<lambda>q. mq_query_id q = query_id) (mqt_queries table)"

text \<open>
  A tick asks the clock once per query in the pass that counts (\<open>clock 0\<close> to
  \<open>clock (n - 1)\<close>) and once more per query in the pass that moves the expired ones
  into an array of that size (\<open>clock n\<close> to \<open>clock (2 * n - 1)\<close>).
\<close>

fun count_expired :: "(nat \<Rightarrow> timeval) \<Rightarrow> nat \<Rightarrow> meridian_query list \<Rightarrow> nat" where
  "count_expired clock i [] = 0"
| "count_expired clock i (q # qs) =
     (if meridian_query_is_expired (clock i) q then 1 else 0) + count_expired clock (i + 1) qs"

fun split_expired :: "(nat \<Rightarrow> timeval) \<Rightarrow> nat \<Rightarrow> meridian_query list \<Rightarrow> meridian_query list \<times> meridian_query list" where
  "split_expired clock i [] = ([], [])"
| "split_expired clock i (q # qs) =
     (let (expired, kept) = split_expired clock (i + 1) qs
      in if meridian_query_is_expired (clock i) q then (q # expired, kept) else (expired, q # kept))"

definition meridian_query_table_tick ::
  "(nat \<Rightarrow> timeval) \<Rightarrow> meridian_query_table \<Rightarrow> (int \<times> meridian_query list \<times> meridian_query_table) cres" where
  "meridian_query_table_tick clock table =
     (let n = length (mqt_queries table);
          count = count_expired clock 0 (mqt_queries table)
      in if count = 0 then Ret (0, [], table)
         else let (expired, kept) = split_expired clock n (mqt_queries table)
              in if length expired > count then Undef
                 else Ret (0, expired, table\<lparr>mqt_queries := kept\<rparr>))"

section \<open>The latency cache\<close>

definition MERIDIAN_PROBE_CACHE_SIZE :: nat where "MERIDIAN_PROBE_CACHE_SIZE = 1024"
definition MERIDIAN_PROBE_CACHE_TIMEOUT_US :: int where "MERIDIAN_PROBE_CACHE_TIMEOUT_US = 5 * 1000 * 1000"

record meridian_measure_entry =
  me_addr :: u32
  me_port :: u16
  me_latency_us :: u32
  me_timestamp :: timeval

record meridian_latency_cache =
  mc_entries :: "meridian_measure_entry list"
  mc_capacity :: nat

definition meridian_latency_cache_create :: "nat \<Rightarrow> meridian_latency_cache" where
  "meridian_latency_cache_create capacity =
     \<lparr>mc_entries = [], mc_capacity = (if capacity = 0 then MERIDIAN_PROBE_CACHE_SIZE else capacity)\<rparr>"

definition cache_key :: "meridian_measure_entry \<Rightarrow> u32 \<times> u16" where
  "cache_key e = (me_addr e, me_port e)"

text \<open>The search for the entry to evict: the clock is the bound the oldest entry must be under.\<close>

fun oldest_from :: "meridian_measure_entry list \<Rightarrow> nat \<Rightarrow> nat \<Rightarrow> timeval \<Rightarrow> nat" where
  "oldest_from [] i oldest_idx oldest = oldest_idx"
| "oldest_from (e # es) i oldest_idx oldest =
     (if timer_less (me_timestamp e) oldest then oldest_from es (i + 1) i (me_timestamp e)
      else oldest_from es (i + 1) oldest_idx oldest)"

text \<open>\<open>now0\<close> is the reading before the search for the oldest entry, \<open>now\<close> the stored timestamp.\<close>

definition meridian_latency_cache_insert ::
  "timeval \<Rightarrow> timeval \<Rightarrow> meridian_latency_cache \<Rightarrow> meridian_node \<Rightarrow> u32 \<Rightarrow> int \<times> meridian_latency_cache" where
  "meridian_latency_cache_insert now0 now cache node latency_us =
     (let P = (\<lambda>e. me_addr e = n_addr node \<and> me_port e = n_port node);
          entry = \<lparr>me_addr = n_addr node, me_port = n_port node, me_latency_us = latency_us, me_timestamp = now\<rparr>;
          es = mc_entries cache
      in if list_ex P es
         then (0, cache\<lparr>mc_entries := update_first P (\<lambda>e. e\<lparr>me_timestamp := now, me_latency_us := latency_us\<rparr>) es\<rparr>)
         else if length es < mc_capacity cache then (0, cache\<lparr>mc_entries := es @ [entry]\<rparr>)
         else (0, cache\<lparr>mc_entries := es[oldest_from es 0 0 now0 := entry]\<rparr>))"

definition meridian_latency_cache_get :: "meridian_latency_cache \<Rightarrow> meridian_node \<Rightarrow> u32 option" where
  "meridian_latency_cache_get cache node =
     map_option me_latency_us
       (find (\<lambda>e. me_addr e = n_addr node \<and> me_port e = n_port node) (mc_entries cache))"

definition fresh_entry :: "timeval \<Rightarrow> meridian_measure_entry \<Rightarrow> bool" where
  "fresh_entry now e =
     (let age = timersub now (me_timestamp e)
      in tv_sec age * 1000000 + tv_usec age < MERIDIAN_PROBE_CACHE_TIMEOUT_US)"

definition meridian_latency_cache_evict_expired :: "timeval \<Rightarrow> meridian_latency_cache \<Rightarrow> meridian_latency_cache" where
  "meridian_latency_cache_evict_expired now cache =
     cache\<lparr>mc_entries := filter (fresh_entry now) (mc_entries cache)\<rparr>"

section \<open>Measure requests\<close>

datatype meridian_measure_type =
    MERIDIAN_MEASURE_TYPE_TCP | MERIDIAN_MEASURE_TYPE_PING | MERIDIAN_MEASURE_TYPE_DNS

text \<open>\<open>mr_callback\<close> says whether the request has a callback; its context goes with it.\<close>

record meridian_measure_request =
  mr_query_id :: u64
  mr_target :: meridian_node
  mr_type :: meridian_measure_type
  mr_start_time :: timeval
  mr_timeout :: timeval
  mr_callback :: bool
  mr_completed :: bool

definition meridian_measure_request_create ::
  "timeval \<Rightarrow> u64 \<Rightarrow> meridian_node option \<Rightarrow> meridian_measure_type \<Rightarrow> u32 \<Rightarrow> bool \<Rightarrow> meridian_measure_request option" where
  "meridian_measure_request_create now query_id target type timeout_ms callback =
     (case target of
        None \<Rightarrow> None
      | Some t \<Rightarrow>
          Some \<lparr>mr_query_id = query_id, mr_target = t, mr_type = type, mr_start_time = now,
                mr_timeout = timeval_of_ms timeout_ms, mr_callback = callback, mr_completed = False\<rparr>)"

definition meridian_measure_request_set_timeout ::
  "meridian_measure_request \<Rightarrow> u32 \<Rightarrow> int \<times> meridian_measure_request" where
  "meridian_measure_request_set_timeout req timeout_ms = (0, req\<lparr>mr_timeout := timeval_of_ms timeout_ms\<rparr>)"

definition meridian_measure_request_is_expired :: "timeval \<Rightarrow> meridian_measure_request \<Rightarrow> bool" where
  "meridian_measure_request_is_expired now req = deadline_passed (mr_start_time req) (mr_timeout req) now"

section \<open>Laws of queries and of the table\<close>

lemma closest_from_least:
  assumes "closest_latency = latencies ! closest_idx"
  shows "closest_from latencies closest_idx closest_latency is \<in> insert closest_idx (set is)"
    and "\<forall>j \<in> insert closest_idx (set is).
      latencies ! closest_from latencies closest_idx closest_latency is \<le> latencies ! j"
  using assms
  by (induction latencies closest_idx closest_latency "is" rule: closest_from.induct)
    (auto split: if_splits)

lemma split_expired_length: "length (fst (split_expired clock i qs)) = count_expired clock i qs"
  by (induction clock i qs rule: split_expired.induct) (auto split: prod.splits)

lemma split_expired_filter:
  assumes "\<And>q j. q \<in> set qs \<Longrightarrow> meridian_query_is_expired (clock j) q = P q"
  shows "split_expired clock i qs = (filter P qs, filter (\<lambda>q. \<not> P q) qs)"
  using assms by (induction qs arbitrary: i) (auto split: prod.splits)

lemma split_expired_mset:
  "mset (fst (split_expired clock i qs)) + mset (snd (split_expired clock i qs)) = mset qs"
  by (induction clock i qs rule: split_expired.induct) (auto split: prod.splits)

lemma find_key_iff:
  "distinct (map key xs) \<Longrightarrow> find (\<lambda>x. key x = k) xs = Some x \<longleftrightarrow> x \<in> set xs \<and> key x = k"
  by (induction xs) (auto simp: image_iff)

lemma expired_create:
  "meridian_query_is_expired now (meridian_query_create start i type ms) = deadline_passed start (timeval_of_ms ms) now"
  by (simp add: meridian_query_is_expired_def meridian_query_create_def)

section \<open>Caches\<close>

text \<open>
  The contract of a cache: what was stored last is found right away, and whatever
  else is stored or dropped, an answer for a key is never other than the one it had.
\<close>

locale lossy_cache =
  fixes invar :: "'t \<Rightarrow> bool"
    and get :: "'t \<Rightarrow> 'k \<Rightarrow> 'v option"
    and put :: "'x \<Rightarrow> 'k \<Rightarrow> 'v \<Rightarrow> 't \<Rightarrow> 't"
    and purge :: "'y \<Rightarrow> 't \<Rightarrow> 't"
  assumes invar_put: "invar t \<Longrightarrow> invar (put x k v t)"
    and invar_purge: "invar t \<Longrightarrow> invar (purge y t)"
    and get_put: "invar t \<Longrightarrow> get (put x k v t) k = Some v"
    and get_put_other: "invar t \<Longrightarrow> k' \<noteq> k \<Longrightarrow> get (put x k v t) k' = Some w \<Longrightarrow> get t k' = Some w"
    and get_purge: "invar t \<Longrightarrow> get (purge y t) k = Some w \<Longrightarrow> get t k = Some w"
begin

definition step :: "('x \<times> 'k \<times> 'v) + 'y \<Rightarrow> 't \<Rightarrow> 't" where
  "step e = (case e of Inl (x, k, v) \<Rightarrow> put x k v | Inr y \<Rightarrow> purge y)"

lemma step_simps [simp]: "step (Inl (x, k, v)) = put x k v" "step (Inr y) = purge y"
  by (simp_all add: step_def)

lemma invar_step: "invar t \<Longrightarrow> invar (step e t)"
  by (auto simp: step_def invar_put invar_purge split: sum.splits)

lemma invar_steps: "invar t \<Longrightarrow> invar (fold step es t)"
  by (induction es arbitrary: t) (auto simp: invar_step)

lemma answers_last_put:
  assumes "invar t" "get (fold step es t) k = Some v"
  shows "(case find (\<lambda>e. \<exists>x w. e = Inl (x, k, w)) (rev es) of
            Some (Inl (x, k', w)) \<Rightarrow> w = v | _ \<Rightarrow> get t k = Some v)"
  using assms(2)
proof (induction es rule: rev_induct)
  case (snoc e es)
  have inv: "invar (fold step es t)" by (rule invar_steps [OF assms(1)])
  show ?case
  proof (cases e)
    case (Inr y)
    then have "get (purge y (fold step es t)) k = Some v" using snoc.prems by simp
    then show ?thesis using snoc.IH get_purge [OF inv] Inr by simp
  next
    case (Inl p)
    obtain x k' w where p: "p = (x, k', w)" by (cases p) auto
    show ?thesis
    proof (cases "k' = k")
      case True
      then show ?thesis using snoc.prems get_put [OF inv] Inl p by simp
    next
      case False
      then have "get (fold step es t) k = Some v"
        using snoc.prems get_put_other [OF inv, of k k'] Inl p by simp
      then show ?thesis using snoc.IH False Inl p by simp
    qed
  qed
qed (use assms(1) in simp)

end

text \<open>The latency cache with its key, and the invariant its operations keep.\<close>

definition cache_lookup :: "meridian_latency_cache \<Rightarrow> u32 \<times> u16 \<Rightarrow> u32 option" where
  "cache_lookup cache k = map_option me_latency_us (find (\<lambda>e. cache_key e = k) (mc_entries cache))"

definition cache_put :: "timeval \<times> timeval \<Rightarrow> u32 \<times> u16 \<Rightarrow> u32 \<Rightarrow> meridian_latency_cache \<Rightarrow> meridian_latency_cache" where
  "cache_put now k v cache =
     snd (meridian_latency_cache_insert (fst now) (snd now) cache (meridian_node_create (fst k) (snd k) None) v)"

definition cache_ok :: "meridian_latency_cache \<Rightarrow> bool" where
  "cache_ok cache \<longleftrightarrow> distinct (map cache_key (mc_entries cache))
     \<and> length (mc_entries cache) \<le> mc_capacity cache \<and> 0 < mc_capacity cache"

lemma cache_get: "meridian_latency_cache_get cache node = cache_lookup cache (n_addr node, n_port node)"
  by (simp add: meridian_latency_cache_get_def cache_lookup_def cache_key_def)

lemma cache_insert:
  "meridian_latency_cache_insert now0 now cache node v = (0, cache_put (now0, now) (n_addr node, n_port node) v cache)"
  by (simp add: cache_put_def meridian_latency_cache_insert_def meridian_node_create_def Let_def)

lemma cache_put_eq:
  "cache_put now k v cache =
     cache\<lparr>mc_entries :=
       (let entry = \<lparr>me_addr = fst k, me_port = snd k, me_latency_us = v, me_timestamp = snd now\<rparr>;
            es = mc_entries cache
        in if list_ex (\<lambda>e. cache_key e = k) es
           then update_first (\<lambda>e. cache_key e = k) (\<lambda>e. e\<lparr>me_timestamp := snd now, me_latency_us := v\<rparr>) es
           else if length es < mc_capacity cache then es @ [entry]
           else es[oldest_from es 0 0 (fst now) := entry])\<rparr>"
proof -
  have "(\<lambda>e. cache_key e = k) = (\<lambda>e. me_addr e = fst k \<and> me_port e = snd k)"
    by (auto simp: cache_key_def prod_eq_iff)
  then show ?thesis
    by (simp add: cache_put_def meridian_latency_cache_insert_def meridian_node_create_def Let_def)
qed

lemma oldest_from_index: "oldest_from es i idx t = idx \<or> (i \<le> oldest_from es i idx t \<and> oldest_from es i idx t < i + length es)"
  by (induction es i idx t rule: oldest_from.induct) force+

lemma oldest_from_less: "es \<noteq> [] \<Longrightarrow> oldest_from es 0 0 t < length es"
  using oldest_from_index [of es 0 0 t] by auto

lemma cache_key_update: "cache_key (e\<lparr>me_timestamp := t, me_latency_us := v\<rparr>) = cache_key e"
  by (simp add: cache_key_def)

lemmas find_cache_key = find_update_first_same [of cache_key, OF cache_key_update]
  find_update_first_other [of cache_key, OF cache_key_update]

lemma cache_put_known:
  assumes "list_ex (\<lambda>e. cache_key e = k) (mc_entries c)"
  shows "mc_entries (cache_put x k v c) =
      update_first (\<lambda>e. cache_key e = k) (\<lambda>e. e\<lparr>me_timestamp := snd x, me_latency_us := v\<rparr>) (mc_entries c)"
    and "mc_capacity (cache_put x k v c) = mc_capacity c"
  using assms by (simp_all add: cache_put_eq)

lemma cache_ok_put:
  assumes "cache_ok c"
  shows "cache_ok (cache_put x k v c)"
proof -
  let ?es = "mc_entries c" and ?e = "\<lparr>me_addr = fst k, me_port = snd k, me_latency_us = v, me_timestamp = snd x\<rparr>"
  have d: "distinct (map cache_key ?es)" "length ?es \<le> mc_capacity c" "0 < mc_capacity c"
    using assms by (simp_all add: cache_ok_def)
  have key: "cache_key ?e = k" by (simp add: cache_key_def)
  show ?thesis
  proof (cases "list_ex (\<lambda>e. cache_key e = k) ?es")
    case True
    then show ?thesis using d by (simp add: cache_put_known cache_ok_def map_update_first cache_key_update)
  next
    case False
    then have new: "k \<notin> set (map cache_key ?es)" by (auto simp: list_ex_iff)
    show ?thesis
    proof (cases "length ?es < mc_capacity c")
      case True
      then show ?thesis using d new False key by (simp add: cache_put_eq cache_ok_def Let_def)
    next
      case full: False
      then have "distinct ((map cache_key ?es)[oldest_from ?es 0 0 (fst x) := k])"
        using d new by (intro distinct_list_update) auto
      then show ?thesis using d False full key by (simp add: cache_put_eq cache_ok_def Let_def map_update)
    qed
  qed
qed

lemma cache_lookup_iff:
  "cache_ok c \<Longrightarrow> cache_lookup c k = Some v \<longleftrightarrow> (\<exists>e\<in>set (mc_entries c). cache_key e = k \<and> me_latency_us e = v)"
  by (auto simp: cache_lookup_def cache_ok_def find_key_iff)

lemma cache_get_put:
  assumes "cache_ok c"
  shows "cache_lookup (cache_put x k v c) k = Some v"
proof -
  let ?es = "mc_entries c"
  show ?thesis
  proof (cases "list_ex (\<lambda>e. cache_key e = k) ?es")
    case True
    then obtain e where "find (\<lambda>e. cache_key e = k) ?es = Some e"
      by (cases "find (\<lambda>e. cache_key e = k) ?es") (auto simp: find_None_iff list_ex_iff)
    then show ?thesis
      using True by (simp add: cache_lookup_def cache_put_known find_cache_key(1))
  next
    case False
    let ?e = "\<lparr>me_addr = fst k, me_port = snd k, me_latency_us = v, me_timestamp = snd x\<rparr>"
    have "?es \<noteq> []" if "\<not> length ?es < mc_capacity c" using that assms by (auto simp: cache_ok_def)
    then have "?e \<in> set (mc_entries (cache_put x k v c))"
      using False oldest_from_less [of ?es "fst x"] by (simp add: cache_put_eq Let_def set_update_memI)
    moreover have "cache_key ?e = k" "me_latency_us ?e = v" by (simp_all add: cache_key_def)
    ultimately show ?thesis using cache_lookup_iff [OF cache_ok_put [OF assms]] by blast
  qed
qed

lemma cache_get_put_other:
  assumes "cache_ok c" "k' \<noteq> k" "cache_lookup (cache_put x k v c) k' = Some w"
  shows "cache_lookup c k' = Some w"
proof -
  let ?es = "mc_entries c" and ?e = "\<lparr>me_addr = fst k, me_port = snd k, me_latency_us = v, me_timestamp = snd x\<rparr>"
  have key: "cache_key ?e = k" by (simp add: cache_key_def)
  show ?thesis
  proof (cases "list_ex (\<lambda>e. cache_key e = k) ?es")
    case True
    then show ?thesis
      using assms(2,3) by (simp add: cache_lookup_def cache_put_known find_cache_key(2))
  next
    case False
    then have "set (mc_entries (cache_put x k v c)) \<subseteq> insert ?e (set ?es)"
      by (auto simp: cache_put_eq Let_def dest: set_update_subset_insert [THEN subsetD])
    then show ?thesis
      using assms cache_ok_put [OF assms(1), of x k v] key by (fastforce simp: cache_lookup_iff)
  qed
qed

lemma cache_ok_purge: "cache_ok c \<Longrightarrow> cache_ok (meridian_latency_cache_evict_expired now c)"
  by (auto simp: cache_ok_def meridian_latency_cache_evict_expired_def distinct_map_filter
      intro: le_trans [OF length_filter_le])

lemma cache_ok_create: "cache_ok (meridian_latency_cache_create cap)"
  by (simp add: cache_ok_def meridian_latency_cache_create_def MERIDIAN_PROBE_CACHE_SIZE_def)

interpretation latency: lossy_cache cache_ok cache_lookup cache_put meridian_latency_cache_evict_expired
proof
  fix c now k w
  assume "cache_ok c" "cache_lookup (meridian_latency_cache_evict_expired now c) k = Some w"
  then show "cache_lookup c k = Some w"
    using cache_ok_purge [of c now]
    by (auto simp: cache_lookup_iff) (auto simp: meridian_latency_cache_evict_expired_def)
qed (erule cache_ok_put cache_ok_purge cache_get_put | erule (2) cache_get_put_other)+

section \<open>Properties\<close>

text \<open>
  What happens to a latency cache: insertions, with the two readings of the clock, and
  evictions of expired entries.
\<close>

datatype cache_event = Measured timeval timeval meridian_node u32 | Evict timeval

definition cache_run :: "cache_event list \<Rightarrow> meridian_latency_cache \<Rightarrow> meridian_latency_cache" where
  "cache_run evs = fold (\<lambda>ev c. case ev of
     Measured now0 now node v \<Rightarrow> snd (meridian_latency_cache_insert now0 now c node v)
   | Evict now \<Rightarrow> meridian_latency_cache_evict_expired now c) evs"

fun last_measured :: "u32 \<times> u16 \<Rightarrow> cache_event list \<Rightarrow> u32 option" where
  "last_measured k [] = None"
| "last_measured k (ev # evs) =
     (case last_measured k evs of
        Some v \<Rightarrow> Some v
      | None \<Rightarrow> (case ev of Measured now0 now node v \<Rightarrow> if (n_addr node, n_port node) = k then Some v else None
                 | Evict now \<Rightarrow> None))"

definition cache_event_of :: "cache_event \<Rightarrow> ((timeval \<times> timeval) \<times> (u32 \<times> u16) \<times> u32) + timeval" where
  "cache_event_of ev = (case ev of
     Measured now0 now node v \<Rightarrow> Inl ((now0, now), (n_addr node, n_port node), v) | Evict now \<Rightarrow> Inr now)"

lemma cache_run_steps: "cache_run evs c = fold latency.step (map cache_event_of evs) c"
proof -
  have "(\<lambda>ev c. case ev of Measured now0 now node v \<Rightarrow> snd (meridian_latency_cache_insert now0 now c node v)
      | Evict now \<Rightarrow> meridian_latency_cache_evict_expired now c) = (\<lambda>ev. latency.step (cache_event_of ev))"
    by (auto simp: fun_eq_iff cache_event_of_def cache_insert split: cache_event.splits)
  then show ?thesis by (simp add: cache_run_def fold_map comp_def)
qed

lemma last_measured_find:
  "last_measured k evs =
     (case find (\<lambda>e. \<exists>x w. e = Inl (x, k, w)) (rev (map cache_event_of evs)) of
        Some (Inl (x, k', w)) \<Rightarrow> Some w | _ \<Rightarrow> None)"
  by (induction evs)
    (auto simp: find_append cache_event_of_def split: option.splits sum.splits cache_event.splits dest!: find_eq_SomeD)

text \<open>
  C19. The latency cache is coherent: after every history of measurements and evictions,
  whatever the clock did, an answer for a node is the latency that was measured last
  for its address, and a measurement is found right after it was inserted; the cache
  stays within its capacity.
\<close>

theorem latency_cache_coherent:
  fixes cap evs
  defines "c \<equiv> cache_run evs (meridian_latency_cache_create cap)"
  shows "(meridian_latency_cache_get c node = Some v \<longrightarrow> last_measured (n_addr node, n_port node) evs = Some v)
    \<and> meridian_latency_cache_get (snd (meridian_latency_cache_insert now0 now c node v)) node = Some v
    \<and> length (mc_entries c) \<le> mc_capacity c"
proof -
  let ?k = "(n_addr node, n_port node)" and ?c0 = "meridian_latency_cache_create cap"
  have c: "c = fold latency.step (map cache_event_of evs) ?c0" by (simp add: c_def cache_run_steps)
  have ok: "cache_ok c" unfolding c by (rule latency.invar_steps [OF cache_ok_create])
  have "last_measured ?k evs = Some v" if "cache_lookup c ?k = Some v"
    using latency.answers_last_put [OF cache_ok_create that [unfolded c]]
    by (auto simp: last_measured_find cache_lookup_def meridian_latency_cache_create_def
        split: option.splits sum.splits)
  then show ?thesis
    using ok by (auto simp: cache_get cache_insert cache_get_put cache_ok_def)
qed

theorem latency_cache_coherent_witness:
  "let n = meridian_node_create 1 1 None; t = \<lparr>tv_sec = 0, tv_usec = 0\<rparr>;
       c = cache_run [Measured t t n 7, Evict t] (meridian_latency_cache_create 1)
   in meridian_latency_cache_get c n = Some 7
      \<and> last_measured (n_addr n, n_port n) [Measured t t n 7, Evict t] = Some 7"
  using latency_cache_coherent [of "[Measured \<lparr>tv_sec = 0, tv_usec = 0\<rparr> \<lparr>tv_sec = 0, tv_usec = 0\<rparr>
        (meridian_node_create 1 1 None) 7, Evict \<lparr>tv_sec = 0, tv_usec = 0\<rparr>]" 1 "meridian_node_create 1 1 None" 7]
  by (simp add: cache_run_def meridian_latency_cache_create_def meridian_latency_cache_insert_def
      meridian_latency_cache_get_def meridian_latency_cache_evict_expired_def fresh_entry_def timersub_def
      MERIDIAN_PROBE_CACHE_TIMEOUT_US_def meridian_node_create_def Let_def)

text \<open>
  C32. A tick of the query table loses nothing: whenever it returns, the queries it hands
  out and those it keeps are together the queries of the table. When no deadline
  passes while it runs, it hands out exactly the expired ones, in order.
\<close>

theorem query_tick_partition:
  "(meridian_query_table_tick clock t = Ret (rc, expired, t') \<longrightarrow>
      rc = 0 \<and> mset expired + mset (mqt_queries t') = mset (mqt_queries t))
   \<and> ((\<forall>q \<in> set (mqt_queries t). \<forall>i. meridian_query_is_expired (clock i) q = meridian_query_is_expired (clock 0) q) \<longrightarrow>
      meridian_query_table_tick clock t =
        Ret (0, filter (meridian_query_is_expired (clock 0)) (mqt_queries t),
             t\<lparr>mqt_queries := filter (\<lambda>q. \<not> meridian_query_is_expired (clock 0) q) (mqt_queries t)\<rparr>))"
proof (intro conjI impI)
  let ?qs = "mqt_queries t"
  assume tick: "meridian_query_table_tick clock t = Ret (rc, expired, t')"
  obtain ex kept where split: "split_expired clock (length ?qs) ?qs = (ex, kept)" by fastforce
  have "mset ex + mset kept = mset ?qs" using split_expired_mset [of clock "length ?qs" ?qs] by (simp add: split)
  moreover from tick have "Ret (rc, expired, t') = (if count_expired clock 0 ?qs = 0 then Ret (0, [], t)
      else if length ex > count_expired clock 0 ?qs then Undef else Ret (0, ex, t\<lparr>mqt_queries := kept\<rparr>))"
    by (simp only: meridian_query_table_tick_def Let_def split prod.case)
  ultimately show "rc = 0" "mset expired + mset (mqt_queries t') = mset ?qs"
    by (auto split: if_splits)
next
  let ?P = "meridian_query_is_expired (clock 0)" and ?qs = "mqt_queries t"
  assume stable: "\<forall>q \<in> set ?qs. \<forall>i. meridian_query_is_expired (clock i) q = ?P q"
  then have split: "split_expired clock i ?qs = (filter ?P ?qs, filter (\<lambda>q. \<not> ?P q) ?qs)" for i
    by (intro split_expired_filter) blast
  have count: "count_expired clock 0 ?qs = length (filter ?P ?qs)"
    using split_expired_length [of clock 0 ?qs] by (simp add: split)
  show "meridian_query_table_tick clock t = Ret (0, filter ?P ?qs, t\<lparr>mqt_queries := filter (\<lambda>q. \<not> ?P q) ?qs\<rparr>)"
  proof (cases "filter ?P ?qs = []")
    case True
    then have "filter (\<lambda>q. \<not> ?P q) ?qs = ?qs" by (auto simp: filter_empty_conv)
    with True show ?thesis by (simp add: meridian_query_table_tick_def count)
  qed (simp add: meridian_query_table_tick_def count split Let_def)
qed

theorem query_tick_partition_witness:
  "let q = (\<lambda>i. meridian_query_create \<lparr>tv_sec = 10, tv_usec = 0\<rparr> i MERIDIAN_QUERY_TYPE_MEASURE 500)
   in meridian_query_table_tick (\<lambda>_. \<lparr>tv_sec = 12, tv_usec = 0\<rparr>) \<lparr>mqt_queries = [q 1, q 2], mqt_capacity = 64\<rparr>
      = Ret (0, [q 1, q 2], \<lparr>mqt_queries = [], mqt_capacity = 64\<rparr>)"
proof -
  let ?q = "\<lambda>i. meridian_query_create \<lparr>tv_sec = 10, tv_usec = 0\<rparr> i MERIDIAN_QUERY_TYPE_MEASURE 500"
  let ?t = "\<lparr>mqt_queries = [?q 1, ?q 2], mqt_capacity = 64\<rparr>" and ?now = "\<lparr>tv_sec = 12, tv_usec = 0\<rparr>"
  have "meridian_query_is_expired ?now (?q i)" for i
    by (simp add: expired_create deadline_passed_def timer_less_def timeradd_def timeval_of_ms_def)
  then show ?thesis
    using conjunct2 [OF query_tick_partition [of "\<lambda>_. ?now" ?t]] by (simp add: Let_def)
qed

text \<open>
  The table asks the clock again when it moves the expired queries: a query whose
  deadline passes between the two passes is written past the end of the array that
  was allocated for the first count.
\<close>

theorem query_tick_overruns:
  assumes "meridian_query_is_expired (clock 0) q1" "\<not> meridian_query_is_expired (clock 1) q2"
    and "meridian_query_is_expired (clock 2) q1" "meridian_query_is_expired (clock 3) q2"
  shows "meridian_query_table_tick clock \<lparr>mqt_queries = [q1, q2], mqt_capacity = cap\<rparr> = Undef"
  using assms by (simp add: meridian_query_table_tick_def Let_def numeral_2_eq_2 numeral_3_eq_3)

theorem query_tick_overruns_witness:
  "let q = (\<lambda>ms. meridian_query_create \<lparr>tv_sec = 10, tv_usec = 0\<rparr> 1 MERIDIAN_QUERY_TYPE_MEASURE ms);
       clock = (\<lambda>i. \<lparr>tv_sec = 12, tv_usec = int i\<rparr>)
   in meridian_query_table_tick clock \<lparr>mqt_queries = [q 500, (q 2000)\<lparr>mq_timeout := \<lparr>tv_sec = 2, tv_usec = 1\<rparr>\<rparr>], mqt_capacity = 64\<rparr>
      = Undef"
  unfolding Let_def
  by (rule query_tick_overruns)
    (simp_all add: meridian_query_is_expired_def deadline_passed_def timer_less_def timeradd_def
      meridian_query_create_def timeval_of_ms_def Let_def)

text \<open>
  The closest target is a target with the least entry in the latency array; the
  entry of a target that was not measured is 0, so it is taken for the closest.
\<close>

theorem query_closest_least:
  assumes "mq_targets q \<noteq> []"
  shows "\<exists>i < length (mq_targets q). meridian_query_get_closest q = Some (mq_targets q ! i)
    \<and> (\<forall>j < length (mq_targets q). mq_latencies q ! i \<le> mq_latencies q ! j)"
proof -
  let ?n = "length (mq_targets q)" and ?l = "mq_latencies q"
  let ?i = "closest_from ?l 0 (?l ! 0) [1..<?n]"
  have "j \<in> insert 0 (set [1..<?n])" if "j < ?n" for j using that by auto
  then have "\<forall>j < ?n. ?l ! ?i \<le> ?l ! j" using closest_from_least(2) [of "?l ! 0" ?l 0 "[1..<?n]"] by blast
  moreover have "?i < ?n" using closest_from_least(1) [of "?l ! 0" ?l 0 "[1..<?n]"] assms by auto
  ultimately show ?thesis using assms by (auto simp: meridian_query_get_closest_def Let_def)
qed

theorem query_closest_least_witness:
  "let n = (\<lambda>a. meridian_node_create a 1 None);
       q = snd (meridian_query_set_latency (meridian_closest_query_create \<lparr>tv_sec = 0, tv_usec = 0\<rparr> 1 None [n 1, n 2] 100) 0 50)
   in \<exists>i < 2. meridian_query_get_closest q = Some (mq_targets q ! i) \<and> mq_latencies q ! i = 0"
proof -
  let ?n = "\<lambda>a. meridian_node_create a 1 None"
  let ?q = "snd (meridian_query_set_latency
    (meridian_closest_query_create \<lparr>tv_sec = 0, tv_usec = 0\<rparr> 1 None [?n 1, ?n 2] 100) 0 50)"
  have q: "mq_targets ?q = [?n 1, ?n 2]" "mq_latencies ?q ! 1 = 0"
    by (simp_all add: meridian_query_set_latency_def meridian_closest_query_create_def add_targets_def
        meridian_query_create_def meridian_query_add_target_def MERIDIAN_QUERY_MAX_TARGETS_def)
  have "mq_targets ?q \<noteq> []" by (simp add: q(1))
  from query_closest_least [OF this] obtain i where i: "i < length (mq_targets ?q)"
    "meridian_query_get_closest ?q = Some (mq_targets ?q ! i)"
    "\<forall>j < length (mq_targets ?q). mq_latencies ?q ! i \<le> mq_latencies ?q ! j" by blast
  have "mq_latencies ?q ! i \<le> mq_latencies ?q ! 1" using i(3) by (simp add: q(1))
  then have "mq_latencies ?q ! i = 0" unfolding q(2) by simp
  moreover have "i < 2" using i(1) by (simp add: q(1))
  ultimately show ?thesis unfolding Let_def using i(2) by blast
qed

end
