(* ===== verification/MeridianGossip.thy ===== *)
theory MeridianGossip
  imports MeridianQuery Channel
begin

text \<open>
  Gossip exchanges of the overlay (\<open>src/Network/Meridian/meridian_gossip.c\<close>): the
  state of one exchange, the two-phase scheduler and the handle that sends and receives
  gossip packets. The two callbacks of the handle are those the protocol object
  installs; the handle returns the calls it makes of them: the packets for
  \<open>outbound_cb\<close>, in order, and the peers for \<open>completed_cb\<close>. \<open>ptr i\<close> is the address of
  the \<open>i\<close>-th target, whose low 32 bits go into the query identifier.
\<close>

section \<open>One exchange\<close>

datatype meridian_gossip_state =
    MERIDIAN_GOSSIP_STATE_INIT | MERIDIAN_GOSSIP_STATE_ACTIVE | MERIDIAN_GOSSIP_STATE_WAIT_REPLY

record meridian_gossip =
  go_query_id :: u64
  go_state :: meridian_gossip_state
  go_target :: meridian_node
  go_start_time :: timeval
  go_reply_timeout :: timeval
  go_gossip_interval_s :: u32
  go_steady_state_interval_s :: u32
  go_active :: bool

definition meridian_gossip_create :: "timeval \<Rightarrow> u64 \<Rightarrow> meridian_node option \<Rightarrow> u32 \<Rightarrow> meridian_gossip option" where
  "meridian_gossip_create now query_id target timeout_ms =
     (case target of
        None \<Rightarrow> None
      | Some t \<Rightarrow>
          Some \<lparr>go_query_id = query_id, go_state = MERIDIAN_GOSSIP_STATE_INIT, go_target = t,
                go_start_time = now, go_reply_timeout = timeval_of_ms timeout_ms,
                go_gossip_interval_s = 5, go_steady_state_interval_s = 5, go_active = False\<rparr>)"

definition meridian_gossip_start :: "meridian_gossip \<Rightarrow> int \<times> meridian_gossip" where
  "meridian_gossip_start gossip = (0, gossip\<lparr>go_active := True, go_state := MERIDIAN_GOSSIP_STATE_ACTIVE\<rparr>)"

definition meridian_gossip_is_expired :: "timeval \<Rightarrow> meridian_gossip \<Rightarrow> bool" where
  "meridian_gossip_is_expired now gossip = deadline_passed (go_start_time gossip) (go_reply_timeout gossip) now"

definition meridian_gossip_handle_response :: "meridian_gossip \<Rightarrow> meridian_gossip" where
  "meridian_gossip_handle_response gossip =
     (if go_state gossip = MERIDIAN_GOSSIP_STATE_WAIT_REPLY
      then gossip\<lparr>go_state := MERIDIAN_GOSSIP_STATE_ACTIVE\<rparr> else gossip)"

definition meridian_gossip_build_packet :: "meridian_gossip \<Rightarrow> meridian_gossip_packet" where
  "meridian_gossip_build_packet gossip =
     (let pkt = meridian_gossip_packet_create
      in meridian_gossip_packet_add_target
           (pkt\<lparr>gp_base := (gp_base pkt)\<lparr>mp_query_id := go_query_id gossip,
                                         mp_rendv_addr := n_rendv_addr (go_target gossip),
                                         mp_rendv_port := n_rendv_port (go_target gossip)\<rparr>\<rparr>)
           (go_target gossip))"

section \<open>The scheduler\<close>

record meridian_gossip_scheduler =
  gs_init_interval_s :: u32
  gs_num_init_intervals :: u32
  gs_steady_state_interval_s :: u32
  gs_interval_idx :: u32
  gs_is_initial_phase :: bool
  gs_last_gossip :: timeval

definition meridian_gossip_scheduler_create ::
  "timeval \<Rightarrow> u32 \<Rightarrow> u32 \<Rightarrow> u32 \<Rightarrow> meridian_gossip_scheduler" where
  "meridian_gossip_scheduler_create now init_interval_s num_init_intervals steady_state_interval_s =
     \<lparr>gs_init_interval_s = init_interval_s, gs_num_init_intervals = num_init_intervals,
      gs_steady_state_interval_s = steady_state_interval_s, gs_interval_idx = 0,
      gs_is_initial_phase = True, gs_last_gossip = now\<rparr>"

definition gossip_interval :: "meridian_gossip_scheduler \<Rightarrow> timeval" where
  "gossip_interval sched =
     \<lparr>tv_sec = uint (if gs_is_initial_phase sched then gs_init_interval_s sched
                     else gs_steady_state_interval_s sched), tv_usec = 0\<rparr>"

definition meridian_gossip_scheduler_tick ::
  "timeval \<Rightarrow> meridian_gossip_scheduler \<Rightarrow> bool \<times> meridian_gossip_scheduler" where
  "meridian_gossip_scheduler_tick now sched =
     (let next_gossip = timeradd (gs_last_gossip sched) (gossip_interval sched)
      in if timer_ge now next_gossip then
           (True,
            let sched1 = sched\<lparr>gs_last_gossip := now\<rparr>
            in if gs_is_initial_phase sched1 then
                 let sched2 = sched1\<lparr>gs_interval_idx := gs_interval_idx sched1 + 1\<rparr>
                 in if gs_interval_idx sched2 \<ge> gs_num_init_intervals sched2
                    then sched2\<lparr>gs_is_initial_phase := False\<rparr> else sched2
               else sched1)
         else (False, sched))"

definition meridian_gossip_scheduler_set_steady_state ::
  "meridian_gossip_scheduler \<Rightarrow> u32 \<Rightarrow> int \<times> meridian_gossip_scheduler" where
  "meridian_gossip_scheduler_set_steady_state sched interval_s = (0, sched\<lparr>gs_steady_state_interval_s := interval_s\<rparr>)"

section \<open>The handle\<close>

record meridian_gossip_config =
  gc_init_interval_s :: u32
  gc_num_init_intervals :: u32
  gc_steady_state_interval_s :: u32
  gc_timeout_ms :: u32

record meridian_gossip_handle =
  gh_config :: meridian_gossip_config
  gh_scheduler :: meridian_gossip_scheduler
  gh_query_table :: meridian_query_table
  gh_active_gossips :: "meridian_gossip list"
  gh_running :: bool

definition meridian_gossip_handle_create :: "timeval \<Rightarrow> meridian_gossip_config \<Rightarrow> meridian_gossip_handle" where
  "meridian_gossip_handle_create now config =
     \<lparr>gh_config = config,
      gh_scheduler = meridian_gossip_scheduler_create now (gc_init_interval_s config)
                       (gc_num_init_intervals config) (gc_steady_state_interval_s config),
      gh_query_table = meridian_query_table_create 64, gh_active_gossips = [], gh_running = False\<rparr>"

definition meridian_gossip_handle_start :: "meridian_gossip_handle \<Rightarrow> int \<times> meridian_gossip_handle" where
  "meridian_gossip_handle_start handle = (0, handle\<lparr>gh_running := True\<rparr>)"

definition meridian_gossip_handle_stop :: "meridian_gossip_handle \<Rightarrow> int \<times> meridian_gossip_handle" where
  "meridian_gossip_handle_stop handle = (0, handle\<lparr>gh_running := False\<rparr>)"

text \<open>The status, the handle and the peers given to \<open>completed_cb\<close>, if it is called.\<close>

definition meridian_gossip_handle_on_packet ::
  "(nat \<Rightarrow> bool) \<Rightarrow> meridian_gossip_handle \<Rightarrow> bytes \<Rightarrow> (int \<times> meridian_gossip_handle \<times> meridian_node list) cres" where
  "meridian_gossip_handle_on_packet malloc handle data =
     (case cbor_load_item malloc data of
        None \<Rightarrow> Ret (- 1, handle, [])
      | Some item \<Rightarrow>
          (case cbind (cbor_definite_elems item) (\<lambda>items. cguard (length items \<ge> 1) (cbor_get_uint8 (items ! 0))) of
             Undef \<Rightarrow> Undef
           | Fail \<Rightarrow> Ret (- 1, handle, [])
           | Ret type \<Rightarrow>
               if type = MERIDIAN_PACKET_TYPE_GOSSIP then
                 (case meridian_gossip_decode item of
                    Undef \<Rightarrow> Undef
                  | Fail \<Rightarrow> Ret (- 1, handle, [])
                  | Ret pkt \<Rightarrow>
                      Ret (0, handle\<lparr>gh_active_gossips :=
                               update_first (\<lambda>g. go_query_id g = mp_query_id (gp_base pkt))
                                 meridian_gossip_handle_response (gh_active_gossips handle)\<rparr>,
                           gp_targets pkt))
               else Ret (- 1, handle, [])))"

definition gossip_query_id :: "(nat \<Rightarrow> u64) \<Rightarrow> nat \<Rightarrow> u64" where
  "gossip_query_id ptr i = or (push_bit 32 (of_nat i + 1)) (and (ptr i) 0xFFFFFFFF)"

text \<open>One round of the loop: the packet handed to \<open>outbound_cb\<close>, if any, and the exchange that is tracked.\<close>

definition gossip_to ::
  "(nat \<Rightarrow> bool) \<Rightarrow> timeval \<Rightarrow> u32 \<Rightarrow> u64 \<Rightarrow> meridian_node option \<Rightarrow> (bytes \<times> meridian_node) list \<times> meridian_gossip list" where
  "gossip_to malloc now timeout_ms qid target =
     (case meridian_gossip_create now qid target timeout_ms of
        None \<Rightarrow> ([], [])
      | Some gossip \<Rightarrow>
          (case meridian_gossip_encode (meridian_gossip_build_packet gossip) of
             None \<Rightarrow> []
           | Some encoded \<Rightarrow>
               (case cbor_serialize_alloc malloc encoded of
                  None \<Rightarrow> []
                | Some buffer \<Rightarrow> [(buffer, go_target gossip)]),
           [gossip]))"

definition meridian_gossip_handle_send_gossip ::
  "(nat \<Rightarrow> bool) \<Rightarrow> (nat \<Rightarrow> u64) \<Rightarrow> (nat \<Rightarrow> timeval) \<Rightarrow> meridian_gossip_handle \<Rightarrow> meridian_node option list
     \<Rightarrow> int \<times> meridian_gossip_handle \<times> (bytes \<times> meridian_node) list" where
  "meridian_gossip_handle_send_gossip malloc ptr clock handle targets =
     (if targets = [] then (- 1, handle, [])
      else
        let rounds = map (\<lambda>i. gossip_to malloc (clock i) (gc_timeout_ms (gh_config handle))
                                (gossip_query_id ptr i) (targets ! i)) [0..<length targets]
        in (0, handle\<lparr>gh_active_gossips := gh_active_gossips handle @ concat (map snd rounds)\<rparr>,
            concat (map fst rounds)))"

section \<open>Properties\<close>

text \<open>A run of the scheduler over the instants of its ticks: the instants at which it asked to gossip.\<close>

fun scheduler_run :: "meridian_gossip_scheduler \<Rightarrow> timeval list \<Rightarrow> timeval list \<times> meridian_gossip_scheduler" where
  "scheduler_run sched [] = ([], sched)"
| "scheduler_run sched (now # nows) =
     (let (due, sched1) = meridian_gossip_scheduler_tick now sched;
          (ts, sched2) = scheduler_run sched1 nows
      in (if due then now # ts else ts, sched2))"

text \<open>The number of gossips the initial phase still has to see.\<close>

definition init_left :: "meridian_gossip_scheduler \<Rightarrow> nat" where
  "init_left sched =
     (if gs_is_initial_phase sched then max 1 (unat (gs_num_init_intervals sched) - unat (gs_interval_idx sched)) else 0)"

definition sched_ok :: "meridian_gossip_scheduler \<Rightarrow> bool" where
  "sched_ok sched \<longleftrightarrow> tv_ok (gs_last_gossip sched)
     \<and> (gs_is_initial_phase sched \<longrightarrow>
          gs_interval_idx sched = 0 \<or> unat (gs_interval_idx sched) < unat (gs_num_init_intervals sched))"

lemma gossip_interval_ok: "tv_ok (gossip_interval sched)"
  by (simp add: gossip_interval_def tv_ok_def)

lemma tick_due_iff:
  assumes "sched_ok sched" "tv_ok now"
  shows "fst (meridian_gossip_scheduler_tick now sched) \<longleftrightarrow>
    usecs (gs_last_gossip sched) + usecs (gossip_interval sched) \<le> usecs now"
  using assms gossip_interval_ok [of sched]
  by (simp add: meridian_gossip_scheduler_tick_def Let_def timer_ge_iff tv_ok_timeradd usecs_timeradd sched_ok_def)

lemma init_left_pos: "0 < init_left sched \<longleftrightarrow> gs_is_initial_phase sched"
  by (auto simp: init_left_def max_def)

lemma tick_not_due: "\<not> fst (meridian_gossip_scheduler_tick now sched) \<Longrightarrow> snd (meridian_gossip_scheduler_tick now sched) = sched"
  by (simp add: meridian_gossip_scheduler_tick_def Let_def split: if_splits)

lemma tick_due:
  assumes "sched_ok sched" "tv_ok now" "fst (meridian_gossip_scheduler_tick now sched)"
  defines "sched' \<equiv> snd (meridian_gossip_scheduler_tick now sched)"
  shows "sched_ok sched'" "init_left sched' = init_left sched - 1" "gs_last_gossip sched' = now"
    "gs_init_interval_s sched' = gs_init_interval_s sched" "gs_steady_state_interval_s sched' = gs_steady_state_interval_s sched"
proof -
  have ge: "timer_ge now (timeradd (gs_last_gossip sched) (gossip_interval sched))"
    using assms(3) by (simp add: meridian_gossip_scheduler_tick_def Let_def split: if_splits)
  have idx: "unat (gs_interval_idx sched + 1) = unat (gs_interval_idx sched) + 1" if "gs_is_initial_phase sched"
  proof -
    have "unat (gs_interval_idx sched) + 1 < 2 ^ 32"
      using that assms(1) unat_u32_less [of "gs_num_init_intervals sched"] by (auto simp: sched_ok_def)
    then show ?thesis by (simp add: unat_word_ariths)
  qed
  note tick = sched'_def meridian_gossip_scheduler_tick_def Let_def ge
  show "gs_last_gossip sched' = now" "gs_init_interval_s sched' = gs_init_interval_s sched"
    "gs_steady_state_interval_s sched' = gs_steady_state_interval_s sched"
    by (simp_all add: tick)
  show "sched_ok sched'"
    using assms(1,2) idx by (auto simp: tick sched_ok_def word_le_nat_alt not_le)
  show "init_left sched' = init_left sched - 1"
    using idx by (auto simp: tick init_left_def word_le_nat_alt not_le max_def)
qed

lemma scheduler_run_ok:
  assumes "sched_ok sched" "list_all tv_ok nows" "scheduler_run sched nows = (ts, sched')"
  shows "sched_ok sched' \<and> init_left sched' = init_left sched - length ts
    \<and> gs_last_gossip sched' = last (gs_last_gossip sched # ts)
    \<and> gs_init_interval_s sched' = gs_init_interval_s sched
    \<and> gs_steady_state_interval_s sched' = gs_steady_state_interval_s sched
    \<and> (\<forall>i < length ts. usecs ((gs_last_gossip sched # ts) ! i)
         + uint (if i < init_left sched then gs_init_interval_s sched else gs_steady_state_interval_s sched) * 1000000
         \<le> usecs (ts ! i))"
  using assms
proof (induction sched nows arbitrary: ts rule: scheduler_run.induct)
  case (2 sched now nows)
  obtain due sched1 where tick: "meridian_gossip_scheduler_tick now sched = (due, sched1)" by fastforce
  obtain ts1 where run: "scheduler_run sched1 nows = (ts1, sched')" "ts = (if due then now # ts1 else ts1)"
    using "2.prems"(3) tick by (auto split: prod.splits)
  show ?case
  proof (cases due)
    case False
    then have eq: "sched1 = sched" "ts = ts1" using tick_not_due [of now sched] tick run(2) by simp_all
    show ?thesis
      using "2.IH" [OF tick [symmetric] refl _ _ run(1)] "2.prems"(1,2) unfolding eq by simp
  next
    case True
    have s1: "sched_ok sched1" "init_left sched1 = init_left sched - 1" "gs_last_gossip sched1 = now"
      "gs_init_interval_s sched1 = gs_init_interval_s sched" "gs_steady_state_interval_s sched1 = gs_steady_state_interval_s sched"
      using tick_due [OF "2.prems"(1), of now] "2.prems"(2) tick True by simp_all
    have IH: "sched_ok sched' \<and> init_left sched' = init_left sched1 - length ts1
      \<and> gs_last_gossip sched' = last (now # ts1)
      \<and> gs_init_interval_s sched' = gs_init_interval_s sched \<and> gs_steady_state_interval_s sched' = gs_steady_state_interval_s sched
      \<and> (\<forall>i < length ts1. usecs ((now # ts1) ! i)
         + uint (if i < init_left sched - 1 then gs_init_interval_s sched else gs_steady_state_interval_s sched) * 1000000
         \<le> usecs (ts1 ! i))"
      using "2.IH" [OF tick [symmetric] refl s1(1) _ run(1)] "2.prems"(2) unfolding s1(2-5) by simp
    have "usecs (gs_last_gossip sched)
        + uint (if 0 < init_left sched then gs_init_interval_s sched else gs_steady_state_interval_s sched) * 1000000 \<le> usecs now"
      using tick_due_iff [OF "2.prems"(1), of now] "2.prems"(2) tick True init_left_pos [of sched]
      by (simp add: gossip_interval_def usecs_def)
    then show ?thesis
      using IH True run(2) s1(2) by (auto simp: All_less_Suc2 less_diff_conv)
  qed
qed simp

text \<open>
  C21. The gossip schedule: whatever the instants of the ticks, the first gossip comes no
  sooner than the initial interval after the start and each further one no sooner than
  its interval after the one before; the initial interval rules exactly the configured
  number of gossips (one when it is configured as 0) and the steady interval all
  others; and a tick gossips as soon as its interval is over.
\<close>

theorem gossip_schedule:
  assumes "tv_ok start" "list_all tv_ok nows" "tv_ok now"
    and "scheduler_run (meridian_gossip_scheduler_create start init num steady) nows = (ts, sched)"
  shows "(\<forall>i < length ts. usecs ((start # ts) ! i) + uint (if i < max 1 (unat num) then init else steady) * 1000000
           \<le> usecs (ts ! i))
    \<and> (fst (meridian_gossip_scheduler_tick now sched) \<longleftrightarrow>
        usecs (last (start # ts)) + uint (if length ts < max 1 (unat num) then init else steady) * 1000000 \<le> usecs now)"
proof -
  let ?s = "meridian_gossip_scheduler_create start init num steady"
  have s: "sched_ok ?s" "init_left ?s = max 1 (unat num)" "gs_last_gossip ?s = start"
    "gs_init_interval_s ?s = init" "gs_steady_state_interval_s ?s = steady"
    using assms(1) by (simp_all add: sched_ok_def init_left_def meridian_gossip_scheduler_create_def)
  note run = scheduler_run_ok [OF s(1) assms(2,4), unfolded s(2-5)]
  have "gs_is_initial_phase sched \<longleftrightarrow> length ts < max 1 (unat num)"
    using run init_left_pos [of sched] by (metis zero_less_diff)
  then show ?thesis
    using run tick_due_iff [of sched now] assms(3) by (simp add: gossip_interval_def usecs_def [of "\<lparr>tv_sec = _, tv_usec = _\<rparr>"])
qed

theorem gossip_schedule_witness:
  "let t = (\<lambda>s. \<lparr>tv_sec = s, tv_usec = 0\<rparr>);
       sched = snd (scheduler_run (meridian_gossip_scheduler_create (t 0) 1 2 5) [t 1, t 2, t 3])
   in \<not> fst (meridian_gossip_scheduler_tick (t 6) sched) \<and> fst (meridian_gossip_scheduler_tick (t 7) sched)"
proof -
  let ?t = "\<lambda>s. \<lparr>tv_sec = s, tv_usec = 0\<rparr>"
  let ?run = "scheduler_run (meridian_gossip_scheduler_create (?t 0) 1 2 5) [?t 1, ?t 2, ?t 3]"
  have run: "fst ?run = [?t 1, ?t 2]" by code_simp
  have "fst (meridian_gossip_scheduler_tick (?t s) (snd ?run)) \<longleftrightarrow> 7 \<le> s" for s
    using gossip_schedule [of "?t 0" "[?t 1, ?t 2, ?t 3]" "?t s" 1 2 5 "[?t 1, ?t 2]" "snd ?run"] run
    by (simp add: tv_ok_def usecs_def prod_eq_iff)
  then show ?thesis unfolding Let_def by simp
qed

end
