(* ===== verification/MeridianRing.thy ===== *)
theory MeridianRing
  imports Packet
begin

text \<open>
  The latency rings of the overlay (\<open>src/Network/Meridian/meridian_ring.c\<close>): nodes
  are kept in ten rings by the logarithm of their latency, each with a primary list
  and a secondary one. \<open>bucket latency base\<close> is the value of the C expression
  \<open>(int) floor(log(latency) / log(base))\<close>, whatever the floating point library makes
  of it (for latency 0 the conversion of minus infinity has no defined value). Ring
  sizes are \<open>uint32_t\<close>, which the code compares with \<open>int\<close> lengths, now as signed and
  now as unsigned numbers.
\<close>

type_synonym bucket_fn = "u32 \<Rightarrow> int \<Rightarrow> int"

record meridian_ring =
  ring_primary :: "meridian_node list"
  ring_secondary :: "meridian_node list"
  ring_frozen :: bool
  ring_latency_min_us :: u32
  ring_latency_max_us :: u32

record meridian_ring_set =
  rs_primary_ring_size :: u32
  rs_secondary_ring_size :: u32
  rs_exponent_base :: int
  rs_rings :: "meridian_ring list"

definition meridian_ring_set_create :: "u32 \<Rightarrow> u32 \<Rightarrow> int \<Rightarrow> meridian_ring_set" where
  "meridian_ring_set_create primary_size secondary_size exponent_base =
     \<lparr>rs_primary_ring_size = primary_size, rs_secondary_ring_size = secondary_size,
      rs_exponent_base = exponent_base,
      rs_rings = replicate MERIDIAN_MAX_RINGS
        \<lparr>ring_primary = [], ring_secondary = [], ring_frozen = False,
         ring_latency_min_us = 0, ring_latency_max_us = 0\<rparr>\<rparr>"

definition node_identity_match :: "meridian_node \<Rightarrow> meridian_node \<Rightarrow> bool" where
  "node_identity_match a b =
     (if \<not> poseidon_node_id_is_null (Some (n_id a)) \<and> \<not> poseidon_node_id_is_null (Some (n_id b))
      then meridian_node_equals_by_id (Some a) (Some b)
      else meridian_node_equals_by_addr (Some a) (Some b))"

definition meridian_ring_set_get_ring :: "bucket_fn \<Rightarrow> meridian_ring_set \<Rightarrow> u32 \<Rightarrow> int" where
  "meridian_ring_set_get_ring bucket rset latency_us =
     (if rs_exponent_base rset \<le> 0 then 0
      else let ring = bucket latency_us (rs_exponent_base rset)
           in if ring < 0 then 0
              else if ring \<ge> int MERIDIAN_MAX_RINGS then int MERIDIAN_MAX_RINGS - 1 else ring)"

text \<open>The node goes to the end of the primary list, then of the secondary one, while there is room.\<close>

definition ring_add :: "u32 \<Rightarrow> u32 \<Rightarrow> meridian_node \<Rightarrow> meridian_ring \<Rightarrow> meridian_ring option" where
  "ring_add primary_size secondary_size node ring =
     (if int (length (ring_primary ring)) < sint primary_size
      then Some (ring\<lparr>ring_primary := ring_primary ring @ [node]\<rparr>)
      else if int (length (ring_secondary ring)) < sint secondary_size
      then Some (ring\<lparr>ring_secondary := ring_secondary ring @ [node]\<rparr>)
      else None)"

definition meridian_ring_set_insert ::
  "bucket_fn \<Rightarrow> meridian_ring_set \<Rightarrow> meridian_node \<Rightarrow> u32 \<Rightarrow> int \<times> meridian_ring_set" where
  "meridian_ring_set_insert bucket rset node latency_us =
     (let ring_num = meridian_ring_set_get_ring bucket rset latency_us
      in if ring_num < 0 \<or> ring_num \<ge> int MERIDIAN_MAX_RINGS then (- 1, rset)
         else let ring = rs_rings rset ! nat ring_num
              in if ring_frozen ring then (- 1, rset)
                 else case ring_add (rs_primary_ring_size rset) (rs_secondary_ring_size rset) node ring of
                        None \<Rightarrow> (- 1, rset)
                      | Some ring' \<Rightarrow> (0, rset\<lparr>rs_rings := (rs_rings rset)[nat ring_num := ring']\<rparr>))"

text \<open>Removal from one ring: the first match in the primary list, else in the secondary one.\<close>

definition ring_erase :: "meridian_node \<Rightarrow> meridian_ring \<Rightarrow> meridian_ring option" where
  "ring_erase node ring =
     (let P = (\<lambda>n. node_identity_match n node)
      in if list_ex P (ring_primary ring)
         then Some (ring\<lparr>ring_primary := remove_first P (ring_primary ring)\<rparr>)
         else if list_ex P (ring_secondary ring)
         then Some (ring\<lparr>ring_secondary := remove_first P (ring_secondary ring)\<rparr>)
         else None)"

fun rings_erase :: "meridian_node \<Rightarrow> meridian_ring list \<Rightarrow> meridian_ring list option" where
  "rings_erase node [] = None"
| "rings_erase node (ring # rings) =
     (case ring_erase node ring of
        Some ring' \<Rightarrow> Some (ring' # rings)
      | None \<Rightarrow> map_option ((#) ring) (rings_erase node rings))"

definition meridian_ring_set_erase :: "meridian_ring_set \<Rightarrow> meridian_node \<Rightarrow> int \<times> meridian_ring_set" where
  "meridian_ring_set_erase rset node =
     (case rings_erase node (rs_rings rset) of
        None \<Rightarrow> (- 1, rset)
      | Some rings \<Rightarrow> (0, rset\<lparr>rs_rings := rings\<rparr>))"

definition valid_ring :: "int \<Rightarrow> bool" where
  "valid_ring ring_num \<longleftrightarrow> \<not> (ring_num < 0 \<or> ring_num \<ge> int MERIDIAN_MAX_RINGS)"

definition meridian_ring_set_erase_ring ::
  "meridian_ring_set \<Rightarrow> meridian_node \<Rightarrow> int \<Rightarrow> int \<times> meridian_ring_set" where
  "meridian_ring_set_erase_ring rset node ring_num =
     (if \<not> valid_ring ring_num then (- 1, rset)
      else case ring_erase node (rs_rings rset ! nat ring_num) of
             None \<Rightarrow> (- 1, rset)
           | Some ring \<Rightarrow> (0, rset\<lparr>rs_rings := (rs_rings rset)[nat ring_num := ring]\<rparr>))"

definition meridian_ring_set_find_closest :: "meridian_ring_set \<Rightarrow> meridian_node option" where
  "meridian_ring_set_find_closest rset =
     map_option (\<lambda>ring. ring_primary ring ! 0) (find (\<lambda>ring. length (ring_primary ring) > 0) (rs_rings rset))"

definition set_frozen :: "bool \<Rightarrow> meridian_ring_set \<Rightarrow> int \<Rightarrow> meridian_ring_set" where
  "set_frozen b rset ring_num =
     (if \<not> valid_ring ring_num then rset
      else rset\<lparr>rs_rings := (rs_rings rset)[nat ring_num := (rs_rings rset ! nat ring_num)\<lparr>ring_frozen := b\<rparr>]\<rparr>)"

definition meridian_ring_set_freeze :: "meridian_ring_set \<Rightarrow> int \<Rightarrow> meridian_ring_set" where
  "meridian_ring_set_freeze rset ring_num = set_frozen True rset ring_num"

definition meridian_ring_set_unfreeze :: "meridian_ring_set \<Rightarrow> int \<Rightarrow> meridian_ring_set" where
  "meridian_ring_set_unfreeze rset ring_num = set_frozen False rset ring_num"

text \<open>The nodes of a ring that are no rendezvous points.\<close>

definition eligible_count :: "meridian_ring \<Rightarrow> nat" where
  "eligible_count ring =
     length (filter (\<lambda>n. n_flags n \<noteq> MERIDIAN_NODE_FLAG_RENDEZVOUS) (ring_primary ring))
     + length (filter (\<lambda>n. n_flags n \<noteq> MERIDIAN_NODE_FLAG_RENDEZVOUS) (ring_secondary ring))"

definition meridian_ring_set_eligible_for_replacement :: "meridian_ring_set \<Rightarrow> int \<Rightarrow> bool" where
  "meridian_ring_set_eligible_for_replacement rset ring_num =
     (valid_ring ring_num
      \<and> (let ring = rs_rings rset ! nat ring_num
         in \<not> ring_frozen ring
            \<and> int (length (ring_primary ring)) = sint (rs_primary_ring_size rset)
            \<and> length (ring_secondary ring) \<noteq> 0
            \<and> int (eligible_count ring) > sint (rs_primary_ring_size rset)))"

definition meridian_ring_set_promote_secondary :: "meridian_ring_set \<Rightarrow> int \<Rightarrow> int \<times> meridian_ring_set" where
  "meridian_ring_set_promote_secondary rset ring_num =
     (if \<not> valid_ring ring_num then (- 1, rset)
      else
        let ring = rs_rings rset ! nat ring_num
        in case ring_secondary ring of
             [] \<Rightarrow> (- 1, rset)
           | to_promote # rest \<Rightarrow>
               if length (ring_primary ring) \<ge> unat (rs_primary_ring_size rset) then (- 1, rset)
               else (0, rset\<lparr>rs_rings := (rs_rings rset)[nat ring_num :=
                      ring\<lparr>ring_secondary := rest, ring_primary := ring_primary ring @ [to_promote]\<rparr>]\<rparr>))"

section \<open>Contents of the rings\<close>

text \<open>
  What a ring set holds, as a multiset of nodes, and its invariant: ten rings whose
  lists respect the configured sizes.
\<close>

definition ring_nodes :: "meridian_ring \<Rightarrow> meridian_node multiset" where
  "ring_nodes ring = mset (ring_primary ring) + mset (ring_secondary ring)"

definition rs_nodes :: "meridian_ring_set \<Rightarrow> meridian_node multiset" where
  "rs_nodes rset = sum_list (map ring_nodes (rs_rings rset))"

definition ring_fits :: "u32 \<Rightarrow> u32 \<Rightarrow> meridian_ring \<Rightarrow> bool" where
  "ring_fits p s ring \<longleftrightarrow> length (ring_primary ring) \<le> unat p \<and> length (ring_secondary ring) \<le> unat s"

definition ring_set_ok :: "meridian_ring_set \<Rightarrow> bool" where
  "ring_set_ok rset \<longleftrightarrow> length (rs_rings rset) = MERIDIAN_MAX_RINGS
     \<and> list_all (ring_fits (rs_primary_ring_size rset) (rs_secondary_ring_size rset)) (rs_rings rset)"

lemma sint_bound: "int n < sint (p::u32) \<Longrightarrow> n < unat p"
proof -
  assume n: "int n < sint p"
  have "- (2 ^ 31) \<le> (0::int)" by simp
  then have "- (2 ^ 31) \<le> uint p" using uint_ge_0 [of p] by (rule order_trans)
  then have "sint p \<le> uint p" by (simp add: sint_uint signed_take_bit_int_less_eq_self_iff)
  with n have "int n < int (unat p)" by simp
  then show "n < unat p" by (simp only: of_nat_less_iff)
qed

lemma list_all_update: "list_all P xs \<Longrightarrow> P x \<Longrightarrow> list_all P (xs[i := x])"
  by (auto simp: list_all_iff dest: set_update_subset_insert [THEN subsetD])

lemma sum_list_update_mset:
  fixes f :: "'a \<Rightarrow> 'b multiset"
  assumes "i < length xs"
  shows "sum_list (map f (xs[i := x])) + f (xs ! i) = sum_list (map f xs) + f x"
  using assms by (induction xs arbitrary: i) (auto simp: ac_simps split: nat.splits)

lemma ex_nat_split: "(\<exists>i. P i) \<longleftrightarrow> P 0 \<or> (\<exists>i. P (Suc i))"
  by (metis nat.exhaust)

lemma get_ring_valid: "valid_ring (meridian_ring_set_get_ring bucket rset l)"
  by (simp add: meridian_ring_set_get_ring_def valid_ring_def MERIDIAN_MAX_RINGS_def Let_def)

lemma ring_add_Some:
  assumes "ring_add p s n ring = Some ring'"
  shows "ring_nodes ring' = add_mset n (ring_nodes ring)" "ring_fits p s ring \<Longrightarrow> ring_fits p s ring'"
  using assms
  by (auto simp: ring_add_def ring_nodes_def ring_fits_def Suc_le_eq split: if_splits dest: sint_bound)

lemma remove_first_mset:
  "list_ex P xs \<Longrightarrow> \<exists>x \<in> set xs. P x \<and> mset (remove_first P xs) = mset xs - {#x#}"
  by (induction xs) (auto simp: list_ex_iff)

lemma ring_erase_Some:
  assumes "ring_erase n ring = Some ring'"
  shows "\<exists>x. node_identity_match x n \<and> x \<in># ring_nodes ring \<and> ring_nodes ring' = ring_nodes ring - {#x#}"
    and "ring_fits p s ring \<Longrightarrow> ring_fits p s ring'"
proof -
  let ?P = "\<lambda>m. node_identity_match m n"
  consider "list_ex ?P (ring_primary ring)" "ring' = ring\<lparr>ring_primary := remove_first ?P (ring_primary ring)\<rparr>"
    | "list_ex ?P (ring_secondary ring)" "ring' = ring\<lparr>ring_secondary := remove_first ?P (ring_secondary ring)\<rparr>"
    using assms by (auto simp: ring_erase_def Let_def split: if_splits)
  then show "\<exists>x. node_identity_match x n \<and> x \<in># ring_nodes ring \<and> ring_nodes ring' = ring_nodes ring - {#x#}"
    by cases (drule remove_first_mset, force simp: ring_nodes_def)+
  show "ring_fits p s ring \<Longrightarrow> ring_fits p s ring'"
    using assms by (auto simp: ring_erase_def ring_fits_def Let_def length_remove_first split: if_splits)
qed

lemma ring_erase_None: "ring_erase n ring = None \<longleftrightarrow> (\<forall>x \<in># ring_nodes ring. \<not> node_identity_match x n)"
  by (auto simp: ring_erase_def ring_nodes_def Let_def list_ex_iff split: if_splits)

lemma rings_erase_Some:
  assumes "rings_erase n rings = Some rings'"
  shows "\<exists>x. node_identity_match x n \<and> x \<in># sum_list (map ring_nodes rings)
      \<and> sum_list (map ring_nodes rings') = sum_list (map ring_nodes rings) - {#x#}"
    and "length rings' = length rings \<and> (list_all (ring_fits p s) rings \<longrightarrow> list_all (ring_fits p s) rings')"
  using assms
proof (induction n rings arbitrary: rings' rule: rings_erase.induct)
  case (2 n ring rings)
  {
    case 1
    then show ?case
    proof (cases "ring_erase n ring")
      case None
      then obtain rs where rs: "rings_erase n rings = Some rs" "rings' = ring # rs" using 1 by auto
      from "2.IH"(1) [OF None rs(1)] obtain x where x: "node_identity_match x n"
        "x \<in># sum_list (map ring_nodes rings)"
        "sum_list (map ring_nodes rs) = sum_list (map ring_nodes rings) - {#x#}" by blast
      then show ?thesis
        using rs(2) diff_union_single_conv [OF x(2), of "ring_nodes ring"] by (intro exI [of _ x]) simp
    next
      case (Some ring1)
      then have "rings' = ring1 # rings" using 1 by simp
      moreover obtain x where x: "node_identity_match x n" "x \<in># ring_nodes ring"
        "ring_nodes ring1 = ring_nodes ring - {#x#}" using ring_erase_Some(1) [OF Some] by blast
      moreover have "sum_list (map ring_nodes rings) + (ring_nodes ring - {#x#})
          = sum_list (map ring_nodes rings) + ring_nodes ring - {#x#}"
        by (rule diff_union_single_conv [OF x(2), symmetric])
      ultimately show ?thesis by (intro exI [of _ x]) (simp add: add.commute)
    qed
  next
    case 2
    then show ?case
      using "2.IH"(2) ring_erase_Some(2) [of n ring] by (auto split: option.splits)
  }
qed simp_all

lemma rings_erase_None:
  "rings_erase n rings = None \<longleftrightarrow> (\<forall>x \<in># sum_list (map ring_nodes rings). \<not> node_identity_match x n)"
proof (induction n rings rule: rings_erase.induct)
  case (2 n ring rings)
  then show ?case using ring_erase_None [of n ring] by (cases "ring_erase n ring") auto
qed simp

lemma ring_set_ok_update:
  "ring_set_ok rset \<Longrightarrow> valid_ring i \<Longrightarrow>
     ring_fits (rs_primary_ring_size rset) (rs_secondary_ring_size rset) ring \<Longrightarrow>
     ring_set_ok (rset\<lparr>rs_rings := (rs_rings rset)[nat i := ring]\<rparr>)"
  by (simp add: ring_set_ok_def list_all_update)

lemma ring_set_ok_ring:
  "ring_set_ok rset \<Longrightarrow> valid_ring i \<Longrightarrow>
     nat i < length (rs_rings rset)
     \<and> ring_fits (rs_primary_ring_size rset) (rs_secondary_ring_size rset) (rs_rings rset ! nat i)"
  by (auto simp: ring_set_ok_def valid_ring_def list_all_length)

lemma rs_nodes_update:
  assumes "ring_set_ok rset" "valid_ring i"
  shows "rs_nodes (rset\<lparr>rs_rings := (rs_rings rset)[nat i := ring]\<rparr>) + ring_nodes (rs_rings rset ! nat i)
    = rs_nodes rset + ring_nodes ring"
  using ring_set_ok_ring [OF assms] by (simp add: rs_nodes_def sum_list_update_mset)

lemma insert_cases:
  obtains "meridian_ring_set_insert bucket rset node l = (- 1, rset)"
  | i ring where "valid_ring i" "i = meridian_ring_set_get_ring bucket rset l"
      "ring_add (rs_primary_ring_size rset) (rs_secondary_ring_size rset) node (rs_rings rset ! nat i) = Some ring"
      "meridian_ring_set_insert bucket rset node l = (0, rset\<lparr>rs_rings := (rs_rings rset)[nat i := ring]\<rparr>)"
proof -
  let ?i = "meridian_ring_set_get_ring bucket rset l"
  let ?ring = "rs_rings rset ! nat ?i"
  have valid: "valid_ring ?i" by (rule get_ring_valid)
  have eq: "meridian_ring_set_insert bucket rset node l =
      (if ring_frozen ?ring then (- 1, rset)
       else case ring_add (rs_primary_ring_size rset) (rs_secondary_ring_size rset) node ?ring of
          None \<Rightarrow> (- 1, rset) | Some ring \<Rightarrow> (0, rset\<lparr>rs_rings := (rs_rings rset)[nat ?i := ring]\<rparr>))"
    using valid unfolding valid_ring_def meridian_ring_set_insert_def Let_def by (simp only: if_False)
  show thesis
  proof (cases "ring_frozen ?ring")
    case True
    then show thesis using that(1) eq by simp
  next
    case False
    then show thesis
      using that eq valid
      by (cases "ring_add (rs_primary_ring_size rset) (rs_secondary_ring_size rset) node ?ring") auto
  qed
qed

section \<open>Properties\<close>

text \<open>The operations that change a ring set, and runs of them.\<close>

datatype ring_op = Ring_insert meridian_node u32 | Ring_erase meridian_node | Ring_erase_ring meridian_node int
  | Ring_freeze int | Ring_unfreeze int | Ring_promote int

definition ring_apply :: "bucket_fn \<Rightarrow> ring_op \<Rightarrow> meridian_ring_set \<Rightarrow> int \<times> meridian_ring_set" where
  "ring_apply bucket oper rset =
     (case oper of
        Ring_insert node l \<Rightarrow> meridian_ring_set_insert bucket rset node l
      | Ring_erase node \<Rightarrow> meridian_ring_set_erase rset node
      | Ring_erase_ring node i \<Rightarrow> meridian_ring_set_erase_ring rset node i
      | Ring_freeze i \<Rightarrow> (0, meridian_ring_set_freeze rset i)
      | Ring_unfreeze i \<Rightarrow> (0, meridian_ring_set_unfreeze rset i)
      | Ring_promote i \<Rightarrow> meridian_ring_set_promote_secondary rset i)"

definition ring_run :: "bucket_fn \<Rightarrow> ring_op list \<Rightarrow> meridian_ring_set \<Rightarrow> meridian_ring_set" where
  "ring_run bucket ops = fold (\<lambda>oper rset. snd (ring_apply bucket oper rset)) ops"

text \<open>What an operation does to the nodes held, given the status it returns.\<close>

definition ring_spec :: "ring_op \<Rightarrow> int \<Rightarrow> meridian_node multiset \<Rightarrow> meridian_node multiset \<Rightarrow> bool" where
  "ring_spec oper rc N N' =
     (case oper of
        Ring_insert node l \<Rightarrow> (rc = 0 \<and> N' = add_mset node N) \<or> (rc = - 1 \<and> N' = N)
      | Ring_erase node \<Rightarrow>
          (if \<exists>x \<in># N. node_identity_match x node
           then rc = 0 \<and> (\<exists>x. node_identity_match x node \<and> x \<in># N \<and> N' = N - {#x#})
           else rc = - 1 \<and> N' = N)
      | Ring_erase_ring node i \<Rightarrow>
          (rc = 0 \<and> (\<exists>x. node_identity_match x node \<and> x \<in># N \<and> N' = N - {#x#})) \<or> (rc = - 1 \<and> N' = N)
      | _ \<Rightarrow> N' = N)"

lemma insert_ok:
  assumes "ring_set_ok rset" "meridian_ring_set_insert bucket rset node l = (rc, rset')"
  shows "ring_set_ok rset' \<and> ring_spec (Ring_insert node l) rc (rs_nodes rset) (rs_nodes rset')"
proof (cases rule: insert_cases [of bucket rset node l])
  case 1
  then show ?thesis using assms by (simp add: ring_spec_def)
next
  case (2 i ring)
  have "rset' = rset\<lparr>rs_rings := (rs_rings rset)[nat i := ring]\<rparr>" "rc = 0" using 2(4) assms(2) by simp_all
  then show ?thesis
    using rs_nodes_update [OF assms(1) 2(1), of ring] ring_set_ok_update [OF assms(1) 2(1), of ring]
      ring_add_Some [OF 2(3)] ring_set_ok_ring [OF assms(1) 2(1)]
    by (simp add: ring_spec_def)
qed

lemma erase_ok:
  assumes "ring_set_ok rset" "meridian_ring_set_erase rset node = (rc, rset')"
  shows "ring_set_ok rset' \<and> ring_spec (Ring_erase node) rc (rs_nodes rset) (rs_nodes rset')"
proof (cases "rings_erase node (rs_rings rset)")
  case None
  then have "\<not> (\<exists>x \<in># rs_nodes rset. node_identity_match x node)"
    using rings_erase_None [of node "rs_rings rset"] by (simp add: rs_nodes_def)
  then show ?thesis using assms None by (simp add: meridian_ring_set_erase_def ring_spec_def)
next
  case (Some rings)
  then have r: "rset' = rset\<lparr>rs_rings := rings\<rparr>" "rc = 0"
    using assms(2) by (simp_all add: meridian_ring_set_erase_def)
  obtain x where x: "node_identity_match x node" "x \<in># rs_nodes rset" "rs_nodes rset' = rs_nodes rset - {#x#}"
    using rings_erase_Some(1) [OF Some] unfolding rs_nodes_def r by auto
  then have "ring_spec (Ring_erase node) rc (rs_nodes rset) (rs_nodes rset')"
    unfolding ring_spec_def ring_op.case r(2) using bexI [of "\<lambda>x. node_identity_match x node"] by (simp, blast)
  then show ?thesis
    using assms(1) rings_erase_Some(2) [OF Some, of "rs_primary_ring_size rset" "rs_secondary_ring_size rset"]
    by (simp add: r(1) ring_set_ok_def)
qed

lemma erase_ring_ok:
  assumes "ring_set_ok rset" "meridian_ring_set_erase_ring rset node i = (rc, rset')"
  shows "ring_set_ok rset' \<and> ring_spec (Ring_erase_ring node i) rc (rs_nodes rset) (rs_nodes rset')"
proof (cases "valid_ring i \<and> ring_erase node (rs_rings rset ! nat i) \<noteq> None")
  case False
  then show ?thesis
    using assms by (auto simp: meridian_ring_set_erase_ring_def ring_spec_def split: if_splits)
next
  case True
  then obtain ring where v: "valid_ring i" and ring: "ring_erase node (rs_rings rset ! nat i) = Some ring" by auto
  then have r: "rset' = rset\<lparr>rs_rings := (rs_rings rset)[nat i := ring]\<rparr>" "rc = 0"
    using assms(2) by (simp_all add: meridian_ring_set_erase_ring_def)
  obtain x where x: "node_identity_match x node" "x \<in># ring_nodes (rs_rings rset ! nat i)"
    "ring_nodes ring = ring_nodes (rs_rings rset ! nat i) - {#x#}"
    using ring_erase_Some(1) [OF ring] by blast
  have "add_mset x (ring_nodes ring) = ring_nodes (rs_rings rset ! nat i)" using x(2,3) by simp
  then have "rs_nodes rset = add_mset x (rs_nodes rset')"
    using rs_nodes_update [OF assms(1) v, of ring] unfolding r(1) by (metis add_right_cancel union_mset_add_mset_left union_mset_add_mset_right)
  then show ?thesis
    using ring_set_ok_update [OF assms(1) v, of ring] ring_erase_Some(2) [OF ring] ring_set_ok_ring [OF assms(1) v] x(1) r
    by (auto simp: ring_spec_def)
qed

lemma frozen_ok: "ring_set_ok rset \<Longrightarrow> ring_set_ok (set_frozen b rset i) \<and> rs_nodes (set_frozen b rset i) = rs_nodes rset"
  using ring_set_ok_update [of rset i "(rs_rings rset ! nat i)\<lparr>ring_frozen := b\<rparr>"] ring_set_ok_ring [of rset i]
    rs_nodes_update [of rset i "(rs_rings rset ! nat i)\<lparr>ring_frozen := b\<rparr>"]
  by (auto simp: set_frozen_def ring_fits_def ring_nodes_def)

lemma promote_ok:
  assumes "ring_set_ok rset" "meridian_ring_set_promote_secondary rset i = (rc, rset')"
  shows "ring_set_ok rset' \<and> rs_nodes rset' = rs_nodes rset"
proof (cases "rset' = rset")
  case False
  then obtain n rest where v: "valid_ring i" and sec: "ring_secondary (rs_rings rset ! nat i) = n # rest"
    and len: "length (ring_primary (rs_rings rset ! nat i)) < unat (rs_primary_ring_size rset)"
    and r: "rset' = rset\<lparr>rs_rings := (rs_rings rset)[nat i := (rs_rings rset ! nat i)\<lparr>ring_secondary := rest,
      ring_primary := ring_primary (rs_rings rset ! nat i) @ [n]\<rparr>]\<rparr>"
    using assms(2)
    by (auto simp: meridian_ring_set_promote_secondary_def Let_def split: if_splits list.splits)
  let ?ring = "(rs_rings rset ! nat i)\<lparr>ring_secondary := rest,
      ring_primary := ring_primary (rs_rings rset ! nat i) @ [n]\<rparr>"
  show ?thesis
    using ring_set_ok_update [OF assms(1) v, of ?ring] ring_set_ok_ring [OF assms(1) v]
      rs_nodes_update [OF assms(1) v, of ?ring] len sec unfolding r
    by (auto simp: ring_fits_def ring_nodes_def)
qed (simp add: assms(1))

lemma ring_apply_ok:
  assumes "ring_set_ok rset" "ring_apply bucket oper rset = (rc, rset')"
  shows "ring_set_ok rset' \<and> ring_spec oper rc (rs_nodes rset) (rs_nodes rset')"
proof (cases oper)
  case (Ring_insert n l)
  then show ?thesis using insert_ok [OF assms(1)] assms(2) by (simp add: ring_apply_def)
next
  case (Ring_erase n)
  then show ?thesis using erase_ok [OF assms(1)] assms(2) by (simp add: ring_apply_def)
next
  case (Ring_erase_ring n i)
  then show ?thesis using erase_ring_ok [OF assms(1)] assms(2) by (simp add: ring_apply_def)
next
  case (Ring_freeze i)
  then show ?thesis
    using frozen_ok [OF assms(1), of True i] assms(2)
    by (auto simp: ring_apply_def ring_spec_def meridian_ring_set_freeze_def)
next
  case (Ring_unfreeze i)
  then show ?thesis
    using frozen_ok [OF assms(1), of False i] assms(2)
    by (auto simp: ring_apply_def ring_spec_def meridian_ring_set_unfreeze_def)
next
  case (Ring_promote i)
  then show ?thesis using promote_ok [OF assms(1)] assms(2) by (simp add: ring_apply_def ring_spec_def)
qed

lemma ring_run_ok: "ring_set_ok rset \<Longrightarrow> ring_set_ok (ring_run bucket ops rset)"
proof (induction ops arbitrary: rset)
  case (Cons oper ops)
  have "ring_set_ok (snd (ring_apply bucket oper rset))"
    using ring_apply_ok [OF Cons.prems surjective_pairing] by blast
  then show ?case using Cons.IH by (simp add: ring_run_def)
qed (simp add: ring_run_def)

lemma ring_create_ok: "ring_set_ok (meridian_ring_set_create p s base)"
  by (simp add: ring_set_ok_def meridian_ring_set_create_def ring_fits_def list_all_iff)



text \<open>
  The closest node is the first primary node of the lowest ring that has one.
\<close>

theorem find_closest_lowest:
  "meridian_ring_set_find_closest rset = Some n \<longleftrightarrow>
     (\<exists>i rest. i < length (rs_rings rset) \<and> ring_primary (rs_rings rset ! i) = n # rest
        \<and> (\<forall>j < i. ring_primary (rs_rings rset ! j) = []))"
  unfolding meridian_ring_set_find_closest_def
proof (induction "rs_rings rset" arbitrary: rset)
  case (Cons ring rings)
  let ?Q = "\<lambda>rings i. \<exists>rest. i < length rings \<and> ring_primary (rings ! i) = n # rest \<and> (\<forall>j < i. ring_primary (rings ! j) = [])"
  have IH: "map_option (\<lambda>ring. ring_primary ring ! 0) (find (\<lambda>ring. length (ring_primary ring) > 0) rings) = Some n
      \<longleftrightarrow> (\<exists>i. ?Q rings i)"
    using Cons.hyps(1) [of "rset\<lparr>rs_rings := rings\<rparr>"] by simp
  have "(\<exists>i. ?Q (ring # rings) i) \<longleftrightarrow> ?Q (ring # rings) 0 \<or> (\<exists>i. ?Q (ring # rings) (Suc i))"
    by (rule ex_nat_split)
  also have "\<dots> \<longleftrightarrow> (\<exists>rest. ring_primary ring = n # rest) \<or> (ring_primary ring = [] \<and> (\<exists>i. ?Q rings i))"
    by (simp add: All_less_Suc2) blast
  finally show ?case
    unfolding Cons.hyps(2) [symmetric] using IH by (cases "ring_primary ring") simp_all
qed simp

section \<open>Collections of nodes\<close>

text \<open>
  What the protocol relies on of the rings: putting a node in keeps them well formed
  and adds that node or nothing.
\<close>

locale node_bag =
  fixes ok :: "'s \<Rightarrow> bool"
    and held :: "'s \<Rightarrow> 'n multiset"
    and put :: "'n \<Rightarrow> 's \<Rightarrow> 's"
  assumes ok_put: "ok s \<Longrightarrow> ok (put n s)"
    and held_put: "ok s \<Longrightarrow> held (put n s) = add_mset n (held s) \<or> held (put n s) = held s"
begin

lemma put_all: "ok s \<Longrightarrow> ok (fold put ns s) \<and> held (fold put ns s) \<subseteq># held s + mset ns"
proof (induction ns arbitrary: s)
  case (Cons n ns)
  have "held (put n s) \<subseteq># add_mset n (held s)" using held_put [OF Cons.prems, of n] by auto
  then have "held (put n s) + mset ns \<subseteq># add_mset n (held s) + mset ns" by (rule mset_subset_eq_mono_add) simp
  then have "held (put n s) + mset ns \<subseteq># held s + mset (n # ns)" by simp
  then show ?case
    using Cons.IH [OF ok_put [OF Cons.prems]] subset_mset.order_trans by (metis fold_simps(2))
qed simp

end

interpretation ring_bag: node_bag ring_set_ok rs_nodes "\<lambda>n rset. snd (meridian_ring_set_insert bucket rset n l)"
  for bucket l
proof
  fix rset n
  assume ok: "ring_set_ok rset"
  have "ring_set_ok (snd (meridian_ring_set_insert bucket rset n l)) \<and>
      ring_spec (Ring_insert n l) (fst (meridian_ring_set_insert bucket rset n l)) (rs_nodes rset)
        (rs_nodes (snd (meridian_ring_set_insert bucket rset n l)))"
    by (rule insert_ok [OF ok surjective_pairing])
  then show "ring_set_ok (snd (meridian_ring_set_insert bucket rset n l))"
    and "rs_nodes (snd (meridian_ring_set_insert bucket rset n l)) = add_mset n (rs_nodes rset)
      \<or> rs_nodes (snd (meridian_ring_set_insert bucket rset n l)) = rs_nodes rset"
    by (auto simp: ring_spec_def)
qed

end
