(* ===== verification/MeridianProtocol.thy ===== *)
theory MeridianProtocol
  imports MeridianGossip MeridianRing
begin

text \<open>
  The protocol object of the overlay (\<open>src/Network/Meridian/meridian_protocol.c\<close>): its
  life cycle, the connected peers, sending, the periodic operations and the dispatch
  of received packets. msquic is not part of the sources: the outcome of its calls is
  an argument (\<open>quic_start\<close> for the calls of \<open>meridian_protocol_start\<close>, the opened
  connection or None, \<open>dgram\<close> for \<open>DatagramSend\<close>), its handles are numbers, and what the
  code asks it to do is a list of effects, in order, together with the calls of the
  application's callbacks and of the channel manager. \<open>realloc_ok\<close> says whether the
  array of pending requests can grow. The rendezvous handle takes no part in these
  operations and is left out.
\<close>

definition MERIDIAN_PACKET_TYPE_RET_PING :: byte where "MERIDIAN_PACKET_TYPE_RET_PING = 13"
definition MERIDIAN_PACKET_TYPE_GOSSIP_PULL :: byte where "MERIDIAN_PACKET_TYPE_GOSSIP_PULL = 23"

section \<open>State\<close>

datatype meridian_protocol_state =
    MERIDIAN_PROTOCOL_STATE_INIT | MERIDIAN_PROTOCOL_STATE_BOOTSTRAPPING
  | MERIDIAN_PROTOCOL_STATE_RUNNING | MERIDIAN_PROTOCOL_STATE_SHUTTING_DOWN

type_synonym hquic = nat

record meridian_protocol_config =
  pc_listen_port :: u16
  pc_primary_ring_size :: u32
  pc_secondary_ring_size :: u32
  pc_ring_exponent_base :: int
  pc_init_gossip_interval_s :: u32
  pc_num_init_gossip_intervals :: u32
  pc_steady_state_gossip_interval_s :: u32
  pc_gossip_timeout_ms :: u32

text \<open>A peer is a connection with its node; a connection that was accepted has none.\<close>

record meridian_protocol =
  pr_state :: meridian_protocol_state
  pr_config :: meridian_protocol_config
  pr_msquic :: bool
  pr_registration :: bool
  pr_listener :: bool
  pr_configuration :: bool
  pr_local_addr :: "u32 \<times> u16"
  pr_ring_set :: meridian_ring_set
  pr_gossip_handle :: "meridian_gossip_handle option"
  pr_latency_cache :: meridian_latency_cache
  pr_pending_measures :: "meridian_measure_request list"
  pr_pending_capacity :: nat
  pr_seed_nodes :: "meridian_node list"
  pr_peers :: "(hquic \<times> meridian_node option) list"
  pr_channel_manager :: bool
  pr_on_packet :: bool
  pr_on_quasar_gossip :: bool
  pr_running :: bool

datatype protocol_effect =
    Datagram hquic bytes
  | Connection_shutdown hquic
  | Connection_close hquic
  | Listener_stop
  | Listener_close
  | Configuration_close
  | Registration_close
  | On_packet bytes
  | On_quasar_gossip bytes
  | Bootstrap_request bytes
  | Bootstrap_reply meridian_channel_bootstrap_reply
  | Measure_result meridian_node u32

definition meridian_protocol_create :: "meridian_protocol_config \<Rightarrow> meridian_protocol" where
  "meridian_protocol_create config =
     \<lparr>pr_state = MERIDIAN_PROTOCOL_STATE_INIT, pr_config = config, pr_msquic = False, pr_registration = False,
      pr_listener = False, pr_configuration = False, pr_local_addr = (0, 0),
      pr_ring_set = meridian_ring_set_create (pc_primary_ring_size config) (pc_secondary_ring_size config)
                      (pc_ring_exponent_base config),
      pr_gossip_handle = None, pr_latency_cache = meridian_latency_cache_create MERIDIAN_PROBE_CACHE_SIZE,
      pr_pending_measures = [], pr_pending_capacity = 0, pr_seed_nodes = [], pr_peers = [],
      pr_channel_manager = False, pr_on_packet = False, pr_on_quasar_gossip = False, pr_running = False\<rparr>"

section \<open>Starting and stopping\<close>

text \<open>Which of the calls of \<open>meridian_protocol_start\<close> succeed, in their order.\<close>

record quic_start =
  qs_open :: bool
  qs_registration :: bool
  qs_configuration :: bool
  qs_credential :: bool
  qs_listener_open :: bool
  qs_listener_start :: bool

definition meridian_protocol_start ::
  "quic_start \<Rightarrow> timeval \<Rightarrow> meridian_protocol \<Rightarrow> int \<times> meridian_protocol \<times> protocol_effect list" where
  "meridian_protocol_start qs now p =
     (if pr_running p then (0, p, [])
      else if \<not> qs_open qs then (- 1, p\<lparr>pr_msquic := False\<rparr>, [])
      else if \<not> qs_registration qs then (- 1, p\<lparr>pr_msquic := False\<rparr>, [])
      else if \<not> qs_configuration qs then
        (- 1, p\<lparr>pr_msquic := False, pr_registration := False\<rparr>, [Registration_close])
      else if \<not> qs_credential qs \<or> \<not> qs_listener_open qs then
        (- 1, p\<lparr>pr_msquic := False, pr_registration := False, pr_configuration := False\<rparr>,
         [Configuration_close, Registration_close])
      else if \<not> qs_listener_start qs then
        (- 1, p\<lparr>pr_msquic := False, pr_registration := False, pr_configuration := False, pr_listener := False\<rparr>,
         [Listener_close, Configuration_close, Registration_close])
      else
        let c = pr_config p;
            gossip_config = \<lparr>gc_init_interval_s = pc_init_gossip_interval_s c,
                             gc_num_init_intervals = pc_num_init_gossip_intervals c,
                             gc_steady_state_interval_s = pc_steady_state_gossip_interval_s c,
                             gc_timeout_ms = pc_gossip_timeout_ms c\<rparr>
        in (0, p\<lparr>pr_msquic := True, pr_registration := True, pr_configuration := True, pr_listener := True,
                 pr_local_addr := (0, pc_listen_port c),
                 pr_gossip_handle := Some (meridian_gossip_handle_create now gossip_config),
                 pr_state := MERIDIAN_PROTOCOL_STATE_BOOTSTRAPPING, pr_running := True\<rparr>, []))"

definition meridian_protocol_stop :: "meridian_protocol \<Rightarrow> int \<times> meridian_protocol \<times> protocol_effect list" where
  "meridian_protocol_stop p =
     (if \<not> pr_running p then (0, p, [])
      else
        (0, p\<lparr>pr_running := False, pr_state := MERIDIAN_PROTOCOL_STATE_SHUTTING_DOWN,
              pr_gossip_handle := map_option (\<lambda>h. snd (meridian_gossip_handle_stop h)) (pr_gossip_handle p),
              pr_peers := [], pr_listener := False, pr_configuration := False, pr_registration := False\<rparr>,
         concat (map (\<lambda>(c, n). [Connection_shutdown c, Connection_close c]) (pr_peers p))
         @ (if pr_listener p then [Listener_stop, Listener_close] else [])
         @ (if pr_configuration p then [Configuration_close] else [])
         @ (if pr_registration p then [Registration_close] else [])))"

section \<open>Peers\<close>

definition meridian_protocol_add_seed_node :: "meridian_protocol \<Rightarrow> u32 \<Rightarrow> u16 \<Rightarrow> int \<times> meridian_protocol" where
  "meridian_protocol_add_seed_node p addr port =
     (if length (pr_seed_nodes p) \<ge> 16 then (- 1, p)
      else (0, p\<lparr>pr_seed_nodes := pr_seed_nodes p @ [meridian_node_create addr port None]\<rparr>))"

text \<open>The test of the loops over the peers.\<close>

definition peer_at :: "u32 \<Rightarrow> u16 \<Rightarrow> hquic \<times> meridian_node option \<Rightarrow> bool" where
  "peer_at addr port peer = (case snd peer of None \<Rightarrow> False | Some n \<Rightarrow> n_addr n = addr \<and> n_port n = port)"

definition meridian_protocol_connect ::
  "hquic option \<Rightarrow> bool \<Rightarrow> meridian_protocol \<Rightarrow> u32 \<Rightarrow> u16 \<Rightarrow> int \<times> meridian_protocol \<times> protocol_effect list" where
  "meridian_protocol_connect connection started p addr port =
     (if \<not> pr_running p then (- 1, p, [])
      else if length (pr_peers p) \<ge> 64 then (- 1, p, [])
      else if list_ex (peer_at addr port) (pr_peers p) then (0, p, [])
      else case connection of
             None \<Rightarrow> (- 1, p, [])
           | Some c \<Rightarrow>
               if \<not> started then (- 1, p, [Connection_close c])
               else (0, p\<lparr>pr_peers := pr_peers p @ [(c, Some (meridian_node_create addr port None))]\<rparr>, []))"

definition meridian_protocol_disconnect ::
  "meridian_protocol \<Rightarrow> u32 \<Rightarrow> u16 \<Rightarrow> int \<times> meridian_protocol \<times> protocol_effect list" where
  "meridian_protocol_disconnect p addr port =
     (if \<not> pr_running p then (- 1, p, [])
      else case find (peer_at addr port) (pr_peers p) of
             None \<Rightarrow> (- 1, p, [])
           | Some (c, n) \<Rightarrow>
               (0, p\<lparr>pr_peers := remove_first (peer_at addr port) (pr_peers p)\<rparr>,
                [Connection_shutdown c, Connection_close c]))"

section \<open>Sending\<close>

definition meridian_protocol_send_packet ::
  "(hquic \<Rightarrow> bytes \<Rightarrow> bool) \<Rightarrow> meridian_protocol \<Rightarrow> bytes \<Rightarrow> meridian_node option \<Rightarrow> int \<times> protocol_effect list" where
  "meridian_protocol_send_packet dgram p data target =
     (case target of
        None \<Rightarrow> (- 1, [])
      | Some t \<Rightarrow>
          if \<not> pr_running p then (- 1, [])
          else case find (peer_at (n_addr t) (n_port t)) (pr_peers p) of
                 None \<Rightarrow> (- 1, [])
               | Some (c, n) \<Rightarrow> (if dgram c data then 0 else - 1, [Datagram c data]))"

definition meridian_protocol_broadcast ::
  "(hquic \<Rightarrow> bytes \<Rightarrow> bool) \<Rightarrow> meridian_protocol \<Rightarrow> bytes \<Rightarrow> int \<times> protocol_effect list" where
  "meridian_protocol_broadcast dgram p data =
     fold (\<lambda>(c, node) (result, es).
        case node of
          None \<Rightarrow> (result, es)
        | Some n \<Rightarrow>
            let (rc, es1) = meridian_protocol_send_packet dgram p data (Some n)
            in (if rc \<noteq> 0 then - 1 else result, es @ es1)) (pr_peers p) (0, [])"

definition meridian_protocol_find_closest :: "meridian_protocol \<Rightarrow> meridian_node option" where
  "meridian_protocol_find_closest p = meridian_ring_set_find_closest (pr_ring_set p)"

definition meridian_protocol_get_connected_peers :: "meridian_protocol \<Rightarrow> meridian_node option list" where
  "meridian_protocol_get_connected_peers p = map snd (pr_peers p)"

definition meridian_protocol_get_local_node :: "meridian_protocol \<Rightarrow> (u32 \<times> u16) option" where
  "meridian_protocol_get_local_node p = (if \<not> pr_running p then None else Some (pr_local_addr p))"

definition meridian_protocol_set_callbacks :: "meridian_protocol \<Rightarrow> bool \<Rightarrow> bool \<Rightarrow> int \<times> meridian_protocol" where
  "meridian_protocol_set_callbacks p on_packet on_quasar_gossip =
     (0, p\<lparr>pr_on_packet := on_packet, pr_on_quasar_gossip := on_quasar_gossip\<rparr>)"

section \<open>Periodic operations\<close>

text \<open>\<open>gossip_outbound_cb\<close> hands every packet to \<open>meridian_protocol_send_packet\<close>.\<close>

definition gossip_outbound_cb ::
  "(hquic \<Rightarrow> bytes \<Rightarrow> bool) \<Rightarrow> meridian_protocol \<Rightarrow> bytes \<times> meridian_node \<Rightarrow> protocol_effect list" where
  "gossip_outbound_cb dgram p out = snd (meridian_protocol_send_packet dgram p (fst out) (Some (snd out)))"

text \<open>\<open>gossip_completed_cb\<close> inserts the peers with latency 0.\<close>

definition gossip_completed_cb :: "bucket_fn \<Rightarrow> meridian_node list \<Rightarrow> meridian_protocol \<Rightarrow> meridian_protocol" where
  "gossip_completed_cb bucket peers p =
     p\<lparr>pr_ring_set := fold (\<lambda>n rset. snd (meridian_ring_set_insert bucket rset n 0)) peers (pr_ring_set p)\<rparr>"

definition meridian_protocol_gossip ::
  "(nat \<Rightarrow> bool) \<Rightarrow> (hquic \<Rightarrow> bytes \<Rightarrow> bool) \<Rightarrow> (nat \<Rightarrow> u64) \<Rightarrow> timeval \<Rightarrow> (nat \<Rightarrow> timeval) \<Rightarrow> meridian_protocol
     \<Rightarrow> int \<times> meridian_protocol \<times> protocol_effect list" where
  "meridian_protocol_gossip malloc dgram ptr now clock p =
     (case pr_gossip_handle p of
        None \<Rightarrow> (0, p, [])
      | Some handle \<Rightarrow>
          let (should_gossip, sched) = meridian_gossip_scheduler_tick now (gh_scheduler handle);
              handle1 = handle\<lparr>gh_scheduler := sched\<rparr>
          in if should_gossip \<and> length (pr_peers p) > 0 then
               let (rc, handle2, outs) = meridian_gossip_handle_send_gossip malloc ptr clock handle1
                                           (meridian_protocol_get_connected_peers p)
               in (0, p\<lparr>pr_gossip_handle := Some handle2\<rparr>, concat (map (gossip_outbound_cb dgram p) outs))
             else (0, p\<lparr>pr_gossip_handle := Some handle1\<rparr>, []))"

definition manage_ring :: "int \<Rightarrow> meridian_ring_set \<Rightarrow> meridian_ring_set" where
  "manage_ring ring rset =
     (if meridian_ring_set_eligible_for_replacement rset ring
      then snd (meridian_ring_set_promote_secondary rset ring) else rset)"

definition meridian_protocol_ring_management :: "meridian_protocol \<Rightarrow> int \<times> meridian_protocol" where
  "meridian_protocol_ring_management p =
     (0, p\<lparr>pr_ring_set := fold manage_ring (map int [0..<MERIDIAN_MAX_RINGS]) (pr_ring_set p)\<rparr>)"

section \<open>Measurements\<close>

definition meridian_protocol_on_measure_result ::
  "timeval \<Rightarrow> timeval \<Rightarrow> meridian_protocol \<Rightarrow> meridian_node option \<Rightarrow> u32 \<Rightarrow> bool \<Rightarrow> int \<times> meridian_protocol" where
  "meridian_protocol_on_measure_result now0 now p node latency_us success =
     (0, case node of
           None \<Rightarrow> p
         | Some n \<Rightarrow>
             if success then p\<lparr>pr_latency_cache := snd (meridian_latency_cache_insert now0 now (pr_latency_cache p) n latency_us)\<rparr>
             else p)"

definition meridian_protocol_send_measure ::
  "(nat \<Rightarrow> bool) \<Rightarrow> bool \<Rightarrow> (hquic \<Rightarrow> bytes \<Rightarrow> bool) \<Rightarrow> timeval \<Rightarrow> meridian_protocol \<Rightarrow> meridian_measure_request
     \<Rightarrow> int \<times> meridian_protocol \<times> protocol_effect list \<times> meridian_measure_request" where
  "meridian_protocol_send_measure malloc realloc_ok dgram now p req0 =
     (let req = req0\<lparr>mr_start_time := now\<rparr>;
          pkt = \<lparr>mp_type = MERIDIAN_PACKET_TYPE_PING, mp_query_id = mr_query_id req,
                 mp_magic = MERIDIAN_MAGIC_NUMBER, mp_rendv_addr = 0, mp_rendv_port = 0\<rparr>
      in case meridian_packet_encode pkt of
           None \<Rightarrow> (- 1, p, [], req)
         | Some encoded \<Rightarrow>
             (case cbor_serialize_alloc malloc encoded of
                None \<Rightarrow> (- 1, p, [], req)
              | Some buf \<Rightarrow>
                  let (result, es) = meridian_protocol_send_packet dgram p buf (Some (mr_target req))
                  in if result \<noteq> 0 then (- 1, p, es, req)
                     else if length (pr_pending_measures p) \<ge> pr_pending_capacity p then
                       if \<not> realloc_ok then (- 1, p, es, req)
                       else (0, p\<lparr>pr_pending_capacity := (if pr_pending_capacity p = 0 then 8 else pr_pending_capacity p * 2),
                                  pr_pending_measures := pr_pending_measures p @ [req]\<rparr>, es, req)
                     else (0, p\<lparr>pr_pending_measures := pr_pending_measures p @ [req]\<rparr>, es, req)))"

definition meridian_measure_request_execute ::
  "(nat \<Rightarrow> bool) \<Rightarrow> bool \<Rightarrow> (hquic \<Rightarrow> bytes \<Rightarrow> bool) \<Rightarrow> timeval \<Rightarrow> meridian_protocol \<Rightarrow> meridian_measure_request
     \<Rightarrow> int \<times> meridian_protocol \<times> protocol_effect list \<times> meridian_measure_request" where
  "meridian_measure_request_execute malloc realloc_ok dgram now p req =
     (if mr_completed req then (- 1, p, [], req)
      else meridian_protocol_send_measure malloc realloc_ok dgram now p req)"

section \<open>Receiving\<close>

text \<open>
  The answer to a measurement: the request leaves the pending ones (the last takes its
  place), the round trip time is cut to 32 bits and cached, and the callback is called.
\<close>

definition complete_measure ::
  "timeval \<Rightarrow> timeval \<Rightarrow> timeval \<Rightarrow> nat \<Rightarrow> meridian_protocol \<Rightarrow> meridian_protocol \<times> protocol_effect list" where
  "complete_measure now now0 now1 i p =
     (let req = pr_pending_measures p ! i;
          rtt_us = (word_of_int (usecs (timersub now (mr_start_time req))) :: u32)
      in (p\<lparr>pr_pending_measures := swap_remove i (pr_pending_measures p),
            pr_latency_cache := snd (meridian_latency_cache_insert now0 now1 (pr_latency_cache p) (mr_target req) rtt_us)\<rparr>,
          if mr_callback req then [Measure_result (mr_target req) rtt_us] else []))"

definition dispatch_packet ::
  "(nat \<Rightarrow> bool) \<Rightarrow> bucket_fn \<Rightarrow> meridian_protocol \<Rightarrow> bytes \<Rightarrow> cbor_item \<Rightarrow> byte
     \<Rightarrow> (int \<times> meridian_protocol \<times> protocol_effect list) cres" where
  "dispatch_packet malloc bucket p data item type =
     (if type = MERIDIAN_PACKET_TYPE_GOSSIP \<or> type = MERIDIAN_PACKET_TYPE_GOSSIP_PULL then
        (case pr_gossip_handle p of
           None \<Rightarrow> Ret (- 1, p, [])
         | Some handle \<Rightarrow>
             cbind (meridian_gossip_handle_on_packet malloc handle data) (\<lambda>(rc, handle', peers).
               Ret (rc, gossip_completed_cb bucket peers (p\<lparr>pr_gossip_handle := Some handle'\<rparr>), [])))
      else if type = MERIDIAN_PACKET_TYPE_QUASAR_GOSSIP then
        Ret (0, p, if pr_on_quasar_gossip p then [On_quasar_gossip data] else [])
      else if type = MERIDIAN_PACKET_TYPE_CHANNEL_BOOTSTRAP then
        (if \<not> pr_channel_manager p then Ret (0, p, [])
         else case meridian_channel_bootstrap_decode 64 64 item of
                Undef \<Rightarrow> Undef
              | Fail \<Rightarrow> Ret (0, p, [])
              | Ret b \<Rightarrow> Ret (0, p, [Bootstrap_request (cb_topic_id b)]))
      else if type = MERIDIAN_PACKET_TYPE_CHANNEL_BOOTSTRAP_REPLY then
        (if \<not> pr_channel_manager p then Ret (0, p, [])
         else case meridian_channel_bootstrap_reply_decode 64 64 16 item of
                Undef \<Rightarrow> Undef
              | Fail \<Rightarrow> Ret (0, p, [])
              | Ret b \<Rightarrow> Ret (0, p, [Bootstrap_reply b]))
      else Ret (0, p, if pr_on_packet p then [On_packet data] else []))"

definition pending_index :: "meridian_protocol \<Rightarrow> meridian_packet cres \<Rightarrow> nat option" where
  "pending_index p pkt =
     (case pkt of
        Ret h \<Rightarrow> if mp_type h = MERIDIAN_PACKET_TYPE_RET_PING
                 then find_index (\<lambda>req. mr_query_id req = mp_query_id h) (pr_pending_measures p) else None
      | _ \<Rightarrow> None)"

definition meridian_protocol_on_packet ::
  "(nat \<Rightarrow> bool) \<Rightarrow> bucket_fn \<Rightarrow> timeval \<Rightarrow> timeval \<Rightarrow> timeval \<Rightarrow> meridian_protocol \<Rightarrow> bytes
     \<Rightarrow> (int \<times> meridian_protocol \<times> protocol_effect list) cres" where
  "meridian_protocol_on_packet malloc bucket now now0 now1 p data =
     (if length data \<ge> 4 \<and> ntohl_bytes data = QUASAR_ROUTE_MAGIC then
        Ret (0, p, if pr_on_packet p then [On_packet data] else [])
      else case cbor_load_item malloc data of
        None \<Rightarrow> Ret (- 1, p, [])
      | Some item \<Rightarrow>
          if meridian_packet_decode item = Undef then Undef
          else case pending_index p (meridian_packet_decode item) of
            Some i \<Rightarrow> let (p', es) = complete_measure now now0 now1 i p in Ret (0, p', es)
          | None \<Rightarrow>
              (case cbind (cbor_definite_elems item) (\<lambda>items. cguard (length items \<ge> 1) (cbor_get_uint8 (items ! 0))) of
                 Undef \<Rightarrow> Undef
               | Fail \<Rightarrow> Ret (- 1, p, [])
               | Ret type \<Rightarrow> dispatch_packet malloc bucket p data item type))"

text \<open>
  The events of msquic: a new connection on the listener (\<open>configured\<close> is the outcome
  of \<open>ConnectionSetConfiguration\<close>), and a datagram on a connection.
\<close>

definition ListenerCallback_new :: "bool \<Rightarrow> meridian_protocol \<Rightarrow> hquic \<Rightarrow> meridian_protocol" where
  "ListenerCallback_new configured p connection =
     (if \<not> configured then p
      else if length (pr_peers p) < 64 then p\<lparr>pr_peers := pr_peers p @ [(connection, None)]\<rparr> else p)"

definition ConnectionCallback_datagram :: "meridian_protocol \<Rightarrow> bytes \<Rightarrow> protocol_effect list" where
  "ConnectionCallback_datagram p data = (if pr_on_packet p then [On_packet data] else [])"

text \<open>What releasing the last reference asks of msquic.\<close>

definition meridian_protocol_destroy :: "meridian_protocol \<Rightarrow> protocol_effect list" where
  "meridian_protocol_destroy p0 =
     (let (rc, p, es) = (if pr_running p0 then meridian_protocol_stop p0 else (0, p0, []))
      in es @ (if pr_msquic p
               then concat (map (\<lambda>(c, n). [Connection_shutdown c, Connection_close c]) (pr_peers p)) else [])
            @ (if pr_configuration p then [Configuration_close] else [])
            @ (if pr_registration p then [Registration_close] else []))"

section \<open>What the publish/subscribe overlay sees\<close>

definition protocol_view :: "meridian_protocol \<Rightarrow> meridian_view" where
  "protocol_view p =
     \<lparr>mv_local = (case meridian_protocol_get_local_node p of None \<Rightarrow> (0, 0) | Some a \<Rightarrow> a),
      mv_peers = map (\<lambda>n. (n_addr n, n_port n)) (List.map_filter id (meridian_protocol_get_connected_peers p))\<rparr>"

section \<open>Invariant\<close>

definition peer_addrs :: "meridian_protocol \<Rightarrow> (u32 \<times> u16) list" where
  "peer_addrs p = mv_peers (protocol_view p)"

definition protocol_ok :: "meridian_protocol \<Rightarrow> bool" where
  "protocol_ok p \<longleftrightarrow>
     length (pr_peers p) \<le> 64 \<and> length (pr_seed_nodes p) \<le> 16 \<and> distinct (peer_addrs p)
     \<and> ring_set_ok (pr_ring_set p) \<and> cache_ok (pr_latency_cache p) \<and> pr_pending_measures p = []
     \<and> (if pr_running p
        then pr_msquic p \<and> pr_registration p \<and> pr_configuration p \<and> pr_listener p \<and> pr_gossip_handle p \<noteq> None
        else pr_peers p = [] \<and> \<not> pr_registration p \<and> \<not> pr_configuration p \<and> \<not> pr_listener p)"

text \<open>
  The steps of a protocol object: the calls of its operations and the events of msquic.
  msquic reports connections for an open listener only.
\<close>

inductive protocol_step :: "meridian_protocol \<Rightarrow> meridian_protocol \<Rightarrow> bool" where
  start: "meridian_protocol_start qs now p = (rc, p', es) \<Longrightarrow> protocol_step p p'"
| stop: "meridian_protocol_stop p = (rc, p', es) \<Longrightarrow> protocol_step p p'"
| seed: "meridian_protocol_add_seed_node p addr port = (rc, p') \<Longrightarrow> protocol_step p p'"
| connect: "meridian_protocol_connect conn started p addr port = (rc, p', es) \<Longrightarrow> protocol_step p p'"
| disconnect: "meridian_protocol_disconnect p addr port = (rc, p', es) \<Longrightarrow> protocol_step p p'"
| callbacks: "meridian_protocol_set_callbacks p f g = (rc, p') \<Longrightarrow> protocol_step p p'"
| manager: "protocol_step p (p\<lparr>pr_channel_manager := b\<rparr>)"
| gossip: "meridian_protocol_gossip malloc dgram ptr now clock p = (rc, p', es) \<Longrightarrow> protocol_step p p'"
| rings: "meridian_protocol_ring_management p = (rc, p') \<Longrightarrow> protocol_step p p'"
| result: "meridian_protocol_on_measure_result now0 now p node l ok = (rc, p') \<Longrightarrow> protocol_step p p'"
| measure: "meridian_measure_request_execute malloc rok dgram now p req = (rc, p', es, req') \<Longrightarrow> protocol_step p p'"
| packet: "meridian_protocol_on_packet malloc bucket now now0 now1 p data = Ret (rc, p', es) \<Longrightarrow> protocol_step p p'"
| accepted: "pr_listener p \<Longrightarrow> ListenerCallback_new configured p conn = p' \<Longrightarrow> protocol_step p p'"

definition protocol_reachable :: "meridian_protocol \<Rightarrow> bool" where
  "protocol_reachable p \<longleftrightarrow> (\<exists>config. protocol_step\<^sup>*\<^sup>* (meridian_protocol_create config) p)"

section \<open>The invariant is kept\<close>

definition addrs_of :: "(hquic \<times> meridian_node option) list \<Rightarrow> (u32 \<times> u16) list" where
  "addrs_of peers = map (\<lambda>n. (n_addr n, n_port n)) (List.map_filter id (map snd peers))"

lemma peer_addrs: "peer_addrs p = addrs_of (pr_peers p)"
  by (simp add: peer_addrs_def protocol_view_def meridian_protocol_get_connected_peers_def addrs_of_def)

lemma addrs_of_simps [simp]:
  "addrs_of [] = []"
  "addrs_of ((c, None) # peers) = addrs_of peers"
  "addrs_of ((c, Some n) # peers) = (n_addr n, n_port n) # addrs_of peers"
  "addrs_of (xs @ ys) = addrs_of xs @ addrs_of ys"
  by (simp_all add: addrs_of_def map_filter_simps map_filter_def)

lemma addrs_of_iff: "(addr, port) \<in> set (addrs_of peers) \<longleftrightarrow> list_ex (peer_at addr port) peers"
proof (induction peers)
  case (Cons peer peers)
  then show ?case by (cases peer; cases "snd peer") (auto simp: peer_at_def)
qed simp

lemma addrs_of_remove_first:
  "set (addrs_of (remove_first P peers)) \<subseteq> set (addrs_of peers)"
  "distinct (addrs_of peers) \<Longrightarrow> distinct (addrs_of (remove_first P peers))"
proof -
  show sub: "set (addrs_of (remove_first P peers)) \<subseteq> set (addrs_of peers)" for peers
  proof (induction peers)
    case (Cons peer peers)
    then show ?case by (cases peer; cases "snd peer") auto
  qed simp
  show "distinct (addrs_of peers) \<Longrightarrow> distinct (addrs_of (remove_first P peers))"
  proof (induction peers)
    case (Cons peer peers)
    then show ?case using sub [of peers] by (cases peer; cases "snd peer") auto
  qed simp
qed

lemma packet_never_encodes: "meridian_packet_encode pkt = None"
  by (simp add: meridian_packet_encode_def)

lemma execute_inert:
  "meridian_measure_request_execute malloc rok dgram now p req =
     (- 1, p, [], if mr_completed req then req else req\<lparr>mr_start_time := now\<rparr>)"
  by (simp add: meridian_measure_request_execute_def meridian_protocol_send_measure_def packet_never_encodes Let_def)

lemma sint_eq_int:
  assumes "int n = sint (p::u32)"
  shows "unat p = n"
proof -
  have "sint p = uint p"
  proof (cases "uint p < 2 ^ 31")
    case True
    moreover have "- (2 ^ 31) \<le> (0::int)" by simp
    then have "- (2 ^ 31) \<le> uint p" using uint_ge_0 [of p] by (rule order_trans)
    ultimately show ?thesis by (simp add: sint_uint signed_take_bit_int_eq_self)
  next
    case False
    then have "sint p \<le> uint p - 2 ^ 32" using signed_take_bit_int_less_eq [of 31 "uint p"] by (simp add: sint_uint)
    moreover have "uint p < 2 ^ 32" using uint_bounded [of p] by simp
    ultimately show ?thesis using assms by simp
  qed
  then have "int n = int (unat p)" using assms by simp
  then show ?thesis by (simp only: of_nat_eq_iff)
qed

lemma manage_ring_inert: "manage_ring i rset = rset"
proof (cases "meridian_ring_set_eligible_for_replacement rset i")
  case True
  then have "unat (rs_primary_ring_size rset) = length (ring_primary (rs_rings rset ! nat i))"
    by (intro sint_eq_int) (simp add: meridian_ring_set_eligible_for_replacement_def Let_def)
  then show ?thesis
    by (simp add: manage_ring_def meridian_ring_set_promote_secondary_def Let_def split: list.splits)
qed (simp add: manage_ring_def)

lemma management_inert: "meridian_protocol_ring_management p = (0, p)"
proof -
  have "fold manage_ring is rset = rset" for "is" rset by (induction "is") (simp_all add: manage_ring_inert)
  then show ?thesis by (simp add: meridian_protocol_ring_management_def)
qed

text \<open>Steps that leave peers, rings and the life cycle alone keep the invariant.\<close>

lemma protocol_ok_frame:
  assumes "protocol_ok p" "pr_peers p' = pr_peers p" "pr_seed_nodes p' = pr_seed_nodes p"
    "pr_ring_set p' = pr_ring_set p" "pr_latency_cache p' = pr_latency_cache p"
    "pr_pending_measures p' = pr_pending_measures p" "pr_running p' = pr_running p" "pr_msquic p' = pr_msquic p"
    "pr_registration p' = pr_registration p" "pr_configuration p' = pr_configuration p" "pr_listener p' = pr_listener p"
    "pr_gossip_handle p' = None \<longleftrightarrow> pr_gossip_handle p = None"
  shows "protocol_ok p'"
  using assms by (simp add: protocol_ok_def peer_addrs)

lemma start_ok: "protocol_ok p \<Longrightarrow> meridian_protocol_start qs now p = (rc, p', es) \<Longrightarrow> protocol_ok p'"
  by (auto simp: meridian_protocol_start_def protocol_ok_def peer_addrs Let_def split: if_splits)

lemma stop_ok: "protocol_ok p \<Longrightarrow> meridian_protocol_stop p = (rc, p', es) \<Longrightarrow> protocol_ok p'"
  by (auto simp: meridian_protocol_stop_def protocol_ok_def peer_addrs split: if_splits)

lemma seed_ok: "protocol_ok p \<Longrightarrow> meridian_protocol_add_seed_node p addr port = (rc, p') \<Longrightarrow> protocol_ok p'"
  by (auto simp: meridian_protocol_add_seed_node_def protocol_ok_def peer_addrs split: if_splits)

lemma connect_cases:
  assumes "meridian_protocol_connect conn started p addr port = (rc, p', es)"
  obtains "p' = p"
  | c where "conn = Some c" "pr_running p" "length (pr_peers p) < 64" "\<not> list_ex (peer_at addr port) (pr_peers p)"
      "p' = p\<lparr>pr_peers := pr_peers p @ [(c, Some (meridian_node_create addr port None))]\<rparr>"
proof (cases "p' = p")
  case False
  then obtain c where "conn = Some c" "pr_running p" "length (pr_peers p) < 64" "\<not> list_ex (peer_at addr port) (pr_peers p)"
    "p' = p\<lparr>pr_peers := pr_peers p @ [(c, Some (meridian_node_create addr port None))]\<rparr>"
    using assms by (auto simp: meridian_protocol_connect_def split: if_splits option.splits)
  then show thesis by (rule that(2))
qed (rule that(1))

lemma connect_ok:
  assumes "protocol_ok p" "meridian_protocol_connect conn started p addr port = (rc, p', es)"
  shows "protocol_ok p'"
  using assms(2)
proof (cases rule: connect_cases)
  case (2 c)
  then show ?thesis
    using assms(1) addrs_of_iff [of addr port "pr_peers p"]
    by (simp add: protocol_ok_def peer_addrs meridian_node_create_def)
qed (simp add: assms(1))

lemma disconnect_ok:
  assumes "protocol_ok p" "meridian_protocol_disconnect p addr port = (rc, p', es)"
  shows "protocol_ok p'"
proof (cases "p' = p")
  case False
  then have "pr_running p" "p' = p\<lparr>pr_peers := remove_first (peer_at addr port) (pr_peers p)\<rparr>"
    using assms(2) by (auto simp: meridian_protocol_disconnect_def split: if_splits option.splits)
  then show ?thesis
    using assms(1) addrs_of_remove_first(2) [of "pr_peers p" "peer_at addr port"]
    by (auto simp: protocol_ok_def peer_addrs length_remove_first)
qed (simp add: assms(1))

lemma gossip_ok:
  assumes "protocol_ok p" "meridian_protocol_gossip malloc dgram ptr now clock p = (rc, p', es)"
  shows "protocol_ok p'"
proof (cases "pr_gossip_handle p")
  case None
  then show ?thesis using assms by (simp add: meridian_protocol_gossip_def)
next
  case (Some handle)
  then obtain h where "p' = p\<lparr>pr_gossip_handle := Some h\<rparr>"
    using assms(2) by (auto simp: meridian_protocol_gossip_def Let_def split: prod.splits if_splits)
  then show ?thesis using assms(1) Some by (intro protocol_ok_frame [OF assms(1)]) simp_all
qed

lemma result_ok:
  "protocol_ok p \<Longrightarrow> meridian_protocol_on_measure_result now0 now p node l ok = (rc, p') \<Longrightarrow> protocol_ok p'"
  by (auto simp: meridian_protocol_on_measure_result_def protocol_ok_def peer_addrs cache_insert cache_ok_put
      split: if_splits option.splits)

lemma accepted_ok: "protocol_ok p \<Longrightarrow> pr_listener p \<Longrightarrow> protocol_ok (ListenerCallback_new configured p conn)"
  by (auto simp: ListenerCallback_new_def protocol_ok_def peer_addrs split: if_splits)

lemma dispatch_cases:
  assumes "dispatch_packet malloc bucket p data item type = Ret (rc, p', es)"
  obtains "p' = p"
  | handle peers h where "pr_gossip_handle p = Some handle"
      "meridian_gossip_handle_on_packet malloc handle data = Ret (rc, h, peers)"
      "p' = gossip_completed_cb bucket peers (p\<lparr>pr_gossip_handle := Some h\<rparr>)" "es = []"
proof (cases "type = MERIDIAN_PACKET_TYPE_GOSSIP \<or> type = MERIDIAN_PACKET_TYPE_GOSSIP_PULL")
  case True
  then show thesis
  proof (cases "pr_gossip_handle p")
    case None
    then show thesis using assms True that(1) by (simp add: dispatch_packet_def)
  next
    case (Some handle)
    then obtain h peers where "meridian_gossip_handle_on_packet malloc handle data = Ret (rc, h, peers)"
      "p' = gossip_completed_cb bucket peers (p\<lparr>pr_gossip_handle := Some h\<rparr>)" "es = []"
      using assms True unfolding dispatch_packet_def by auto
    then show thesis using that(2) Some by blast
  qed
next
  case False
  then have "p' = p"
    using assms unfolding dispatch_packet_def by (simp only: if_False) (simp split: if_splits cres.splits)
  then show thesis by (rule that(1))
qed

lemma dispatch_ok:
  assumes "protocol_ok p" "dispatch_packet malloc bucket p data item type = Ret (rc, p', es)"
  shows "protocol_ok p'"
  using assms(2)
proof (cases rule: dispatch_cases)
  case (2 handle peers h)
  then show ?thesis
    using assms(1) ring_bag.put_all [of "pr_ring_set p" bucket 0 peers]
    by (auto simp: gossip_completed_cb_def protocol_ok_def peer_addrs)
qed (use assms(1) in simp)

lemma packet_cases:
  assumes "pr_pending_measures p = []"
    and "meridian_protocol_on_packet malloc bucket now now0 now1 p data = Ret (rc, p', es)"
  obtains "p' = p" | item type where "dispatch_packet malloc bucket p data item type = Ret (rc, p', es)"
proof -
  have pi: "pending_index p pkt = None" for pkt using assms(1) by (auto simp: pending_index_def split: cres.splits)
  show thesis
  proof (cases "cbor_load_item malloc data")
    case None
    then have "p' = p" using assms(2) by (simp add: meridian_protocol_on_packet_def split: if_splits)
    then show thesis by (rule that(1))
  next
    case (Some item)
    let ?type = "cbind (cbor_definite_elems item) (\<lambda>items. cguard (length items \<ge> 1) (cbor_get_uint8 (items ! 0)))"
    show thesis
    proof (cases ?type)
      case (Ret type)
      then have "p' = p \<or> dispatch_packet malloc bucket p data item type = Ret (rc, p', es)"
        using assms(2) Some pi unfolding meridian_protocol_on_packet_def by (simp split: if_splits)
      then show thesis using that by blast
    next
      case Fail
      then have "p' = p"
        using assms(2) Some pi unfolding meridian_protocol_on_packet_def by (simp split: if_splits)
      then show thesis by (rule that(1))
    next
      case Undef
      then have "p' = p"
        using assms(2) Some pi unfolding meridian_protocol_on_packet_def by (simp split: if_splits)
      then show thesis by (rule that(1))
    qed
  qed
qed

lemma packet_ok:
  assumes "protocol_ok p" "meridian_protocol_on_packet malloc bucket now now0 now1 p data = Ret (rc, p', es)"
  shows "protocol_ok p'"
proof -
  have "pr_pending_measures p = []" using assms(1) by (simp add: protocol_ok_def)
  then show ?thesis using assms(2)
    by (cases rule: packet_cases) (use assms(1) dispatch_ok [OF assms(1)] in auto)
qed

lemma step_ok: "protocol_step p p' \<Longrightarrow> protocol_ok p \<Longrightarrow> protocol_ok p'"
proof (induction rule: protocol_step.induct)
  case (measure malloc rok dgram now p req rc p' es req')
  then show ?case by (simp add: execute_inert)
next
  case (rings p rc p')
  then show ?case by (simp add: management_inert)
next
  case (callbacks p f g rc p')
  then show ?case by (auto simp: meridian_protocol_set_callbacks_def intro: protocol_ok_frame)
next
  case (manager p b)
  then show ?case by (auto intro: protocol_ok_frame)
next
  case (accepted p configured conn p')
  then show ?case using accepted_ok by blast
qed (blast intro: start_ok stop_ok seed_ok connect_ok disconnect_ok gossip_ok result_ok packet_ok)+

lemma protocol_create_ok: "protocol_ok (meridian_protocol_create config)"
  by (simp add: protocol_ok_def meridian_protocol_create_def peer_addrs ring_create_ok cache_ok_create)

lemma reachable_ok: "protocol_reachable p \<Longrightarrow> protocol_ok p"
proof -
  have "protocol_step\<^sup>*\<^sup>* p0 p \<Longrightarrow> protocol_ok p0 \<Longrightarrow> protocol_ok p" for p0
    by (induction rule: rtranclp_induct) (auto intro: step_ok)
  then show "protocol_reachable p \<Longrightarrow> protocol_ok p" by (auto simp: protocol_reachable_def protocol_create_ok)
qed

lemma send_to_peer:
  assumes "protocol_ok p" "pr_running p"
  shows "meridian_protocol_send_packet dgram p data (Some t) =
    (case find (peer_at (n_addr t) (n_port t)) (pr_peers p) of
       None \<Rightarrow> (- 1, []) | Some (c, n) \<Rightarrow> (if dgram c data then 0 else - 1, [Datagram c data]))"
  using assms by (simp add: meridian_protocol_send_packet_def)

lemma find_peer:
  assumes "distinct (addrs_of peers)" "(c, Some n) \<in> set peers"
  shows "find (peer_at (n_addr n) (n_port n)) peers = Some (c, Some n)"
  using assms
proof (induction peers)
  case (Cons peer peers)
  show ?case
  proof (cases "peer = (c, Some n)")
    case True
    then show ?thesis by (simp add: peer_at_def)
  next
    case False
    then have "(c, Some n) \<in> set peers" using Cons.prems(2) by simp
    moreover from this have "(n_addr n, n_port n) \<in> set (addrs_of peers)"
      by (auto simp: addrs_of_iff list_ex_iff peer_at_def intro!: bexI [of _ "(c, Some n)"])
    ultimately show ?thesis
      using Cons by (cases peer; cases "snd peer") (auto simp: peer_at_def)
  qed
qed simp

lemma send_packet_peer:
  "Datagram c d \<in> set (snd (meridian_protocol_send_packet dgram p data t)) \<Longrightarrow> \<exists>n. (c, Some n) \<in> set (pr_peers p)"
  by (auto simp: meridian_protocol_send_packet_def peer_at_def split: option.splits if_splits dest!: find_eq_SomeD)

section \<open>Properties\<close>

definition example_protocol_config :: meridian_protocol_config where
  "example_protocol_config =
     \<lparr>pc_listen_port = 4000, pc_primary_ring_size = 8, pc_secondary_ring_size = 4, pc_ring_exponent_base = 2,
      pc_init_gossip_interval_s = 1, pc_num_init_gossip_intervals = 5, pc_steady_state_gossip_interval_s = 5,
      pc_gossip_timeout_ms = 500\<rparr>"

definition example_quic :: quic_start where
  "example_quic = \<lparr>qs_open = True, qs_registration = True, qs_configuration = True, qs_credential = True,
     qs_listener_open = True, qs_listener_start = True\<rparr>"

text \<open>A started protocol object with one connection to address 7, port 8.\<close>

definition example_protocol :: meridian_protocol where
  "example_protocol =
     fst (snd (meridian_protocol_connect (Some 1) True
       (fst (snd (meridian_protocol_start example_quic \<lparr>tv_sec = 0, tv_usec = 0\<rparr>
          (meridian_protocol_create example_protocol_config)))) 7 8))"

lemma example_protocol_reachable: "protocol_reachable example_protocol"
proof -
  let ?p0 = "meridian_protocol_create example_protocol_config"
  let ?p1 = "fst (snd (meridian_protocol_start example_quic \<lparr>tv_sec = 0, tv_usec = 0\<rparr> ?p0))"
  have "protocol_step ?p0 ?p1"
    by (rule protocol_step.start [of example_quic "\<lparr>tv_sec = 0, tv_usec = 0\<rparr>" _ "fst (meridian_protocol_start example_quic \<lparr>tv_sec = 0, tv_usec = 0\<rparr> ?p0)"
          _ "snd (snd (meridian_protocol_start example_quic \<lparr>tv_sec = 0, tv_usec = 0\<rparr> ?p0))"]) simp
  moreover have "protocol_step ?p1 example_protocol"
    unfolding example_protocol_def
    by (rule protocol_step.connect [of "Some 1" True _ 7 8 "fst (meridian_protocol_connect (Some 1) True ?p1 7 8)" _
          "snd (snd (meridian_protocol_connect (Some 1) True ?p1 7 8))"]) simp
  ultimately show ?thesis
    unfolding protocol_reachable_def by (meson converse_rtranclp_into_rtranclp r_into_rtranclp)
qed

lemma example_protocol_simps:
  "pr_running example_protocol" "pr_peers example_protocol = [(1, Some (meridian_node_create 7 8 None))]"
  by (simp_all add: example_protocol_def meridian_protocol_connect_def meridian_protocol_start_def
      meridian_protocol_create_def example_quic_def example_protocol_config_def Let_def)



text \<open>
  A packet for a connected peer is handed to the one connection opened to its address,
  and a packet for any other node to none.
\<close>

theorem packet_reaches_peer:
  assumes "protocol_reachable p" "pr_running p"
  shows "((c, Some n) \<in> set (pr_peers p) \<longrightarrow>
      meridian_protocol_send_packet dgram p data (Some n) = (if dgram c data then 0 else - 1, [Datagram c data]))
    \<and> ((n_addr t, n_port t) \<notin> set (mv_peers (protocol_view p)) \<longrightarrow>
      meridian_protocol_send_packet dgram p data (Some t) = (- 1, []))"
proof -
  have ok: "protocol_ok p" by (rule reachable_ok [OF assms(1)])
  then have "distinct (addrs_of (pr_peers p))" by (simp add: protocol_ok_def peer_addrs)
  moreover have "find (peer_at (n_addr t) (n_port t)) (pr_peers p) = None"
    if "(n_addr t, n_port t) \<notin> set (mv_peers (protocol_view p))"
    using that by (simp add: peer_addrs [unfolded peer_addrs_def] addrs_of_iff find_None_iff list_ex_iff)
  ultimately show ?thesis
    using send_to_peer [OF ok assms(2)] find_peer by simp
qed

theorem packet_reaches_peer_witness:
  "meridian_protocol_send_packet (\<lambda>_ _. True) example_protocol [1, 2] (Some (meridian_node_create 7 8 None)) = (0, [Datagram 1 [1, 2]])"
  using packet_reaches_peer [OF example_protocol_reachable example_protocol_simps(1), of 1 "meridian_node_create 7 8 None"]
  by (simp add: example_protocol_simps)

text \<open>
  C31. Starting is all or nothing: it succeeds exactly when every call of msquic does, and
  then the object runs with all handles open; when one fails, the handles opened before
  it are closed again, in reverse order, and nothing but the reference to the library
  differs from the state before.
\<close>

theorem start_all_or_nothing:
  assumes "protocol_reachable p" "\<not> pr_running p" "meridian_protocol_start qs now p = (rc, p', es)"
  shows "(rc = 0 \<longleftrightarrow> qs_open qs \<and> qs_registration qs \<and> qs_configuration qs \<and> qs_credential qs
              \<and> qs_listener_open qs \<and> qs_listener_start qs)
    \<and> (rc = 0 \<longrightarrow> pr_running p' \<and> pr_registration p' \<and> pr_configuration p' \<and> pr_listener p' \<and> es = [])
    \<and> (rc \<noteq> 0 \<longrightarrow> rc = - 1 \<and> p' = p\<lparr>pr_msquic := False\<rparr>
         \<and> es = (if qs_open qs \<and> qs_registration qs \<and> qs_configuration qs \<and> qs_credential qs \<and> qs_listener_open qs
                 then [Listener_close] else [])
               @ (if qs_open qs \<and> qs_registration qs \<and> qs_configuration qs then [Configuration_close] else [])
               @ (if qs_open qs \<and> qs_registration qs then [Registration_close] else []))"
proof -
  have "\<not> pr_registration p" "\<not> pr_configuration p" "\<not> pr_listener p"
    using reachable_ok [OF assms(1)] assms(2) by (simp_all add: protocol_ok_def)
  then show ?thesis
    using assms(2,3) by (auto simp: meridian_protocol_start_def Let_def split: if_splits)
qed

theorem start_all_or_nothing_witness:
  "fst (meridian_protocol_start (example_quic\<lparr>qs_credential := False\<rparr>) \<lparr>tv_sec = 0, tv_usec = 0\<rparr>
      (meridian_protocol_create example_protocol_config)) \<noteq> 0"
proof -
  let ?r = "meridian_protocol_start (example_quic\<lparr>qs_credential := False\<rparr>) \<lparr>tv_sec = 0, tv_usec = 0\<rparr>
      (meridian_protocol_create example_protocol_config)"
  have "protocol_reachable (meridian_protocol_create example_protocol_config)"
    by (auto simp: protocol_reachable_def)
  moreover have "\<not> pr_running (meridian_protocol_create example_protocol_config)"
    by (simp add: meridian_protocol_create_def)
  moreover have "?r = (fst ?r, fst (snd ?r), snd (snd ?r))" by simp
  ultimately have "fst ?r = 0 \<longleftrightarrow> qs_credential (example_quic\<lparr>qs_credential := False\<rparr>) \<and> fst ?r = 0"
    using start_all_or_nothing by blast
  then show ?thesis by simp
qed

text \<open>
  Rings learn nodes from gossip only: handling a packet adds to the rings at most the
  targets of a gossip packet that decoded.
\<close>

theorem rings_learn_from_gossip:
  assumes "protocol_reachable p" "meridian_protocol_on_packet malloc bucket now now0 now1 p data = Ret (rc, p', es)"
  shows "\<exists>peers. rs_nodes (pr_ring_set p') \<subseteq># rs_nodes (pr_ring_set p) + mset peers
    \<and> (peers \<noteq> [] \<longrightarrow> (\<exists>item pkt. cbor_load_item malloc data = Some item \<and> meridian_gossip_decode item = Ret pkt
         \<and> peers = gp_targets pkt))"
proof -
  have ok: "protocol_ok p" by (rule reachable_ok [OF assms(1)])
  then have "pr_pending_measures p = []" by (simp add: protocol_ok_def)
  then consider "p' = p" | item type where "dispatch_packet malloc bucket p data item type = Ret (rc, p', es)"
    using assms(2) by (cases rule: packet_cases) blast+
  then show ?thesis
  proof cases
    case 2
    from 2 show ?thesis
    proof (cases rule: dispatch_cases)
      case (2 handle peers h)
      have "peers \<noteq> [] \<longrightarrow> (\<exists>item pkt. cbor_load_item malloc data = Some item \<and> meridian_gossip_decode item = Ret pkt
         \<and> peers = gp_targets pkt)"
        using 2(2) by (auto simp: meridian_gossip_handle_on_packet_def split: option.splits cres.splits if_splits)
      moreover have "rs_nodes (pr_ring_set p') \<subseteq># rs_nodes (pr_ring_set p) + mset peers"
        using ring_bag.put_all [of "pr_ring_set p" bucket 0 peers] ok 2(3)
        by (simp add: protocol_ok_def gossip_completed_cb_def)
      ultimately show ?thesis by blast
    qed (auto intro: exI [of _ "[]"])
  qed (auto intro: exI [of _ "[]"])
qed

text \<open>A gossip packet with one target, address 7 and port 8, its count written as a 64 bit integer.\<close>

definition example_gossip :: bytes where
  "example_gossip =
     [0x88, 10] @ (0x1B # replicate 8 0) @ (0x1B # replicate 7 0 @ [1]) @ 0x1A # htonl_bytes MERIDIAN_MAGIC_NUMBER
     @ (0x1A # replicate 4 0) @ (0x19 # replicate 2 0) @ (0x1B # replicate 7 0 @ [1])
     @ 0x84 # (0x1A # replicate 3 0 @ [7]) @ (0x19 # [0, 8]) @ (0x1A # replicate 4 0) @ (0x19 # replicate 2 0)"

definition example_gossip_node :: meridian_node where
  "example_gossip_node = meridian_node_create_rendv 7 8 0 0 None"

definition example_gossip_item :: cbor_item where
  "example_gossip_item = CBOR_ARRAY True
     [cbor_build_uint8 10, cbor_build_uint64 0, cbor_build_uint64 1, cbor_build_uint32 MERIDIAN_MAGIC_NUMBER,
      cbor_build_uint32 0, cbor_build_uint16 0, cbor_build_uint64 1,
      CBOR_ARRAY True [cbor_build_uint32 7, cbor_build_uint16 8, cbor_build_uint32 0, cbor_build_uint16 0]]"

lemma example_gossip_load: "cbor_load_item (\<lambda>_. True) example_gossip = Some example_gossip_item"
  by code_simp

lemma example_gossip_decode:
  "\<exists>base. meridian_gossip_decode example_gossip_item = Ret \<lparr>gp_base = base, gp_targets = [example_gossip_node]\<rparr>"
  by (intro exI [of _ "\<lparr>mp_type = 10, mp_query_id = 1, mp_magic = MERIDIAN_MAGIC_NUMBER, mp_rendv_addr = 0, mp_rendv_port = 0\<rparr>"])
    code_simp

lemma example_gossip_header:
  "ntohl_bytes example_gossip \<noteq> QUASAR_ROUTE_MAGIC" "meridian_packet_decode example_gossip_item \<noteq> Undef"
  "cbind (cbor_definite_elems example_gossip_item) (\<lambda>items. cguard (Suc 0 \<le> length items) (cbor_get_uint8 (items ! 0))) = Ret 10"
  by code_simp+

lemma example_protocol_parts:
  "pr_gossip_handle example_protocol \<noteq> None" "rs_nodes (pr_ring_set example_protocol) = {#}"
  by (simp_all add: example_protocol_def meridian_protocol_connect_def meridian_protocol_start_def
      meridian_protocol_create_def example_quic_def example_protocol_config_def Let_def
      rs_nodes_def meridian_ring_set_create_def ring_nodes_def MERIDIAN_MAX_RINGS_def numeral_eq_Suc)

theorem rings_learn_from_gossip_witness:
  "\<exists>p'. meridian_protocol_on_packet (\<lambda>_. True) (\<lambda>_ _. 0) \<lparr>tv_sec = 0, tv_usec = 0\<rparr> \<lparr>tv_sec = 0, tv_usec = 0\<rparr>
        \<lparr>tv_sec = 0, tv_usec = 0\<rparr> example_protocol example_gossip = Ret (0, p', [])
    \<and> rs_nodes (pr_ring_set p') \<subseteq># {#example_gossip_node#}"
proof -
  let ?t = "\<lparr>tv_sec = 0, tv_usec = 0\<rparr>"
  have pending: "pending_index example_protocol pkt = None" for pkt
    using reachable_ok [OF example_protocol_reachable] by (auto simp: pending_index_def protocol_ok_def split: cres.splits)
  obtain base where dec: "meridian_gossip_decode example_gossip_item = Ret \<lparr>gp_base = base, gp_targets = [example_gossip_node]\<rparr>"
    using example_gossip_decode by blast
  obtain handle where handle: "pr_gossip_handle example_protocol = Some handle"
    using example_protocol_parts(1) by blast
  obtain p' where run: "meridian_protocol_on_packet (\<lambda>_. True) (\<lambda>_ _. 0) ?t ?t ?t example_protocol example_gossip = Ret (0, p', [])"
    by (simp add: meridian_protocol_on_packet_def example_gossip_header example_gossip_load pending dispatch_packet_def
        handle meridian_gossip_handle_on_packet_def dec MERIDIAN_PACKET_TYPE_GOSSIP_def del: cbind_Ret)
  from rings_learn_from_gossip [OF example_protocol_reachable run] show ?thesis
    using run dec by (auto simp: example_gossip_load example_protocol_parts(2) intro: subset_mset.order_trans)
qed

text \<open>
  No measurement is ever made: the encoder of the PING header allocates one slot too
  few, so every measure request fails and sends nothing. The latency cache is never
  filled by a PONG, and every node stays in the ring it was put in with latency 0.
\<close>

theorem measure_never_sent:
  "meridian_measure_request_execute malloc realloc_ok dgram now p req =
     (- 1, p, [], if mr_completed req then req else req\<lparr>mr_start_time := now\<rparr>)"
  by (rule execute_inert)

text \<open>
  C38. Ring management does nothing: a ring is eligible for replacement only when its
  primary list is full, and promoting a node is refused exactly then.
\<close>

theorem ring_management_inert: "meridian_protocol_ring_management p = (0, p)"
  by (rule management_inert)

section \<open>Accepted connections and received datagrams\<close>

definition no_node :: "hquic \<Rightarrow> meridian_protocol \<Rightarrow> bool" where
  "no_node c p \<longleftrightarrow> (\<forall>n. (c, Some n) \<notin> set (pr_peers p))"

lemma broadcast_effects:
  "snd (meridian_protocol_broadcast dgram p data) =
     concat (map (\<lambda>peer. case snd peer of None \<Rightarrow> []
       | Some n \<Rightarrow> snd (meridian_protocol_send_packet dgram p data (Some n))) (pr_peers p))"
proof -
  let ?f = "\<lambda>(c, node) (result, es). case node of None \<Rightarrow> (result, es)
        | Some n \<Rightarrow> let (rc, es1) = meridian_protocol_send_packet dgram p data (Some n)
            in (if rc \<noteq> 0 then - 1 else result, es @ es1)"
  let ?g = "\<lambda>peer. case snd peer of None \<Rightarrow> []
       | Some n \<Rightarrow> snd (meridian_protocol_send_packet dgram p data (Some n))"
  have step: "snd (?f peer acc) = snd acc @ ?g peer" for peer acc
    by (cases peer; cases acc; cases "snd peer") (simp_all add: split_def Let_def)
  have "snd (fold ?f peers acc) = snd acc @ concat (map ?g peers)" for peers acc
    by (induction peers arbitrary: acc) (simp_all only: fold_simps step list.map concat.simps append_Nil2 append_assoc)
  from this [of "pr_peers p" "(0, [])"] show ?thesis
    by (simp only: meridian_protocol_broadcast_def snd_conv append_Nil)
qed

lemma broadcast_peer:
  "Datagram c d \<in> set (snd (meridian_protocol_broadcast dgram p data)) \<Longrightarrow> \<not> no_node c p"
  unfolding broadcast_effects using send_packet_peer [of c d dgram p data]
  by (auto simp: no_node_def split: option.splits)

lemma gossip_peer:
  "Datagram c d \<in> set (snd (snd (meridian_protocol_gossip malloc dgram ptr now clock p))) \<Longrightarrow> \<not> no_node c p"
  using send_packet_peer [of c d dgram p]
  by (fastforce simp: meridian_protocol_gossip_def gossip_outbound_cb_def Let_def no_node_def
      split: option.splits prod.splits if_splits)

lemma packet_peers:
  assumes "meridian_protocol_on_packet malloc bucket now now0 now1 p data = Ret (rc, p', es)"
  shows "pr_peers p' = pr_peers p"
proof -
  have d: "pr_peers p' = pr_peers p" if "dispatch_packet malloc bucket p data item type = Ret (rc, p', es)" for item type
    using that by (cases rule: dispatch_cases) (auto simp: gossip_completed_cb_def)
  have m: "pr_peers (fst (complete_measure now now0 now1 i p)) = pr_peers p" for i
    by (simp add: complete_measure_def Let_def)
  show ?thesis
  proof (cases "cbor_load_item malloc data")
    case None
    then show ?thesis using assms by (simp add: meridian_protocol_on_packet_def split: if_splits)
  next
    case (Some item)
    show ?thesis
    proof (cases "pending_index p (meridian_packet_decode item)")
      case (Some i)
      then show ?thesis
        using assms \<open>cbor_load_item malloc data = Some item\<close> m [of i]
        by (auto simp: meridian_protocol_on_packet_def split: if_splits prod.splits)
    next
      case None
      then show ?thesis
        using assms \<open>cbor_load_item malloc data = Some item\<close> d
        unfolding meridian_protocol_on_packet_def by (simp split: if_splits cres.splits)
    qed
  qed
qed

lemma steady_peers:
  "pr_peers (fst (snd (meridian_protocol_start qs now p))) = pr_peers p"
  "pr_peers (snd (meridian_protocol_add_seed_node p addr port)) = pr_peers p"
  "pr_peers (snd (meridian_protocol_on_measure_result now0 now p node l ok)) = pr_peers p"
  by (simp_all add: meridian_protocol_start_def meridian_protocol_add_seed_node_def
      meridian_protocol_on_measure_result_def Let_def split: option.split)

lemma stop_peers: "pr_peers (fst (snd (meridian_protocol_stop p))) = (if pr_running p then [] else pr_peers p)"
  by (simp add: meridian_protocol_stop_def)

lemma step_no_node:
  assumes "protocol_step p p'" "no_node c p"
  shows "no_node c p' \<or> (\<exists>started addr port rc es. meridian_protocol_connect (Some c) started p addr port = (rc, p', es))"
  using assms
proof (induction rule: protocol_step.induct)
  case (connect conn started p addr port rc p' es)
  show ?case
  proof (cases "conn = Some c")
    case False
    from connect(1) show ?thesis
    proof (cases rule: connect_cases)
      case (2 c')
      then show ?thesis using connect(2) False by (simp add: no_node_def)
    qed (use connect(2) in simp)
  qed (use connect in blast)
next
  case (packet malloc bucket now now0 now1 p data rc p' es)
  then show ?case using packet_peers [OF packet(1)] by (simp add: no_node_def)
next
  case (gossip malloc dgram ptr now clock p rc p' es)
  then show ?case
    by (auto simp: meridian_protocol_gossip_def Let_def no_node_def split: option.splits prod.splits if_splits)
next
  case (disconnect p addr port rc p' es)
  then show ?case
    using set_remove_first_subset [of "peer_at addr port" "pr_peers p"]
    by (auto simp: meridian_protocol_disconnect_def no_node_def split: option.splits if_splits)
next
  case (start qs now p rc p' es)
  then show ?case using steady_peers(1) [of qs now p] by (simp add: no_node_def)
next
  case (stop p rc p' es)
  then show ?case using stop_peers [of p] by (auto simp: no_node_def)
next
  case (seed p addr port rc p')
  then show ?case using steady_peers(2) [of p addr port] by (simp add: no_node_def)
next
  case (result now0 now p node l ok rc p')
  then show ?case using steady_peers(3) [of now0 now p node l ok] by (simp add: no_node_def)
next
  case (accepted p configured conn p')
  then show ?case by (auto simp: no_node_def ListenerCallback_new_def split: if_splits)
qed (simp_all add: no_node_def execute_inert management_inert meridian_protocol_set_callbacks_def)

text \<open>
  A connection that a peer opened is never written to: it gets no node when it is
  accepted, no later step gives it one (short of msquic handing out its handle again
  for an outgoing connection), and neither packets nor broadcasts nor gossip go to
  connections without a node.
\<close>

theorem accepted_never_addressed:
  assumes "no_node c p"
  shows "Datagram c d \<notin> set (snd (meridian_protocol_send_packet dgram p data t))
    \<and> Datagram c d \<notin> set (snd (meridian_protocol_broadcast dgram p data))
    \<and> Datagram c d \<notin> set (snd (snd (meridian_protocol_gossip malloc dgram ptr now clock p)))
    \<and> no_node c (ListenerCallback_new configured p c)
    \<and> (protocol_step p p' \<longrightarrow> no_node c p' \<or>
        (\<exists>started addr port rc es. meridian_protocol_connect (Some c) started p addr port = (rc, p', es)))"
  using send_packet_peer [of c d dgram p data t] broadcast_peer [of c d dgram p data]
    gossip_peer [of c d malloc dgram ptr now clock p] step_no_node [OF _ assms, of p'] assms
  by (auto simp: no_node_def ListenerCallback_new_def)

theorem accepted_never_addressed_witness:
  "Datagram 2 [9] \<notin> set (snd (meridian_protocol_broadcast (\<lambda>_ _. True) (ListenerCallback_new True example_protocol 2) [9]))
    \<and> length (pr_peers (ListenerCallback_new True example_protocol 2)) = 2"
proof -
  have "no_node 2 (ListenerCallback_new True example_protocol 2)"
    by (simp add: no_node_def ListenerCallback_new_def example_protocol_simps)
  from accepted_never_addressed [OF this] show ?thesis
    by (simp add: ListenerCallback_new_def example_protocol_simps)
qed

text \<open>
  What the program does with a protocol object: channels start and stop it, add seed
  nodes and let it gossip (\<open>src/Channel/channel.c\<close>), and the channel manager connects it
  to the peers it learns of (\<open>src/Channel/channel_manager.c\<close>). No part of the program
  installs callbacks.
\<close>

inductive program_step :: "meridian_protocol \<Rightarrow> meridian_protocol \<Rightarrow> bool" where
  prog_start: "meridian_protocol_start qs now p = (rc, p', es) \<Longrightarrow> program_step p p'"
| prog_stop: "meridian_protocol_stop p = (rc, p', es) \<Longrightarrow> program_step p p'"
| prog_seed: "meridian_protocol_add_seed_node p addr port = (rc, p') \<Longrightarrow> program_step p p'"
| prog_gossip: "meridian_protocol_gossip malloc dgram ptr now clock p = (rc, p', es) \<Longrightarrow> program_step p p'"
| prog_connect: "meridian_protocol_connect conn started p addr port = (rc, p', es) \<Longrightarrow> program_step p p'"
| prog_accept: "pr_listener p \<Longrightarrow> ListenerCallback_new configured p conn = p' \<Longrightarrow> program_step p p'"

lemma program_step_callbacks: "program_step p p' \<Longrightarrow> pr_on_packet p' = pr_on_packet p"
  by (induction rule: program_step.induct)
    (auto simp: meridian_protocol_start_def meridian_protocol_stop_def meridian_protocol_add_seed_node_def
      meridian_protocol_gossip_def meridian_protocol_connect_def ListenerCallback_new_def Let_def
      split: if_splits option.splits prod.splits)

text \<open>
  C37. Received datagrams are dropped: in every state the program brings a protocol object
  into, a datagram that arrives on a connection has no effect, because it is only
  passed to a callback that nothing installs.
\<close>

theorem received_datagrams_dropped:
  assumes "program_step\<^sup>*\<^sup>* (meridian_protocol_create config) p"
  shows "ConnectionCallback_datagram p data = []"
proof -
  have "pr_on_packet p = pr_on_packet (meridian_protocol_create config)"
    using assms by (induction rule: rtranclp_induct) (simp_all add: program_step_callbacks)
  then show ?thesis by (simp add: ConnectionCallback_datagram_def meridian_protocol_create_def)
qed

theorem received_datagrams_dropped_witness: "ConnectionCallback_datagram example_protocol [1, 2, 3] = []"
proof (rule received_datagrams_dropped)
  let ?p0 = "meridian_protocol_create example_protocol_config"
  obtain rc p1 es where start: "meridian_protocol_start example_quic \<lparr>tv_sec = 0, tv_usec = 0\<rparr> ?p0 = (rc, p1, es)"
    by (metis prod_cases3)
  obtain rc' es' where "meridian_protocol_connect (Some 1) True p1 7 8 = (rc', example_protocol, es')"
    unfolding example_protocol_def start by (metis fst_conv prod.collapse snd_conv)
  with start show "program_step\<^sup>*\<^sup>* ?p0 example_protocol"
    by (meson program_step.intros converse_rtranclp_into_rtranclp r_into_rtranclp)
qed

end
