(* ===== verification/RefCounter.thy ===== *)
theory RefCounter
  imports Prelude
begin

text \<open>
  The reference counter every shared object of the program starts with
  (\<open>src/RefCounter/refcounter.c\<close>). \<open>count\<close> is a \<open>uint_fast16_t\<close>, 64 bits wide on the
  64 bit platforms the program is built for, but it is always read into a
  \<open>uint16_t\<close>; \<open>yield\<close> is a \<open>uint8_t\<close>. The compare-and-exchange loops retry until they
  succeed on a value they have read, so each operation is one atomic step. The
  pattern of every destructor of the source is \<open>release\<close>: give the reference back
  and free the object when the count reads zero.
\<close>

record refcounter =
  rc_count :: u64
  rc_yield :: byte

definition refcounter_init :: refcounter where
  "refcounter_init = \<lparr>rc_count = 1, rc_yield = 0\<rparr>"

definition refcounter_yield :: "refcounter \<Rightarrow> refcounter" where
  "refcounter_yield r = r\<lparr>rc_yield := rc_yield r + 1\<rparr>"

definition refcounter_reference :: "refcounter \<Rightarrow> refcounter" where
  "refcounter_reference r =
     (if rc_yield r > 0 then r\<lparr>rc_yield := rc_yield r - 1\<rparr> else r\<lparr>rc_count := rc_count r + 1\<rparr>)"

definition refcounter_dereference :: "refcounter \<Rightarrow> refcounter" where
  "refcounter_dereference r =
     (if rc_yield r > 0 then r\<lparr>rc_yield := rc_yield r - 1\<rparr>
      else let count_val = (ucast (rc_count r) :: u16)
           in if count_val > 0 then r\<lparr>rc_count := rc_count r - 1\<rparr> else r)"

definition refcounter_count :: "refcounter \<Rightarrow> u16" where
  "refcounter_count r = ucast (rc_count r)"

text \<open>\<open>refcounter_consume\<close> clears the holder's pointer and leaves a yield for the next one.\<close>

definition refcounter_consume :: "refcounter \<Rightarrow> refcounter" where
  "refcounter_consume r = refcounter_yield r"

definition release :: "refcounter \<Rightarrow> refcounter \<times> bool" where
  "release r = (let r' = refcounter_dereference r in (r', refcounter_count r' = 0))"

section \<open>Counting the holders\<close>

text \<open>
  An object is held by \<open>n\<close> pointers when its count is \<open>n\<close> and no reference is in
  transit. The count is meaningful below 65536 holders, where its low 16 bits are all
  of it.
\<close>

definition held :: "nat \<Rightarrow> refcounter \<Rightarrow> bool" where
  "held n r \<longleftrightarrow> unat (rc_count r) = n \<and> n < 2 ^ 16 \<and> rc_yield r = 0"

datatype hold = Take | Give | Move

text \<open>\<open>Move\<close> hands a reference over: the holder consumes it and the receiver references it.\<close>

definition hold_step :: "hold \<Rightarrow> refcounter \<Rightarrow> refcounter" where
  "hold_step h r =
     (case h of Take \<Rightarrow> refcounter_reference r | Give \<Rightarrow> fst (release r)
      | Move \<Rightarrow> refcounter_reference (refcounter_consume r))"

fun holders :: "nat \<Rightarrow> hold list \<Rightarrow> nat option" where
  "holders n [] = Some n"
| "holders n (h # hs) =
     (if n = 0 \<or> n \<ge> 65535 then None
      else holders (case h of Take \<Rightarrow> n + 1 | Give \<Rightarrow> n - 1 | Move \<Rightarrow> n) hs)"

lemma ucast_count: "unat c < 2 ^ 16 \<Longrightarrow> unat (ucast (c::u64) :: u16) = unat c"
  by (simp add: unsigned_ucast_eq take_bit_nat_eq_self)

lemma refcounter_count_held: "held n r \<Longrightarrow> unat (refcounter_count r) = n"
  by (auto simp: held_def refcounter_count_def ucast_count)

lemma held_reference:
  assumes "held n r" "n + 1 < 2 ^ 16"
  shows "held (n + 1) (refcounter_reference r)"
proof -
  have "unat (rc_count r + 1) = unat (rc_count r) + 1"
    using assms by (subst unat_word_ariths) (simp add: held_def)
  then show ?thesis using assms by (simp add: held_def refcounter_reference_def)
qed

lemma held_dereference:
  assumes "held n r" "0 < n"
  shows "held (n - 1) (refcounter_dereference r)"
proof -
  have "(ucast (rc_count r) :: u16) > 0"
    using assms ucast_count [of "rc_count r"] by (auto simp: held_def word_less_nat_alt)
  moreover have "unat (rc_count r - 1) = unat (rc_count r) - 1"
    using assms by (subst unat_sub) (auto simp: held_def word_le_nat_alt)
  ultimately show ?thesis using assms by (auto simp: held_def refcounter_dereference_def)
qed

lemma held_consume: "held n r \<Longrightarrow> refcounter_reference (refcounter_consume r) = r"
  by (simp add: held_def refcounter_consume_def refcounter_yield_def refcounter_reference_def)

lemma held_release:
  assumes "held n r" "0 < n"
  shows "held (n - 1) (fst (release r))" "snd (release r) \<longleftrightarrow> n = 1"
proof -
  show h: "held (n - 1) (fst (release r))"
    using held_dereference [OF assms] by (simp add: release_def Let_def)
  have "snd (release r) \<longleftrightarrow> unat (refcounter_count (fst (release r))) = 0"
    by (simp add: release_def Let_def unat_eq_0)
  then show "snd (release r) \<longleftrightarrow> n = 1"
    using refcounter_count_held [OF h] assms(2) by auto
qed

lemma held_step:
  assumes "held n r" "n \<noteq> 0" "n < 65535"
  shows "held (case h of Take \<Rightarrow> n + 1 | Give \<Rightarrow> n - 1 | Move \<Rightarrow> n) (hold_step h r)"
  using assms held_reference [of n r] held_release(1) [of n r] held_consume [of n r]
  by (cases h) (simp_all add: hold_step_def)

section \<open>Properties\<close>



text \<open>
  A reference that was consumed must be taken up by \<open>refcounter_reference\<close>: a
  receiver that only gives it back uses up the yield, and the object of the last
  holder is never freed.
\<close>

theorem consumed_reference_leaks:
  assumes "held 1 r"
  shows "release (refcounter_consume r) = (r, False)"
proof -
  have "rc_yield r = 0" using assms by (simp add: held_def)
  then have "refcounter_dereference (refcounter_consume r) = r"
    by (simp add: refcounter_consume_def refcounter_yield_def refcounter_dereference_def)
  then show ?thesis
    using refcounter_count_held [OF assms] by (auto simp: release_def unat_eq_0 [symmetric])
qed

theorem consumed_reference_leaks_witness:
  "release (refcounter_consume refcounter_init) = (refcounter_init, False)"
  by (rule consumed_reference_leaks) (simp add: held_def refcounter_init_def)

end
