(* ===== verification/Spec2Isabelle.thy ===== *)
theory Spec2Isabelle
  imports ClientLibrary TimingWheel MeridianProtocol RefCounter
begin

text \<open>
  Verification development for Poseidon, a peer-to-peer publish/subscribe daemon in C.
  Clients connect to the daemon over a local transport and send requests; the daemon
  keeps channels, each with a key pair, an identity and an overlay of its own, and a
  dial channel on which nodes find each other; the overlay routes publications by
  Bloom filters of the topics each neighbour leads to. File names below are relative
  to \<open>src/src\<close> of the repository.

  \<^bold>\<open>The parts, their theories and what is shown.\<close>
  \<^item> \<open>Prelude\<close>: machine types (\<open>uint8_t\<close> to \<open>uint64_t\<close> as words, \<open>size_t\<close> as \<open>nat\<close>), the
    linear scans of C arrays as list functions, single precision rounding, and the
    interfaces several parts provide: \<open>total_comparator\<close>, \<open>bit_array\<close>, \<open>keyed_table\<close>,
    \<open>bounded_table\<close>. \<open>Wire\<close>: network byte order. \<open>RefCounter\<close>: \<open>RefCounter/refcounter.c\<close>;
    the counter is the number of references held.
  \<^item> \<open>Bitset\<close>, \<open>BloomFilter\<close>, \<open>ElasticBloom\<close>, \<open>ElasticCodec\<close>, \<open>AttenuatedBloom\<close>: the filters
    of \<open>Bloom\<close>. A filter is the record of its C struct; an elastic filter refines a
    multiset of fingerprints (adding, removing and merging commute with the abstraction
    through every expansion and compression); no filter has a false negative within its limits;
    the encodings are inverted by their decoders.
  \<^item> \<open>MessageId\<close> (\<open>Network/Quasar/quasar_message_id.c\<close>, \<open>Workers/transaction_id.c\<close>), \<open>Base58\<close>
    (\<open>Util/base58.c\<close>), \<open>NodeId\<close> (\<open>Crypto/node_id.c\<close>, \<open>Network/Meridian/meridian.c\<close>), \<open>KeyPair\<close>
    (\<open>Crypto/key_pair.c\<close>): identifiers are unique and ordered, texts and keys round-trip.
  \<^item> \<open>Cbor\<close>, \<open>LibCbor\<close>: the items of libcbor, its serialiser and its loader
    (\<open>deps/libcbor/src\<close>); loading what was serialised gives the item back. \<open>Packet\<close>
    (\<open>Network/Meridian/meridian_packet.c\<close>): the packets of the overlay over CBOR items.
  \<^item> \<open>RouteMessage\<close>, \<open>Quasar\<close> (\<open>Network/Quasar\<close>): route messages on the wire, subscriptions,
    publication, routing and gossip of the overlay. A message is handled once, delivered
    exactly to subscribers, and forwarded within its hop limit.
  \<^item> \<open>MeridianQuery\<close>, \<open>MeridianRing\<close>, \<open>MeridianGossip\<close>, \<open>MeridianProtocol\<close> (\<open>meridian_query.c\<close>,
    \<open>meridian_measure.c\<close>, \<open>meridian_ring.c\<close>, \<open>meridian_gossip.c\<close>, \<open>meridian_protocol.c\<close> of
    \<open>Network/Meridian\<close>): the table of queries, the latency cache (interface \<open>lossy_cache\<close>),
    the latency rings, which refine a bag of nodes (interface \<open>node_bag\<close>), the gossip
    schedule, and the protocol object with its peers and QUIC connections, whose
    invariant holds in every state its operations and the events of msquic lead to.
  \<^item> \<open>Topic\<close> (\<open>Channel/subtopic.c\<close>, \<open>topic_alias.c\<close>, \<open>topic_id.c\<close>, \<open>channel_message.c\<close>),
    \<open>Channel\<close> (\<open>channel.c\<close>), \<open>Notice\<close> (\<open>channel_notice.c\<close>), \<open>ChannelManager\<close>, \<open>ManagerRuns\<close>,
    \<open>NoticeFlow\<close> (\<open>channel_manager.c\<close>): channels are objects on a heap, the manager a record
    that points to them, and an operation of the manager an action that may read a freed
    object or overflow the stack. The interfaces \<open>manager_handlers\<close>, \<open>manager_requests\<close> and
    \<open>manager_invariant\<close> carry an invariant through every handler; reachable managers keep
    it, created notices verify, and a signature covers its notice.
  \<^item> \<open>ClientProtocol\<close>, \<open>ClientSession\<close>, \<open>TransportUnix\<close> (\<open>ClientAPIs\<close>): the frames, the requests
    of a session (interface \<open>daemon_requests\<close>) and the Unix socket transport. Every request
    is answered, administrative ones only with the owner's signature, a publication
    reaches exactly its subscribers, and however the bytes of a connection are cut
    into reads the same frames are handled.
  \<^item> \<open>ClientLibrary\<close> (\<open>ClientLibs/c/poseidon_client.c\<close>): a request of the library goes through
    the transport to the session and its answer back to the caller.
  \<^item> \<open>TimingWheel\<close> (\<open>Time/wheel.c\<close>, \<open>Time/debouncer.c\<close>): wheels of slots refine countdowns
    (interface \<open>countdown\<close>), plans of timers are exact, and every timer ends.
  \<^item> This theory: what spans the overlay and the protocol object below it.

  \<^bold>\<open>How code becomes definitions.\<close> A struct is a \<open>record\<close>, an enum a \<open>datatype\<close>, a function
  a definition of the same name from the old object to the result and the new
  object; a function that locks its object throughout is one atomic step. Status codes
  are the integers of the source. What an operation asks of the outside (packets,
  callbacks, sockets, msquic) is a list of effects in order. Undefined behaviour (a read
  past the end, a violated assertion of libcbor, a freed object) is a value of the result
  type (\<open>Undef\<close>, or the corresponding outcome of a manager action), so that its absence is
  something to prove. One-line constants are definitions with the names of the source.

  \<^bold>\<open>Parameters.\<close> Third-party code is an argument: \<open>malloc\<close> and \<open>realloc\<close> (which
  sizes succeed), the hash \<open>xxh\<close>, BLAKE3, OpenSSL (the record \<open>openssl\<close>), the clock (one
  reading per call), the ring index the floating point library computes for a latency, the outcome of msquic and
  socket calls. What a theorem needs of them is among its hypotheses (for instance that
  a signature verifies, or that BLAKE3 returns 32 bytes), and its witness instantiates them.

  \<^bold>\<open>Bounds.\<close> Publishing on the dial channel calls the handlers of the manager, which may
  publish again: the number of nested publications the stack has room for is an
  argument, and running out of it is the outcome \<open>Overflow\<close>. The invariants hold for every
  bound; that no bound suffices for a verified delete notice whose topic the dial
  channel subscribes to is one of the theorems. All other recursion is total without fuel.

  \<^bold>\<open>Not modelled.\<close>
  \<^item> The TCP, WebSocket, QUIC, WebTransport, XPC and Binder transports: TCP and WebSocket hand the same
    sessions the frames they read from TCP or TLS sockets, XPC and Binder only set a flag
    and fail every send, and QUIC and WebTransport live in callbacks of msquic and
    libwtf, which are not in the repository.
  \<^item> Relays, rendezvous tunnels and managed connections (\<open>meridian_relay.c\<close>,
    \<open>meridian_relay_server.c\<close>, \<open>meridian_rendv.c\<close>, \<open>meridian_conn.c\<close>, \<open>msquic_singleton.c\<close>): their
    state follows callbacks of msquic, which is not in the repository; the protocol
    object creates and destroys a rendezvous handle and uses it for nothing else.
  \<^item> Threads, work pool, promises, logging, files, performance counters and allocators:
    scheduling and I/O. Locks are atomic steps. Buffers, vectors and hash maps are the
    lists and maps of the parts that use them.
  \<^item> \<open>poseidond.c\<close> and \<open>relay_main.c\<close> (option parsing and start-up), the clients in
    JavaScript, Python, Swift and Kotlin, the user interface \<open>WaveClient\<close>, and the libraries under \<open>deps\<close> other than the parts of libcbor used.
\<close>

section \<open>From the overlay to the connections\<close>

text \<open>
  What the protocol object does with a packet the publish/subscribe overlay hands it:
  a packet for a peer goes through \<open>meridian_protocol_send_packet\<close>, a broadcast through
  \<open>meridian_protocol_broadcast\<close>; a delivery stays in the node.
\<close>

definition overlay_send :: "(hquic \<Rightarrow> bytes \<Rightarrow> bool) \<Rightarrow> meridian_protocol \<Rightarrow> effect \<Rightarrow> protocol_effect list" where
  "overlay_send dgram p e =
     (case e of
        Send data peer \<Rightarrow>
          snd (meridian_protocol_send_packet dgram p data (Some (meridian_node_create (fst peer) (snd peer) None)))
      | Broadcast data \<Rightarrow> snd (meridian_protocol_broadcast dgram p data)
      | Deliver topic data \<Rightarrow> [])"

lemma view_peer:
  assumes "peer \<in> set (mv_peers (protocol_view p))"
  obtains c n where "(c, Some n) \<in> set (pr_peers p)" "peer = (n_addr n, n_port n)"
proof -
  have "(fst peer, snd peer) \<in> set (addrs_of (pr_peers p))"
    using assms by (simp add: peer_addrs [unfolded peer_addrs_def])
  then obtain c n where "(c, Some n) \<in> set (pr_peers p)" "n_addr n = fst peer" "n_port n = snd peer"
    unfolding addrs_of_iff by (auto simp: list_ex_iff peer_at_def split: option.splits)
  then show thesis by (intro that [of c n]) simp_all
qed

lemma overlay_send_peer:
  assumes "protocol_ok p" "pr_running p" "peer \<in> set (mv_peers (protocol_view p))"
  shows "\<exists>c n. (c, Some n) \<in> set (pr_peers p) \<and> peer = (n_addr n, n_port n)
    \<and> overlay_send dgram p (Send data peer) = [Datagram c data]"
proof -
  obtain c n where peer: "(c, Some n) \<in> set (pr_peers p)" "peer = (n_addr n, n_port n)"
    using view_peer [OF assms(3)] .
  have "distinct (addrs_of (pr_peers p))" using assms(1) by (simp add: protocol_ok_def peer_addrs)
  from find_peer [OF this peer(1)]
  have "overlay_send dgram p (Send data peer) = [Datagram c data]"
    using send_to_peer [OF assms(1,2)] peer(2) by (simp add: overlay_send_def meridian_node_create_def)
  with peer show ?thesis by blast
qed



end
